(* ===== verification/PR_Prelude.thy ===== *)
theory PR_Prelude
  imports Main "HOL-Library.Word"
begin

section \<open>Shared types, errors and automation\<close>

text \<open>
  What every other theory of the development uses: names for the machine integers and
  byte buffers of the program, its error values, the combinators of \<open>Result\<close>, and the
  collections of simplification rules the component theories add to.

  A \<open>char\<close> of HOL is one byte, so \<open>string\<close> serves both for \<open>Vec<u8>\<close>/\<open>&[u8]\<close> and for
  \<open>str\<close>/\<open>String\<close>, whose contents in Rust are the bytes of the UTF-8 encoding.  Lengths of
  strings are therefore byte lengths, as in Rust.
\<close>

named_theorems result_simps \<open>equations of the result combinators\<close>
named_theorems std_simps \<open>equations of the standard-library functions the program calls\<close>
named_theorems timely_intros \<open>composition rules for the time bounds of asynchronous code\<close>
named_theorems patient_intros \<open>composition rules for code that no distant deadline changes\<close>
named_theorems returns_intros \<open>composition rules for asynchronous code that always returns\<close>

type_synonym bytes = string
type_synonym u16 = "16 word"
type_synonym u64 = "64 word"
type_synonym usize = "64 word"

subsection \<open>Errors\<close>

text \<open>
  \<open>std::io::Error\<close> is a kind and a text; the program only tests for the kind
  \<open>NotFound\<close> and for a substring of the text.  An \<open>anyhow::Error\<close> is a message or a
  wrapped error, under the contexts added on the way up (\<open>.context(..)\<close>).
\<close>

datatype error_kind = NotFound | UnexpectedEof | OtherKind

datatype io_error = IoError (io_kind: error_kind) (io_text: string)

datatype error =
    Msg string
  | FromIo io_error
  | FromUtf8
  | Context string error

text \<open>The innermost cause, below all contexts.\<close>

fun root_cause :: "error \<Rightarrow> error" where
  "root_cause (Context c e) = root_cause e"
| "root_cause (Msg m) = Msg m"
| "root_cause (FromIo e) = FromIo e"
| "root_cause FromUtf8 = FromUtf8"

subsection \<open>Results\<close>

definition bind_res :: "'e + 'a \<Rightarrow> ('a \<Rightarrow> 'e + 'b) \<Rightarrow> 'e + 'b" where
  "bind_res r f = (case r of Inl e \<Rightarrow> Inl e | Inr a \<Rightarrow> f a)"

definition map_err :: "('e \<Rightarrow> 'f) \<Rightarrow> 'e + 'a \<Rightarrow> 'f + 'a" where
  "map_err g r = (case r of Inl e \<Rightarrow> Inl (g e) | Inr a \<Rightarrow> Inr a)"

definition context_res :: "string \<Rightarrow> error + 'a \<Rightarrow> error + 'a" where
  "context_res c = map_err (Context c)"

definition ok_or :: "'e \<Rightarrow> 'a option \<Rightarrow> 'e + 'a" where
  "ok_or e x = (case x of None \<Rightarrow> Inl e | Some a \<Rightarrow> Inr a)"

definition is_ok :: "'e + 'a \<Rightarrow> bool" where
  "is_ok r = (case r of Inl _ \<Rightarrow> False | Inr _ \<Rightarrow> True)"

lemma bind_res_simps [simp, result_simps]:
  "bind_res (Inl e) f = Inl e"
  "bind_res (Inr a) f = f a"
  by (simp_all add: bind_res_def)

lemma map_err_simps [simp, result_simps]:
  "map_err g (Inl e) = Inl (g e)"
  "map_err g (Inr a) = Inr a"
  by (simp_all add: map_err_def)

lemma context_res_simps [simp, result_simps]:
  "context_res c (Inl e) = Inl (Context c e)"
  "context_res c (Inr a) = Inr a"
  by (simp_all add: context_res_def)

lemma ok_or_simps [simp, result_simps]:
  "ok_or e None = Inl e"
  "ok_or e (Some a) = Inr a"
  by (simp_all add: ok_or_def)

lemma is_ok_simps [simp, result_simps]:
  "\<not> is_ok (Inl e)"
  "is_ok (Inr a)"
  by (simp_all add: is_ok_def)

lemma bind_res_Inr_iff: "bind_res r f = Inr b \<longleftrightarrow> (\<exists>a. r = Inr a \<and> f a = Inr b)"
  by (cases r) auto

lemma bind_res_Inl_iff:
  "bind_res r f = Inl e \<longleftrightarrow> r = Inl e \<or> (\<exists>a. r = Inr a \<and> f a = Inl e)"
  by (cases r) auto

lemma map_err_Inr_iff: "map_err g r = Inr b \<longleftrightarrow> r = Inr b"
  by (cases r) auto

lemma context_res_Inr_iff: "context_res c r = Inr b \<longleftrightarrow> r = Inr b"
  by (cases r) auto

lemma ok_or_Inr_iff: "ok_or e x = Inr a \<longleftrightarrow> x = Some a"
  by (cases x) auto

lemmas result_iffs =
  bind_res_Inr_iff bind_res_Inl_iff map_err_Inr_iff context_res_Inr_iff ok_or_Inr_iff

subsection \<open>Generic list facts\<close>

lemma takeWhile_no_split:
  "x \<notin> set xs \<Longrightarrow> takeWhile (\<lambda>c. c \<noteq> x) (xs @ x # ys) = xs"
  by (induction xs) auto

lemma dropWhile_no_split:
  "x \<notin> set xs \<Longrightarrow> dropWhile (\<lambda>c. c \<noteq> x) (xs @ x # ys) = x # ys"
  by (induction xs) auto

lemma takeWhile_absent: "x \<notin> set xs \<Longrightarrow> takeWhile (\<lambda>c. c \<noteq> x) xs = xs"
  by (induction xs) auto

lemma dropWhile_absent: "x \<notin> set xs \<Longrightarrow> dropWhile (\<lambda>c. c \<noteq> x) xs = []"
  by (induction xs) auto

lemma take_length_append [simp]: "n = length xs \<Longrightarrow> take n (xs @ ys) = xs"
  by simp

lemma drop_length_append [simp]: "n = length xs \<Longrightarrow> drop n (xs @ ys) = ys"
  by simp

end
