(* ===== verification/Rust_Std.thy ===== *)
theory Rust_Std
  imports PR_Prelude
begin

section \<open>The standard-library functions the program calls\<close>

text \<open>
  Rust's string, number and path functions, as far as the sources use them: decimal
  \<open>Display\<close> of unsigned integers and \<open>str::parse::<u16>\<close>; \<open>trim\<close>, \<open>trim_end\<close>,
  \<open>split_once\<close>, \<open>lines\<close>, \<open>starts_with\<close>, \<open>contains\<close>; \<open>str::from_utf8\<close>;
  \<open>u16::from_be_bytes\<close>; \<open>PathBuf::push\<close>/\<open>join\<close> and \<open>Path::extension\<close>.
  The definitions work on bytes, which is how Rust stores a \<open>str\<close>.
\<close>

abbreviation newline :: char where
  "newline \<equiv> CHR 0x0A"

abbreviation byte_val :: "char \<Rightarrow> nat" where
  "byte_val \<equiv> of_char"

subsection \<open>Printing and reading decimal numbers\<close>

definition digit_char :: "nat \<Rightarrow> char" where
  "digit_char d = char_of (48 + d)"

fun to_dec :: "nat \<Rightarrow> string" where
  "to_dec n = (if n < 10 then [digit_char n] else to_dec (n div 10) @ [digit_char (n mod 10)])"

declare to_dec.simps [simp del]

definition to_digit :: "char \<Rightarrow> nat option" where
  "to_digit c = (let v = byte_val c in if 48 \<le> v \<and> v \<le> 57 then Some (v - 48) else None)"

datatype parse_int_error = Empty | InvalidDigit | PosOverflow

text \<open>The \<open>Display\<close> texts of \<open>std::num::ParseIntError\<close>.\<close>

fun parse_int_text :: "parse_int_error \<Rightarrow> string" where
  "parse_int_text Empty = ''cannot parse integer from empty string''"
| "parse_int_text InvalidDigit = ''invalid digit found in string''"
| "parse_int_text PosOverflow = ''number too large to fit in target type''"

fun parse_digits :: "nat \<Rightarrow> nat \<Rightarrow> string \<Rightarrow> parse_int_error + nat" where
  "parse_digits mx acc [] = Inr acc"
| "parse_digits mx acc (c # cs) =
     (case to_digit c of
        None \<Rightarrow> Inl InvalidDigit
      | Some d \<Rightarrow>
          if 10 * acc + d > mx then Inl PosOverflow else parse_digits mx (10 * acc + d) cs)"

definition parse_uint :: "nat \<Rightarrow> string \<Rightarrow> parse_int_error + nat" where
  "parse_uint mx s =
     (case s of
        [] \<Rightarrow> Inl Empty
      | c # cs \<Rightarrow>
          if cs = [] \<and> (c = CHR ''+'' \<or> c = CHR ''-'') then Inl InvalidDigit
          else if c = CHR ''+'' then parse_digits mx 0 cs
          else parse_digits mx 0 (c # cs))"

definition parse_u16 :: "string \<Rightarrow> parse_int_error + u16" where
  "parse_u16 s =
     (case parse_uint 65535 s of Inl e \<Rightarrow> Inl e | Inr n \<Rightarrow> Inr (word_of_nat n))"

lemma to_digit_digit_char [simp]: "d < 10 \<Longrightarrow> to_digit (digit_char d) = Some d"
  by (simp add: to_digit_def digit_char_def Let_def)

lemma byte_val_digit_char [simp]: "d < 10 \<Longrightarrow> byte_val (digit_char d) = 48 + d"
  by (simp add: digit_char_def)

lemma to_digit_Some: "to_digit c = Some d \<Longrightarrow> d < 10 \<and> c = digit_char d"
  by (auto simp: to_digit_def digit_char_def Let_def split: if_splits)

lemma to_dec_nonempty [simp]: "to_dec n \<noteq> []"
  by (subst to_dec.simps) simp

lemma set_to_dec: "c \<in> set (to_dec n) \<Longrightarrow> \<exists>d<10. c = digit_char d"
proof (induction n rule: to_dec.induct)
  case (1 n)
  show ?case
  proof (cases "n < 10")
    case True
    with "1.prems" show ?thesis by (auto simp: to_dec.simps [of n])
  next
    case False
    with "1.prems" have "c \<in> set (to_dec (n div 10)) \<or> c = digit_char (n mod 10)"
      by (auto simp: to_dec.simps [of n])
    moreover have "n mod 10 < 10" by simp
    ultimately show ?thesis using "1.IH" [OF False] by blast
  qed
qed

lemma parse_digits_append:
  "parse_digits mx acc (xs @ ys) =
     (case parse_digits mx acc xs of Inl e \<Rightarrow> Inl e | Inr a \<Rightarrow> parse_digits mx a ys)"
  by (induction xs arbitrary: acc) (auto split: option.splits)

lemma parse_digits_to_dec: "n \<le> mx \<Longrightarrow> parse_digits mx 0 (to_dec n) = Inr n"
proof (induction n rule: to_dec.induct)
  case (1 n)
  show ?case
  proof (cases "n < 10")
    case True
    with "1.prems" show ?thesis by (simp add: to_dec.simps [of n])
  next
    case False
    with "1.IH" "1.prems" have "parse_digits mx 0 (to_dec (n div 10)) = Inr (n div 10)"
      by simp
    with False "1.prems" show ?thesis
      by (simp add: to_dec.simps [of n] parse_digits_append)
  qed
qed

lemma digit_char_neq_special:
  assumes "d < 10"
  shows "digit_char d \<noteq> CHR ''+''" "digit_char d \<noteq> CHR ''-''" "digit_char d \<noteq> newline"
    "digit_char d \<noteq> CHR 0x0D" "digit_char d \<noteq> CHR '' ''"
proof -
  have "byte_val (digit_char d) = 48 + d" using assms by simp
  then show "digit_char d \<noteq> CHR ''+''" "digit_char d \<noteq> CHR ''-''" "digit_char d \<noteq> newline"
    "digit_char d \<noteq> CHR 0x0D" "digit_char d \<noteq> CHR '' ''"
    by auto
qed

lemma to_dec_no_special:
  "CHR ''+'' \<notin> set (to_dec n)" "CHR ''-'' \<notin> set (to_dec n)" "newline \<notin> set (to_dec n)"
  "CHR 0x0D \<notin> set (to_dec n)"
  using set_to_dec digit_char_neq_special by metis+

lemma parse_uint_to_dec: "n \<le> mx \<Longrightarrow> parse_uint mx (to_dec n) = Inr n"
proof -
  assume n: "n \<le> mx"
  obtain c cs where c: "to_dec n = c # cs" by (cases "to_dec n") auto
  then have "c \<noteq> CHR ''+''" "c \<noteq> CHR ''-''"
    using to_dec_no_special [of n] by auto
  then show ?thesis using parse_digits_to_dec [OF n] c by (simp add: parse_uint_def)
qed

lemma to_dec_inj:
  assumes "to_dec m = to_dec n"
  shows "m = n"
proof -
  have "Inr m = (Inr n :: parse_int_error + nat)"
    using parse_uint_to_dec [of m "max m n"] parse_uint_to_dec [of n "max m n"]
    unfolding assms by (metis max.cobounded1 max.cobounded2)
  then show ?thesis by simp
qed

lemma to_dec_word_inj: "to_dec (unat a) = to_dec (unat b) \<Longrightarrow> a = b"
  by (rule unsigned_word_eqI) (rule to_dec_inj)

text \<open>A number ends where a character follows that is not a digit.\<close>

lemma to_dec_then_space:
  assumes "to_dec m @ CHR '' '' # x = to_dec n @ CHR '' '' # y"
  shows "to_dec m = to_dec n \<and> x = y"
proof -
  have "c \<noteq> CHR '' ''" if "c \<in> set (to_dec k)" for c k
    using set_to_dec [OF that] digit_char_neq_special by metis
  then have "takeWhile (\<lambda>c. c \<noteq> CHR '' '') (to_dec k @ CHR '' '' # z) = to_dec k" for k z
    by (subst takeWhile_append2) auto
  then have "to_dec m = to_dec n" using assms by metis
  with assms show ?thesis by simp
qed

lemma parse_u16_to_dec [std_simps]: "parse_u16 (to_dec (unat p)) = Inr p" for p :: u16
proof -
  have "unat p \<le> 65535" using unsigned_less [of p, where 'a = nat] by simp
  then show ?thesis by (simp add: parse_u16_def parse_uint_to_dec)
qed

subsection \<open>Whitespace\<close>

text \<open>
  \<open>char::is_whitespace\<close> is the Unicode property \<open>White_Space\<close>.  In UTF-8 its members are six
  single bytes, two two-byte and a few three-byte sequences; \<open>ws_len\<close> is the byte length of
  the white-space character a string starts with (0 if it starts with another character),
  and \<open>ws_len_rev\<close> the same for a reversed string, so for the end of a string.
\<close>

definition is_ws1 :: "nat \<Rightarrow> bool" where
  "is_ws1 a = (a \<in> {9, 10, 11, 12, 13, 32})"

definition is_ws2 :: "nat \<Rightarrow> nat \<Rightarrow> bool" where
  "is_ws2 a b = (a = 0xC2 \<and> b \<in> {0x85, 0xA0})"

definition is_ws3 :: "nat \<Rightarrow> nat \<Rightarrow> nat \<Rightarrow> bool" where
  "is_ws3 a b c =
     (a = 0xE1 \<and> b = 0x9A \<and> c = 0x80 \<or>
      a = 0xE2 \<and> b = 0x80 \<and> (0x80 \<le> c \<and> c \<le> 0x8A \<or> c \<in> {0xA8, 0xA9, 0xAF}) \<or>
      a = 0xE2 \<and> b = 0x81 \<and> c = 0x9F \<or>
      a = 0xE3 \<and> b = 0x80 \<and> c = 0x80)"

fun ws_len :: "string \<Rightarrow> nat" where
  "ws_len (a # b # c # _) =
     (if is_ws1 (byte_val a) then 1
      else if is_ws2 (byte_val a) (byte_val b) then 2
      else if is_ws3 (byte_val a) (byte_val b) (byte_val c) then 3 else 0)"
| "ws_len [a, b] =
     (if is_ws1 (byte_val a) then 1 else if is_ws2 (byte_val a) (byte_val b) then 2 else 0)"
| "ws_len [a] = (if is_ws1 (byte_val a) then 1 else 0)"
| "ws_len [] = 0"

fun ws_len_rev :: "string \<Rightarrow> nat" where
  "ws_len_rev (c # b # a # _) =
     (if is_ws1 (byte_val c) then 1
      else if is_ws2 (byte_val b) (byte_val c) then 2
      else if is_ws3 (byte_val a) (byte_val b) (byte_val c) then 3 else 0)"
| "ws_len_rev [c, b] =
     (if is_ws1 (byte_val c) then 1 else if is_ws2 (byte_val b) (byte_val c) then 2 else 0)"
| "ws_len_rev [c] = (if is_ws1 (byte_val c) then 1 else 0)"
| "ws_len_rev [] = 0"

function strip_while :: "(string \<Rightarrow> nat) \<Rightarrow> string \<Rightarrow> string" where
  "strip_while f s =
     (if f s = 0 \<or> s = [] then s else strip_while f (drop (f s) s))"
  by pat_completeness auto
termination
  by (relation "measure (\<lambda>(f, s). length s)") auto

declare strip_while.simps [simp del]

definition trim_start :: "string \<Rightarrow> string" where
  "trim_start s = strip_while ws_len s"

definition trim_end :: "string \<Rightarrow> string" where
  "trim_end s = rev (strip_while ws_len_rev (rev s))"

definition trim :: "string \<Rightarrow> string" where
  "trim s = trim_end (trim_start s)"

text \<open>A byte that neither is nor starts nor ends a white-space character.\<close>

definition plain_byte :: "char \<Rightarrow> bool" where
  "plain_byte c = (32 < byte_val c \<and> byte_val c < 128)"

lemma ws_len_plain: "plain_byte c \<Longrightarrow> ws_len (c # cs) = 0"
  by (cases "c # cs" rule: ws_len.cases)
    (auto simp: plain_byte_def is_ws1_def is_ws2_def is_ws3_def)

lemma ws_len_rev_plain: "plain_byte c \<Longrightarrow> ws_len_rev (c # cs) = 0"
  by (cases "c # cs" rule: ws_len_rev.cases)
    (auto simp: plain_byte_def is_ws1_def is_ws2_def is_ws3_def)

lemma strip_while_stop: "f s = 0 \<Longrightarrow> strip_while f s = s"
  by (simp add: strip_while.simps)

lemma trim_start_plain: "s = [] \<or> plain_byte (hd s) \<Longrightarrow> trim_start s = s"
  by (cases s) (auto simp: trim_start_def strip_while.simps ws_len_plain)

lemma trim_end_plain: "s = [] \<or> plain_byte (last s) \<Longrightarrow> trim_end s = s"
  by (cases s rule: rev_cases)
    (auto simp: trim_end_def strip_while.simps ws_len_rev_plain)

lemma ws_len_rev_newline: "ws_len_rev (newline # cs) = 1"
  by (cases "newline # cs" rule: ws_len_rev.cases) (auto simp: is_ws1_def)

lemma trim_end_newline [std_simps]:
  assumes "s = [] \<or> plain_byte (last s)"
  shows "trim_end (s @ [newline]) = s"
proof -
  have "strip_while ws_len_rev (newline # rev s) = strip_while ws_len_rev (rev s)"
    by (subst strip_while.simps) (simp add: ws_len_rev_newline)
  then show ?thesis using trim_end_plain [OF assms] by (simp add: trim_end_def)
qed

lemma plain_digit: "d < 10 \<Longrightarrow> plain_byte (digit_char d)"
  by (simp add: plain_byte_def)

lemma to_dec_ends_plain: "plain_byte (hd (to_dec n))" "plain_byte (last (to_dec n))"
proof -
  have "hd (to_dec n) \<in> set (to_dec n)" "last (to_dec n) \<in> set (to_dec n)" by simp_all
  then show "plain_byte (hd (to_dec n))" "plain_byte (last (to_dec n))"
    using set_to_dec plain_digit by metis+
qed

lemma trim_to_dec [std_simps]: "trim (to_dec n) = to_dec n"
  by (simp add: trim_def trim_start_plain trim_end_plain to_dec_ends_plain)

subsection \<open>Splitting and searching\<close>

definition split_once :: "char \<Rightarrow> string \<Rightarrow> (string \<times> string) option" where
  "split_once c s =
     (case dropWhile (\<lambda>x. x \<noteq> c) s of
        [] \<Rightarrow> None
      | _ # rest \<Rightarrow> Some (takeWhile (\<lambda>x. x \<noteq> c) s, rest))"

lemma split_once_None [std_simps]: "c \<notin> set s \<Longrightarrow> split_once c s = None"
  by (simp add: split_once_def dropWhile_absent)

lemma split_once_first [std_simps]:
  "c \<notin> set xs \<Longrightarrow> split_once c (xs @ c # ys) = Some (xs, ys)"
  by (simp add: split_once_def dropWhile_no_split takeWhile_no_split)

lemma split_once_SomeD:
  assumes "split_once c s = Some (xs, ys)"
  shows "s = xs @ c # ys" "c \<notin> set xs"
proof -
  from assms obtain z zs where z: "dropWhile (\<lambda>x. x \<noteq> c) s = z # zs"
    and xs: "xs = takeWhile (\<lambda>x. x \<noteq> c) s" and ys: "ys = zs"
    by (auto simp: split_once_def split: list.splits)
  have "z = c" using hd_dropWhile [of "\<lambda>x. x \<noteq> c" s] z by simp
  then show "s = xs @ c # ys"
    using takeWhile_dropWhile_id [of "\<lambda>x. x \<noteq> c" s] z xs ys by simp
  show "c \<notin> set xs" using xs by (auto dest: set_takeWhileD)
qed

lemma split_once_NoneD: "split_once c s = None \<Longrightarrow> c \<notin> set s"
  by (auto simp: split_once_def dropWhile_eq_Nil_conv split: list.splits)

fun starts_with :: "string \<Rightarrow> string \<Rightarrow> bool" where
  "starts_with s [] = True"
| "starts_with [] (p # ps) = False"
| "starts_with (c # cs) (p # ps) = (c = p \<and> starts_with cs ps)"

lemma starts_with_iff: "starts_with s p \<longleftrightarrow> (\<exists>r. s = p @ r)"
  by (induction s p rule: starts_with.induct) auto

fun contains :: "string \<Rightarrow> string \<Rightarrow> bool" where
  "contains [] p = (p = [])"
| "contains (c # cs) p = (starts_with (c # cs) p \<or> contains cs p)"

lemma contains_iff: "contains s p \<longleftrightarrow> (\<exists>l r. s = l @ p @ r)"
proof (induction s)
  case Nil
  then show ?case by auto
next
  case (Cons c cs)
  have "(\<exists>l r. c # cs = l @ p @ r) \<longleftrightarrow>
      (\<exists>r. c # cs = p @ r) \<or> (\<exists>l r. cs = l @ p @ r)"
  proof
    assume "\<exists>l r. c # cs = l @ p @ r"
    then obtain l r where "c # cs = l @ p @ r" by blast
    then show "(\<exists>r. c # cs = p @ r) \<or> (\<exists>l r. cs = l @ p @ r)"
      by (cases l) auto
  next
    assume "(\<exists>r. c # cs = p @ r) \<or> (\<exists>l r. cs = l @ p @ r)"
    then show "\<exists>l r. c # cs = l @ p @ r"
      by (metis append_Cons append_Nil)
  qed
  with Cons.IH show ?case by (simp add: starts_with_iff)
qed

text \<open>
  \<open>str::lines\<close>: the pieces up to each newline; a carriage return right before the newline
  belongs to it, and an empty piece after the last newline is no line.
\<close>

definition strip_cr :: "string \<Rightarrow> string" where
  "strip_cr l = (if l \<noteq> [] \<and> last l = CHR 0x0D then butlast l else l)"

function lines :: "string \<Rightarrow> string list" where
  "lines s =
     (if s = [] then []
      else (case split_once newline s of
              None \<Rightarrow> [s]
            | Some (l, rest) \<Rightarrow> strip_cr l # lines rest))"
  by pat_completeness auto
termination
  by (relation "measure length") (auto dest: split_once_SomeD)

declare lines.simps [simp del]

lemma lines_Nil [simp]: "lines [] = []"
  by (simp add: lines.simps)

lemma strip_cr_id: "CHR 0x0D \<notin> set l \<Longrightarrow> strip_cr l = l"
  unfolding strip_cr_def by (metis last_in_set)

lemma lines_line [std_simps]:
  assumes "newline \<notin> set l" "CHR 0x0D \<notin> set l"
  shows "lines (l @ newline # rest) = l # lines rest"
  using assms by (subst lines.simps) (simp add: split_once_first strip_cr_id)

subsection \<open>UTF-8\<close>

text \<open>
  \<open>utf8_len\<close> is the byte length of the well-formed UTF-8 character a byte string starts
  with, 0 if there is none; \<open>from_utf8\<close> accepts a byte string made of such characters.
\<close>

definition in_range :: "nat \<Rightarrow> nat \<Rightarrow> char \<Rightarrow> bool" where
  "in_range lo hi c = (lo \<le> byte_val c \<and> byte_val c \<le> hi)"

abbreviation cont_byte :: "char \<Rightarrow> bool" where
  "cont_byte \<equiv> in_range 0x80 0xBF"

definition utf8_len2 :: "char \<Rightarrow> string \<Rightarrow> bool" where
  "utf8_len2 a s = (case s of b # _ \<Rightarrow> in_range 0xC2 0xDF a \<and> cont_byte b | _ \<Rightarrow> False)"

definition utf8_len3 :: "char \<Rightarrow> string \<Rightarrow> bool" where
  "utf8_len3 a s =
     (case s of
        b # c # _ \<Rightarrow>
          cont_byte c \<and>
          (in_range 0xE0 0xE0 a \<and> in_range 0xA0 0xBF b \<or>
           (in_range 0xE1 0xEC a \<or> in_range 0xEE 0xEF a) \<and> cont_byte b \<or>
           in_range 0xED 0xED a \<and> in_range 0x80 0x9F b)
      | _ \<Rightarrow> False)"

definition utf8_len4 :: "char \<Rightarrow> string \<Rightarrow> bool" where
  "utf8_len4 a s =
     (case s of
        b # c # d # _ \<Rightarrow>
          cont_byte c \<and> cont_byte d \<and>
          (in_range 0xF0 0xF0 a \<and> in_range 0x90 0xBF b \<or>
           in_range 0xF1 0xF3 a \<and> cont_byte b \<or>
           in_range 0xF4 0xF4 a \<and> in_range 0x80 0x8F b)
      | _ \<Rightarrow> False)"

definition utf8_len :: "char \<Rightarrow> string \<Rightarrow> nat" where
  "utf8_len a s =
     (if byte_val a < 0x80 then 1
      else if utf8_len2 a s then 2
      else if utf8_len3 a s then 3
      else if utf8_len4 a s then 4 else 0)"

function valid_utf8 :: "bytes \<Rightarrow> bool" where
  "valid_utf8 [] = True"
| "valid_utf8 (a # s) =
     (utf8_len a s \<noteq> 0 \<and> valid_utf8 (drop (utf8_len a s - 1) s))"
  by pat_completeness auto
termination
  by (relation "measure length") auto

definition from_utf8 :: "bytes \<Rightarrow> string option" where
  "from_utf8 b = (if valid_utf8 b then Some b else None)"

definition ascii :: "bytes \<Rightarrow> bool" where
  "ascii b = list_all (\<lambda>c. byte_val c < 128) b"

lemma valid_utf8_ascii: "ascii b \<Longrightarrow> valid_utf8 b"
  by (induction b) (auto simp: ascii_def utf8_len_def)

lemma from_utf8_ascii [std_simps]: "ascii b \<Longrightarrow> from_utf8 b = Some b"
  by (simp add: from_utf8_def valid_utf8_ascii)

lemma from_utf8_Some: "from_utf8 b = Some s \<Longrightarrow> s = b"
  by (simp add: from_utf8_def split: if_splits)

lemma ascii_append [simp]: "ascii (a @ b) \<longleftrightarrow> ascii a \<and> ascii b"
  by (simp add: ascii_def)

lemma ascii_Cons [simp]: "ascii (c # b) \<longleftrightarrow> byte_val c < 128 \<and> ascii b"
  by (simp add: ascii_def)

lemma ascii_Nil [simp]: "ascii []"
  by (simp add: ascii_def)

lemma ascii_to_dec [simp]: "ascii (to_dec n)"
proof -
  have "byte_val c < 128" if "c \<in> set (to_dec n)" for c
  proof -
    from that obtain d where "d < 10" "c = digit_char d" using set_to_dec by blast
    then show ?thesis by simp
  qed
  then show ?thesis by (simp add: ascii_def list_all_iff)
qed

text \<open>A byte outside ASCII at the start of a string that begins no longer character.\<close>

lemma valid_utf8_Cons_ascii: "byte_val c < 128 \<Longrightarrow> valid_utf8 (c # b) = valid_utf8 b"
  by (simp add: utf8_len_def)

subsection \<open>Big-endian integers\<close>

definition from_be_bytes2 :: "char \<Rightarrow> char \<Rightarrow> u16" where
  "from_be_bytes2 hi lo = word_of_nat (256 * byte_val hi + byte_val lo)"

definition to_be_bytes2 :: "u16 \<Rightarrow> bytes" where
  "to_be_bytes2 w = [char_of (unat w div 256), char_of (unat w mod 256)]"

lemma from_to_be_bytes2:
  "from_be_bytes2 (char_of (unat w div 256)) (char_of (unat w mod 256)) = w"
proof -
  have "unat w < 65536" using unsigned_less [of w, where 'a = nat] by simp
  then have "unat w div 256 < 256" by (simp add: less_mult_imp_div_less)
  then have "256 * (of_char (char_of (unat w div 256) :: char)) +
      of_char (char_of (unat w mod 256) :: char) = unat w"
    by simp
  then show ?thesis by (simp add: from_be_bytes2_def)
qed

subsection \<open>Paths\<close>

abbreviation slash :: char where
  "slash \<equiv> CHR ''/''"

definition path_push :: "string \<Rightarrow> string \<Rightarrow> string" where
  "path_push base p =
     (if starts_with p [slash] then p
      else if base \<noteq> [] \<and> last base \<noteq> slash then base @ slash # p
      else base @ p)"

fun split_on :: "char \<Rightarrow> string \<Rightarrow> string list" where
  "split_on d [] = [[]]"
| "split_on d (c # cs) =
     (if c = d then [] # split_on d cs
      else (case split_on d cs of [] \<Rightarrow> [[c]] | w # ws \<Rightarrow> (c # w) # ws))"

definition path_components :: "string \<Rightarrow> string list" where
  "path_components p = filter (\<lambda>c. c \<noteq> [] \<and> c \<noteq> ''.'') (split_on slash p)"

definition file_name :: "string \<Rightarrow> string option" where
  "file_name p =
     (let cs = path_components p in
      if cs = [] \<or> last cs = ''..'' then None else Some (last cs))"

definition extension_of_name :: "string \<Rightarrow> string option" where
  "extension_of_name f =
     (case split_once (CHR ''.'') (rev f) of
        None \<Rightarrow> None
      | Some (ext, stem) \<Rightarrow> if stem = [] then None else Some (rev ext))"

definition path_extension :: "string \<Rightarrow> string option" where
  "path_extension p =
     (case file_name p of None \<Rightarrow> None | Some f \<Rightarrow> extension_of_name f)"

lemma split_on_nonempty [simp]: "split_on d s \<noteq> []"
  by (induction s) (auto split: list.splits)

lemma split_on_absent: "d \<notin> set s \<Longrightarrow> split_on d s = [s]"
  by (induction s) auto

lemma split_on_last:
  "d \<notin> set s \<Longrightarrow> split_on d (p @ d # s) = split_on d p @ [s]"
  by (induction p) (auto simp: split_on_absent split: list.splits)

lemma last_component_push:
  assumes "slash \<notin> set f" "f \<noteq> []" "f \<noteq> ''.''"
  shows "path_components (path_push d f) \<noteq> [] \<and> last (path_components (path_push d f)) = f"
proof -
  have abs: "\<not> starts_with f [slash]"
    using assms by (cases f) auto
  consider "d = []" | d' where "d = d' @ [slash]" | "d \<noteq> []" "last d \<noteq> slash"
    by (metis append_butlast_last_id)
  then show ?thesis
  proof cases
    case 1
    then show ?thesis using assms abs by (simp add: path_push_def path_components_def split_on_absent)
  next
    case (2 d')
    then show ?thesis using assms abs
      by (simp add: path_push_def path_components_def split_on_last)
  next
    case 3
    then show ?thesis using assms abs
      by (simp add: path_push_def path_components_def split_on_last)
  qed
qed

lemma file_name_push [std_simps]:
  assumes "slash \<notin> set f" "f \<noteq> []" "f \<noteq> ''.''" "f \<noteq> ''..''"
  shows "file_name (path_push d f) = Some f"
  using last_component_push [OF assms(1-3)] assms(4) by (simp add: file_name_def Let_def)

end
