(* ===== verification/Port_Spec.thy ===== *)
theory Port_Spec
  imports Rust_Std
begin

section \<open>Port specifications (\<open>src/server/mod.rs\<close>)\<close>

text \<open>
  \<open>PortSpec\<close>, its parser \<open>FromStr\<close> and the test whether a port is allowed, for one
  specification and for a list of them.  The lemmas show that the parser accepts exactly
  the texts of the documented form, that what it accepts is well-formed, and that the tests
  decide membership in the set of ports a specification denotes.
\<close>

subsection \<open>Model\<close>

datatype PortSpec = Single u16 | Range u16 u16

definition PortSpec_from_str :: "string \<Rightarrow> string + PortSpec" where
  "PortSpec_from_str s0 =
     (let s = trim s0 in
      case split_once (CHR ''-'') s of
        Some (start_text, end_text) \<Rightarrow>
          bind_res (map_err (\<lambda>e. ''Invalid start port: '' @ parse_int_text e)
                      (parse_u16 (trim start_text))) (\<lambda>start.
          bind_res (map_err (\<lambda>e. ''Invalid end port: '' @ parse_int_text e)
                      (parse_u16 (trim end_text))) (\<lambda>end'.
          if start > end'
          then Inl (''Invalid range: '' @ to_dec (unat start) @ ''-'' @ to_dec (unat end'))
          else Inr (Range start end')))
      | None \<Rightarrow>
          bind_res (map_err (\<lambda>e. ''Invalid port: '' @ parse_int_text e) (parse_u16 s))
            (\<lambda>port. Inr (Single port)))"

fun PortSpec_allows :: "PortSpec \<Rightarrow> u16 \<Rightarrow> bool" where
  "PortSpec_allows (Single allowed) port = (port = allowed)"
| "PortSpec_allows (Range start end') port = (port \<ge> start \<and> port \<le> end')"

definition AllowedPorts_allows :: "PortSpec list \<Rightarrow> u16 \<Rightarrow> bool" where
  "AllowedPorts_allows specs port = list_ex (\<lambda>spec. PortSpec_allows spec port) specs"

subsection \<open>Specification\<close>

text \<open>What a specification means, how it is written, and which values the parser may return.\<close>

fun port_set :: "PortSpec \<Rightarrow> u16 set" where
  "port_set (Single p) = {p}"
| "port_set (Range a b) = {a..b}"

fun PortSpec_wf :: "PortSpec \<Rightarrow> bool" where
  "PortSpec_wf (Single p) = True"
| "PortSpec_wf (Range a b) = (a \<le> b)"

fun PortSpec_text :: "PortSpec \<Rightarrow> string" where
  "PortSpec_text (Single p) = to_dec (unat p)"
| "PortSpec_text (Range a b) = to_dec (unat a) @ ''-'' @ to_dec (unat b)"

subsection \<open>The parser\<close>

lemma PortSpec_text_ends_plain:
  "PortSpec_text spec \<noteq> [] \<and> plain_byte (hd (PortSpec_text spec)) \<and>
   plain_byte (last (PortSpec_text spec))"
  by (cases spec) (auto simp: to_dec_ends_plain)

lemma trim_PortSpec_text: "trim (PortSpec_text spec) = PortSpec_text spec"
  using PortSpec_text_ends_plain [of spec]
  by (simp add: trim_def trim_start_plain trim_end_plain)

lemma from_str_text: "PortSpec_wf spec \<Longrightarrow> PortSpec_from_str (PortSpec_text spec) = Inr spec"
proof (cases spec)
  case (Single p)
  then show ?thesis
    using trim_PortSpec_text [of spec]
    by (simp add: PortSpec_from_str_def split_once_None to_dec_no_special parse_u16_to_dec)
next
  case (Range a b)
  assume "PortSpec_wf spec"
  with Range trim_PortSpec_text [of spec] show ?thesis
    by (simp add: PortSpec_from_str_def split_once_first to_dec_no_special parse_u16_to_dec
        trim_to_dec)
qed

lemma from_str_wf: "PortSpec_from_str s = Inr spec \<Longrightarrow> PortSpec_wf spec"
  by (auto simp: PortSpec_from_str_def Let_def result_iffs not_less
      split: option.splits if_splits)

lemma from_str_Single_iff:
  "PortSpec_from_str s = Inr (Single p) \<longleftrightarrow>
     CHR ''-'' \<notin> set (trim s) \<and> parse_u16 (trim s) = Inr p"
  by (auto simp: PortSpec_from_str_def Let_def result_iffs split_once_None
      dest: split_once_NoneD split: option.splits if_splits)

lemma from_str_Range_iff:
  "PortSpec_from_str s = Inr (Range a b) \<longleftrightarrow>
     (\<exists>l r. trim s = l @ ''-'' @ r \<and> CHR ''-'' \<notin> set l \<and>
        parse_u16 (trim l) = Inr a \<and> parse_u16 (trim r) = Inr b \<and> a \<le> b)"
  (is "?lhs \<longleftrightarrow> ?rhs")
proof
  assume ?lhs
  then obtain l r where lr: "split_once (CHR ''-'') (trim s) = Some (l, r)"
    and ab: "parse_u16 (trim l) = Inr a" "parse_u16 (trim r) = Inr b" "a \<le> b"
    by (auto simp: PortSpec_from_str_def Let_def result_iffs not_less
        split: option.splits if_splits)
  from split_once_SomeD [OF lr] ab show ?rhs by auto
next
  assume ?rhs
  then show ?lhs
    by (auto simp: PortSpec_from_str_def Let_def split_once_first not_less)
qed

subsection \<open>The allow tests\<close>

lemma PortSpec_allows_iff: "PortSpec_allows spec port \<longleftrightarrow> port \<in> port_set spec"
  by (cases spec) auto

lemma AllowedPorts_allows_iff:
  "AllowedPorts_allows specs port \<longleftrightarrow> port \<in> (\<Union>spec \<in> set specs. port_set spec)"
  by (auto simp: AllowedPorts_allows_def list_ex_iff PortSpec_allows_iff)

lemma AllowedPorts_allows_append:
  "AllowedPorts_allows (xs @ ys) port \<longleftrightarrow>
     AllowedPorts_allows xs port \<or> AllowedPorts_allows ys port"
  by (simp add: AllowedPorts_allows_def)

subsection \<open>Properties\<close>

text \<open>
  The parser accepts exactly the documented texts: without a hyphen, a decimal port; with
  one, two decimal ports around the first hyphen, the first not above the second; white space
  is allowed around each.  Everything else is an error.
\<close>

lemma PortSpec_parses_exactly:
  "(PortSpec_from_str s = Inr (Single p) \<longleftrightarrow>
      CHR ''-'' \<notin> set (trim s) \<and> parse_u16 (trim s) = Inr p) \<and>
   (PortSpec_from_str s = Inr (Range a b) \<longleftrightarrow>
      (\<exists>l r. trim s = l @ ''-'' @ r \<and> CHR ''-'' \<notin> set l \<and>
         parse_u16 (trim l) = Inr a \<and> parse_u16 (trim r) = Inr b \<and> a \<le> b))"
  using from_str_Single_iff from_str_Range_iff by blast

text \<open>
  C34: a specification is the result of parsing some text if and only if its range is not
  inverted, and then parsing its own text gives it back, so no well-formed specification is
  lost and no ill-formed one gets in.
\<close>

theorem PortSpec_roundtrip:
  "(PortSpec_wf spec \<longleftrightarrow> PortSpec_from_str (PortSpec_text spec) = Inr spec) \<and>
   (PortSpec_wf spec \<longleftrightarrow> (\<exists>s. PortSpec_from_str s = Inr spec))"
  using from_str_text from_str_wf by blast

text \<open>
  A list of specifications allows exactly the ports in the union of the sets its members
  denote, both ends of a range included.
\<close>

lemma AllowedPorts_allows_union:
  "AllowedPorts_allows specs port \<longleftrightarrow> port \<in> (\<Union>spec \<in> set specs. port_set spec)"
  by (rule AllowedPorts_allows_iff)

end
