(* ===== verification/App_Data.thy ===== *)
theory App_Data
  imports Port_Spec
begin

section \<open>Application data (\<open>src/app_data.rs\<close>)\<close>

text \<open>
  The data the connection handlers get with their configuration, and its \<open>Display\<close> text, which
  leaves the pre-shared key out.  A connection and a socket address are values of the quinn and
  standard libraries: type parameters here, with their texts as arguments.
\<close>

record ServerAppData =
  s_connection_auth_psk :: string
  s_local_bind_ip :: string
  s_local_bind_ports :: "PortSpec list"

definition ServerAppData_new :: "string \<Rightarrow> string \<Rightarrow> PortSpec list \<Rightarrow> ServerAppData" where
  "ServerAppData_new connection_auth_psk local_bind_ip local_bind_ports =
     \<lparr>s_connection_auth_psk = connection_auth_psk, s_local_bind_ip = local_bind_ip,
      s_local_bind_ports = local_bind_ports\<rparr>"

definition ServerAppData_fmt :: "ServerAppData \<Rightarrow> string" where
  "ServerAppData_fmt d = ''ServerAppData { connection_auth_psk: [REDACTED] }''"

record ('conn, 'addr) ClientAppData =
  c_connection :: "'conn option"
  c_connection_auth_psk :: string
  c_forward_destination :: 'addr

definition ClientAppData_new :: "string \<Rightarrow> 'addr \<Rightarrow> ('conn, 'addr) ClientAppData" where
  "ClientAppData_new connection_auth_psk forward_destination =
     \<lparr>c_connection = None, c_connection_auth_psk = connection_auth_psk,
      c_forward_destination = forward_destination\<rparr>"

text \<open>\<open>debug_conn\<close> is the \<open>Debug\<close> text of the shared, locked connection slot.\<close>

definition ClientAppData_fmt ::
  "('conn option \<Rightarrow> string) \<Rightarrow> ('addr \<Rightarrow> string) \<Rightarrow> ('conn, 'addr) ClientAppData \<Rightarrow> string" where
  "ClientAppData_fmt debug_conn display_addr d =
     ''ClientAppData { connection: '' @ debug_conn (c_connection d) @
     '', connection_auth_psk: [REDACTED], destination: '' @
     display_addr (c_forward_destination d) @ '' }''"

subsection \<open>Properties\<close>

text \<open>
  The display texts say nothing about the key: two values that differ in the key only have
  the same text.
\<close>

lemma display_hides_psk:
  "ServerAppData_fmt (ServerAppData_new psk ip ports) =
     ServerAppData_fmt (ServerAppData_new psk' ip ports) \<and>
   ClientAppData_fmt debug_conn display_addr (ClientAppData_new psk dest) =
     ClientAppData_fmt debug_conn display_addr (ClientAppData_new psk' dest)"
  by (simp add: ServerAppData_fmt_def ClientAppData_fmt_def ClientAppData_new_def)

end
