(* ===== verification/Async_Model.thy ===== *)
theory Async_Model
  imports Rust_Std
begin

section \<open>Asynchronous code\<close>

text \<open>
  The program is written with \<open>async fn\<close>s that await operations of the tokio and quinn
  libraries.  A task is the clock, the deadline set by the enclosing \<open>timeout\<close> calls, and
  the state the code owns (usually a stream).  An asynchronous computation runs from a task
  to \<open>Fin\<close> (it returned), to \<open>Cut\<close> (an enclosing deadline passed while it waited, so it was
  dropped), or to \<open>None\<close>, which means that it never returns.

  An awaited library operation is a parameter of the model: a function that says after how
  long it is ready and with what result (\<open>Ready_in\<close>), or that it never is (\<open>Never\<close>).  After
  \<open>Cut\<close>, the state is the one before the operation that was interrupted; every caller in the
  program drops the stream then.  Instants and durations are in nanoseconds.
\<close>

subsection \<open>Tasks and computations\<close>

datatype 'a ready = Ready_in nat 'a | Never

record 's task =
  now :: nat
  deadline :: "nat option"
  strm :: 's

datatype ('s, 'a) outcome = Fin 'a "'s task" | Cut "'s task"

type_synonym ('s, 'a) async = "'s task \<Rightarrow> ('s, 'a) outcome option"

definition ret :: "'a \<Rightarrow> ('s, 'a) async" where
  "ret a t = Some (Fin a t)"

definition bind_async :: "('s, 'a) async \<Rightarrow> ('a \<Rightarrow> ('s, 'b) async) \<Rightarrow> ('s, 'b) async" where
  "bind_async m f t =
     Option.bind (m t) (\<lambda>r. case r of Fin a t' \<Rightarrow> f a t' | Cut t' \<Rightarrow> Some (Cut t'))"

text \<open>The \<open>?\<close> operator: go on with the value, or return the error.\<close>

definition try_async ::
  "('s, 'e + 'a) async \<Rightarrow> ('a \<Rightarrow> ('s, 'e + 'b) async) \<Rightarrow> ('s, 'e + 'b) async" where
  "try_async m f = bind_async m (\<lambda>r. case r of Inl e \<Rightarrow> ret (Inl e) | Inr a \<Rightarrow> f a)"

definition map_async :: "('a \<Rightarrow> 'b) \<Rightarrow> ('s, 'a) async \<Rightarrow> ('s, 'b) async" where
  "map_async g m = bind_async m (\<lambda>a. ret (g a))"

definition in_time :: "'s task \<Rightarrow> bool" where
  "in_time t = (case deadline t of None \<Rightarrow> True | Some D \<Rightarrow> now t \<le> D)"

text \<open>Waiting for an operation on the owned state.\<close>

definition await :: "('s \<Rightarrow> 'a ready \<times> 's) \<Rightarrow> ('s, 'a) async" where
  "await op t =
     (case op (strm t) of
        (Ready_in d a, s) \<Rightarrow>
          (case deadline t of
             Some D \<Rightarrow>
               if now t + d \<le> D then Some (Fin a (t\<lparr>now := now t + d, strm := s\<rparr>))
               else Some (Cut (t\<lparr>now := D\<rparr>))
           | None \<Rightarrow> Some (Fin a (t\<lparr>now := now t + d, strm := s\<rparr>)))
      | (Never, s) \<Rightarrow>
          (case deadline t of None \<Rightarrow> None | Some D \<Rightarrow> Some (Cut (t\<lparr>now := D\<rparr>))))"

text \<open>An I/O call used with \<open>?\<close>: its error becomes an \<open>anyhow\<close> error.\<close>

definition await_io :: "('s \<Rightarrow> (io_error + 'a) ready \<times> 's) \<Rightarrow> ('s, error + 'a) async" where
  "await_io op = map_async (map_err FromIo) (await op)"

text \<open>A change of the owned state that does not wait, and operations on one half of a pair.\<close>

definition modify :: "('s \<Rightarrow> 's) \<Rightarrow> ('s, unit) async" where
  "modify f t = Some (Fin () (t\<lparr>strm := f (strm t)\<rparr>))"

definition modify_at :: "(nat \<Rightarrow> 's \<Rightarrow> 's) \<Rightarrow> ('s, unit) async" where
  "modify_at f t = modify (f (now t)) t"

text \<open>A computation that looks at the clock.\<close>

definition at_now :: "(nat \<Rightarrow> ('s, 'a) async) \<Rightarrow> ('s, 'a) async" where
  "at_now f t = f (now t) t"

text \<open>
  Running a computation on a value the code owns besides its state, such as a stream it was
  given: the value afterwards is returned with the result.
\<close>

definition with_stream :: "'u \<Rightarrow> ('u, 'a) async \<Rightarrow> ('s, 'a \<times> 'u) async" where
  "with_stream u m t =
     Option.bind (m \<lparr>now = now t, deadline = deadline t, strm = u\<rparr>)
       (\<lambda>r. Some (case r of
          Fin a t' \<Rightarrow> Fin (a, strm t') (t\<lparr>now := now t', deadline := deadline t'\<rparr>)
        | Cut t' \<Rightarrow> Cut (t\<lparr>now := now t', deadline := deadline t'\<rparr>)))"

definition on_fst :: "('a \<Rightarrow> 'p \<times> 'a) \<Rightarrow> 'a \<times> 'b \<Rightarrow> 'p \<times> ('a \<times> 'b)" where
  "on_fst op s = (case op (fst s) of (p, a) \<Rightarrow> (p, (a, snd s)))"

subsection \<open>Timeouts and cancellation\<close>

text \<open>
  Run a computation until an instant \<open>D\<close>; \<open>None\<close> is the result when \<open>D\<close> passes first.  If
  an outer deadline lies before \<open>D\<close>, that one cuts this computation too.
\<close>

definition until :: "nat \<Rightarrow> ('s, 'a) async \<Rightarrow> ('s, 'a option) async" where
  "until D m t =
     Option.bind
       (m (t\<lparr>deadline := Some (case deadline t of None \<Rightarrow> D | Some E \<Rightarrow> min D E)\<rparr>))
       (\<lambda>r. Some (case r of
          Fin a t' \<Rightarrow> Fin (Some a) (t'\<lparr>deadline := deadline t\<rparr>)
        | Cut t' \<Rightarrow>
            (if (case deadline t of None \<Rightarrow> False | Some E \<Rightarrow> E < D) then Cut (t'\<lparr>deadline := deadline t\<rparr>)
             else Fin None (t'\<lparr>deadline := deadline t\<rparr>))))"

text \<open>\<open>tokio::time::timeout(d, m).await\<close>, with \<open>None\<close> for \<open>Err(Elapsed)\<close>.\<close>

definition timeout :: "nat \<Rightarrow> ('s, 'a) async \<Rightarrow> ('s, 'a option) async" where
  "timeout d m t = until (now t + d) m t"

text \<open>
  \<open>tokio::select!\<close> between \<open>token.cancelled()\<close> and \<open>m\<close>.  The token is cancelled at the
  instant \<open>c\<close>, if at all; when both branches are ready at once, tokio picks one at random,
  here by \<open>bias\<close> (\<open>True\<close>: the cancellation).  \<open>None\<close> means the cancellation branch ran.
\<close>

definition select_cancelled ::
  "bool \<Rightarrow> nat option \<Rightarrow> ('s, 'a) async \<Rightarrow> ('s, 'a option) async" where
  "select_cancelled bias c m t =
     (case c of
        None \<Rightarrow> map_async Some m t
      | Some C \<Rightarrow>
          (if bias \<and> C \<le> now t then Some (Fin None t)
           else bind_async (until (max C (now t)) m)
                  (\<lambda>x t'. Some (Fin (if bias \<and> C \<le> now t' then None else x) t')) t))"

subsection \<open>Loops\<close>

datatype ('st, 'r) ctl = Continue 'st | Break 'r

partial_function (option) loop_async ::
  "('st \<Rightarrow> ('s, ('st, 'r) ctl) async) \<Rightarrow> 'st \<Rightarrow> 's task \<Rightarrow> ('s, 'r) outcome option"
where
  "loop_async body st t =
     Option.bind (body st t)
       (\<lambda>r. case r of
          Fin c t' \<Rightarrow>
            (case c of Continue st' \<Rightarrow> loop_async body st' t' | Break a \<Rightarrow> Some (Fin a t'))
        | Cut t' \<Rightarrow> Some (Cut t'))"

subsection \<open>Equations\<close>

lemma bind_ret [simp]: "bind_async (ret a) f = f a"
  by (rule ext) (simp add: bind_async_def ret_def)

lemma bind_async_Fin: "m t = Some (Fin a t') \<Longrightarrow> bind_async m f t = f a t'"
  by (simp add: bind_async_def)

lemma bind_async_Cut: "m t = Some (Cut t') \<Longrightarrow> bind_async m f t = Some (Cut t')"
  by (simp add: bind_async_def)

lemma try_ret_Inr [simp]: "try_async (ret (Inr a)) f = f a"
  by (simp add: try_async_def)

lemma try_ret_Inl [simp]: "try_async (ret (Inl e)) f = ret (Inl e)"
  by (simp add: try_async_def)

lemma try_async_Inr: "m t = Some (Fin (Inr a) t') \<Longrightarrow> try_async m f t = f a t'"
  by (simp add: try_async_def bind_async_Fin)

lemma try_async_Inl: "m t = Some (Fin (Inl e) t') \<Longrightarrow> try_async m f t = Some (Fin (Inl e) t')"
  by (simp add: try_async_def bind_async_Fin ret_def)

lemma bind_async_apply:
  "bind_async m f t =
     (case m t of
        None \<Rightarrow> None
      | Some (Fin a t') \<Rightarrow> f a t'
      | Some (Cut t') \<Rightarrow> Some (Cut t'))"
  by (auto simp: bind_async_def split: option.splits outcome.splits)

lemma try_async_apply:
  "try_async m f t =
     (case m t of
        None \<Rightarrow> None
      | Some (Fin r t') \<Rightarrow> (case r of Inl e \<Rightarrow> Some (Fin (Inl e) t') | Inr a \<Rightarrow> f a t')
      | Some (Cut t') \<Rightarrow> Some (Cut t'))"
  by (auto simp: try_async_def bind_async_def ret_def split: option.splits outcome.splits sum.splits)

lemma map_async_Fin: "m t = Some (Fin a t') \<Longrightarrow> map_async g m t = Some (Fin (g a) t')"
  by (simp add: map_async_def bind_async_Fin ret_def)

lemma await_free:
  "op (strm t) = (Ready_in d a, s) \<Longrightarrow> deadline t = None \<Longrightarrow>
     await op t = Some (Fin a (t\<lparr>now := now t + d, strm := s\<rparr>))"
  by (simp add: await_def)

lemma await_io_free:
  "op (strm t) = (Ready_in d a, s) \<Longrightarrow> deadline t = None \<Longrightarrow>
     await_io op t = Some (Fin (map_err FromIo a) (t\<lparr>now := now t + d, strm := s\<rparr>))"
  by (simp add: await_io_def map_async_Fin await_free)

lemma await_io_ok: "await op t = Some (Fin (Inr a) t') \<Longrightarrow> await_io op t = Some (Fin (Inr a) t')"
  by (simp add: await_io_def map_async_Fin)

lemma await_io_err:
  "await op t = Some (Fin (Inl e) t') \<Longrightarrow> await_io op t = Some (Fin (Inl (FromIo e)) t')"
  by (simp add: await_io_def map_async_Fin)

lemma timeout_free_Fin:
  assumes "deadline t = None" "m (t\<lparr>deadline := Some (now t + d)\<rparr>) = Some (Fin a t')"
  shows "timeout d m t = Some (Fin (Some a) (t'\<lparr>deadline := None\<rparr>))"
  using assms by (simp add: timeout_def until_def)

lemma timeout_free_Cut:
  assumes "deadline t = None" "m (t\<lparr>deadline := Some (now t + d)\<rparr>) = Some (Cut t')"
  shows "timeout d m t = Some (Fin None (t'\<lparr>deadline := None\<rparr>))"
  using assms by (simp add: timeout_def until_def)

lemma select_never_cancelled: "select_cancelled b None m = map_async Some m"
  by (rule ext) (simp add: select_cancelled_def)

subsection \<open>Inversion\<close>

lemma bind_async_SomeE:
  assumes "bind_async m f t = Some r"
  obtains (fin) a t' where "m t = Some (Fin a t')" "f a t' = Some r"
  | (cut) t' where "m t = Some (Cut t')" "r = Cut t'"
  using assms by (auto simp: bind_async_def split: Option.bind_splits outcome.splits)

lemma bind_async_FinE:
  assumes "bind_async m f t = Some (Fin b t'')"
  obtains a t' where "m t = Some (Fin a t')" "f a t' = Some (Fin b t'')"
  using assms by (auto elim: bind_async_SomeE)

lemma try_async_FinE:
  assumes "try_async m f t = Some (Fin r t'')"
  obtains (err) e where "m t = Some (Fin (Inl e) t'')" "r = Inl e"
  | (ok) a t' where "m t = Some (Fin (Inr a) t')" "f a t' = Some (Fin r t'')"
proof -
  from assms obtain x t' where x: "m t = Some (Fin x t')"
    and "(case x of Inl e \<Rightarrow> ret (Inl e) | Inr a \<Rightarrow> f a) t' = Some (Fin r t'')"
    unfolding try_async_def by (rule bind_async_FinE)
  then show thesis using err ok by (cases x) (auto simp: ret_def)
qed

lemma try_async_InrE:
  assumes "try_async m f t = Some (Fin (Inr b) t'')"
  obtains a t' where "m t = Some (Fin (Inr a) t')" "f a t' = Some (Fin (Inr b) t'')"
  using assms by (auto elim: try_async_FinE)

lemma map_async_FinE:
  assumes "map_async g m t = Some (Fin b t')"
  obtains a where "m t = Some (Fin a t')" "b = g a"
  using assms unfolding map_async_def by (auto elim: bind_async_FinE simp: ret_def)

lemma await_FinE:
  assumes "await op t = Some (Fin a t')"
  obtains d s where "op (strm t) = (Ready_in d a, s)" "t' = t\<lparr>now := now t + d, strm := s\<rparr>"
  using assms
  by (auto simp: await_def split: prod.splits ready.splits option.splits if_splits)

lemma await_io_FinE:
  assumes "await_io op t = Some (Fin r t')"
  obtains d x s where "op (strm t) = (Ready_in d x, s)" "r = map_err FromIo x"
    "t' = t\<lparr>now := now t + d, strm := s\<rparr>"
proof -
  from assms obtain x where "await op t = Some (Fin x t')" "r = map_err FromIo x"
    unfolding await_io_def by (rule map_async_FinE)
  then show thesis using that by (blast elim: await_FinE)
qed

lemma await_io_InrE:
  assumes "await_io op t = Some (Fin (Inr a) t')"
  obtains d s where "op (strm t) = (Ready_in d (Inr a), s)"
    "t' = t\<lparr>now := now t + d, strm := s\<rparr>"
proof -
  from assms obtain d x s where "op (strm t) = (Ready_in d x, s)" "Inr a = map_err FromIo x"
    "t' = t\<lparr>now := now t + d, strm := s\<rparr>"
    by (rule await_io_FinE)
  then show thesis using that by (cases x) auto
qed

lemma with_stream_FinE:
  assumes "with_stream u m t = Some (Fin x t')"
  obtains a t1 where "m \<lparr>now = now t, deadline = deadline t, strm = u\<rparr> = Some (Fin a t1)"
    "x = (a, strm t1)" "t' = t\<lparr>now := now t1, deadline := deadline t1\<rparr>"
  using assms by (auto simp: with_stream_def split: Option.bind_splits outcome.splits)

lemma timeout_FinE:
  assumes "timeout d m t = Some (Fin x t')" "deadline t = None"
  obtains (elapsed) t1 where "m (t\<lparr>deadline := Some (now t + d)\<rparr>) = Some (Cut t1)" "x = None"
      "t' = t1\<lparr>deadline := None\<rparr>"
  | (returned) a t1 where "m (t\<lparr>deadline := Some (now t + d)\<rparr>) = Some (Fin a t1)" "x = Some a"
      "t' = t1\<lparr>deadline := None\<rparr>"
  using assms by (auto simp: timeout_def until_def split: Option.bind_splits outcome.splits)

lemma await_io_Inl: "await_io op t = Some (Fin (Inl e) t') \<Longrightarrow> \<exists>x. e = FromIo x"
  by (erule await_io_FinE) (auto simp: map_err_def split: sum.splits)

subsection \<open>Reasoning about loops\<close>

text \<open>Partial correctness: an invariant of the iterations.\<close>

lemma loop_async_rule:
  assumes run: "loop_async body st t = Some r"
    and inv: "I st t"
    and cont: "\<And>st t st' t'. I st t \<Longrightarrow> body st t = Some (Fin (Continue st') t') \<Longrightarrow> I st' t'"
    and brk: "\<And>st t a t'. I st t \<Longrightarrow> body st t = Some (Fin (Break a) t') \<Longrightarrow> Q (Fin a t')"
    and cut: "\<And>st t t'. I st t \<Longrightarrow> body st t = Some (Cut t') \<Longrightarrow> Q (Cut t')"
  shows "Q r"
proof -
  have "I st t \<longrightarrow> Q r"
  proof (rule loop_async.raw_induct
      [where P = "\<lambda>b st t r. b = body \<longrightarrow> I st t \<longrightarrow> Q r", THEN mp, OF _ run refl])
    fix f b st t r
    assume IH: "\<And>b st t r. f b st t = Some r \<Longrightarrow> b = body \<longrightarrow> I st t \<longrightarrow> Q r"
      and eq: "Option.bind (b st t)
        (\<lambda>r. case r of
          Fin c t' \<Rightarrow> (case c of Continue st' \<Rightarrow> f b st' t' | Break a \<Rightarrow> Some (Fin a t'))
        | Cut t' \<Rightarrow> Some (Cut t')) = Some r"
    show "b = body \<longrightarrow> I st t \<longrightarrow> Q r"
    proof (intro impI)
      assume b: "b = body" and i: "I st t"
      from eq obtain x where x: "body st t = Some x"
        and cases': "(case x of
          Fin c t' \<Rightarrow> (case c of Continue st' \<Rightarrow> f b st' t' | Break a \<Rightarrow> Some (Fin a t'))
        | Cut t' \<Rightarrow> Some (Cut t')) = Some r"
        by (auto simp: b split: Option.bind_splits)
      show "Q r"
      proof (cases x)
        case (Fin c t')
        with cases' x i b IH cont brk show ?thesis by (cases c) auto
      next
        case (Cut t')
        with cases' x i cut show ?thesis by auto
      qed
    qed
  qed
  with inv show ?thesis by simp
qed

text \<open>Termination: a measure that every further iteration decreases.\<close>

lemma loop_async_returns:
  assumes step: "\<And>st t. I st t \<Longrightarrow> \<exists>r. body st t = Some r \<and>
      (\<forall>st' t'. r = Fin (Continue st') t' \<longrightarrow> I st' t' \<and> f st' t' < (f st t :: nat))"
    and inv: "I st t"
  shows "\<exists>r. loop_async body st t = Some r"
  using inv
proof (induction "f st t" arbitrary: st t rule: less_induct)
  case less
  from step [OF less.prems] obtain r where r: "body st t = Some r"
    and dec: "\<forall>st' t'. r = Fin (Continue st') t' \<longrightarrow> I st' t' \<and> f st' t' < f st t"
    by blast
  show ?case
  proof (cases r)
    case (Fin c t')
    show ?thesis
    proof (cases c)
      case (Continue st')
      with dec Fin have "I st' t'" "f st' t' < f st t" by auto
      then have "\<exists>r. loop_async body st' t' = Some r" using less.hyps by blast
      then show ?thesis using r Fin Continue by (subst loop_async.simps) simp
    next
      case (Break a)
      then show ?thesis using r Fin by (subst loop_async.simps) simp
    qed
  next
    case (Cut t')
    then show ?thesis using r by (subst loop_async.simps) simp
  qed
qed

lemma loop_async_Continue:
  "body st t = Some (Fin (Continue st') t') \<Longrightarrow> loop_async body st t = loop_async body st' t'"
  by (subst loop_async.simps) simp

lemma loop_async_Break:
  "body st t = Some (Fin (Break a) t') \<Longrightarrow> loop_async body st t = Some (Fin a t')"
  by (subst loop_async.simps) simp

lemma loop_async_Cut:
  "body st t = Some (Cut t') \<Longrightarrow> loop_async body st t = Some (Cut t')"
  by (subst loop_async.simps) simp

subsection \<open>Time\<close>

text \<open>
  \<open>timely m\<close>: the clock never runs backwards, \<open>m\<close> leaves the deadline as it was, returns
  no later than the deadline, and is cut exactly at the deadline.
\<close>

definition timely :: "('s, 'a) async \<Rightarrow> bool" where
  "timely m \<longleftrightarrow>
     (\<forall>t r. in_time t \<and> m t = Some r \<longrightarrow>
        (case r of
           Fin a t' \<Rightarrow> now t \<le> now t' \<and> deadline t' = deadline t \<and> in_time t'
         | Cut t' \<Rightarrow> now t \<le> now t' \<and> deadline t' = deadline t \<and> deadline t = Some (now t')))"

text \<open>\<open>prompt m\<close>: under a deadline, \<open>m\<close> returns or is cut, so it never blocks forever.\<close>

definition prompt :: "('s, 'a) async \<Rightarrow> bool" where
  "prompt m \<longleftrightarrow> (\<forall>t. in_time t \<and> deadline t \<noteq> None \<longrightarrow> (\<exists>r. m t = Some r))"

lemma timelyI:
  assumes "\<And>t a t'. in_time t \<Longrightarrow> m t = Some (Fin a t') \<Longrightarrow>
      now t \<le> now t' \<and> deadline t' = deadline t \<and> in_time t'"
    and "\<And>t t'. in_time t \<Longrightarrow> m t = Some (Cut t') \<Longrightarrow>
      now t \<le> now t' \<and> deadline t' = deadline t \<and> deadline t = Some (now t')"
  shows "timely m"
  unfolding timely_def
proof (intro allI impI, elim conjE)
  fix t r
  assume t: "in_time t" "m t = Some r"
  show "case r of
      Fin a t' \<Rightarrow> now t \<le> now t' \<and> deadline t' = deadline t \<and> in_time t'
    | Cut t' \<Rightarrow> now t \<le> now t' \<and> deadline t' = deadline t \<and> deadline t = Some (now t')"
  proof (cases r)
    case (Fin a t')
    with assms(1) [of t a t'] t show ?thesis by simp
  next
    case (Cut t')
    with assms(2) [of t t'] t show ?thesis by simp
  qed
qed

lemma timely_FinD:
  "timely m \<Longrightarrow> in_time t \<Longrightarrow> m t = Some (Fin a t') \<Longrightarrow>
     now t \<le> now t' \<and> deadline t' = deadline t \<and> in_time t'"
  unfolding timely_def by (drule spec [of _ t], drule spec [of _ "Fin a t'"]) simp

lemma timely_CutD:
  "timely m \<Longrightarrow> in_time t \<Longrightarrow> m t = Some (Cut t') \<Longrightarrow>
     now t \<le> now t' \<and> deadline t' = deadline t \<and> deadline t = Some (now t')"
  unfolding timely_def by (drule spec [of _ t], drule spec [of _ "Cut t'"]) simp

lemma timely_ret [timely_intros]: "timely (ret a)"
  by (rule timelyI) (auto simp: ret_def)

lemma timely_modify [timely_intros]: "timely (modify f)"
  by (rule timelyI) (auto simp: modify_def in_time_def split: option.splits)

lemma timely_modify_at [timely_intros]: "timely (modify_at f)"
  by (rule timelyI) (auto simp: modify_at_def modify_def in_time_def split: option.splits)

lemma timely_at_now [timely_intros]: "(\<And>n. timely (f n)) \<Longrightarrow> timely (at_now f)"
  by (rule timelyI) (auto simp: at_now_def dest: timely_FinD timely_CutD)

lemma timely_with_stream [timely_intros]:
  assumes "timely m"
  shows "timely (with_stream u m)"
proof (rule timelyI)
  fix t a t'
  assume t: "in_time t" and run: "with_stream u m t = Some (Fin a t')"
  let ?t = "\<lparr>now = now t, deadline = deadline t, strm = u\<rparr>"
  have "in_time ?t" using t by (simp add: in_time_def split: option.splits)
  moreover from run obtain b t1 where "m ?t = Some (Fin b t1)"
    "t' = t\<lparr>now := now t1, deadline := deadline t1\<rparr>"
    by (auto simp: with_stream_def split: Option.bind_splits outcome.splits)
  ultimately show "now t \<le> now t' \<and> deadline t' = deadline t \<and> in_time t'"
    using timely_FinD [OF assms, of ?t b t1] by (auto simp: in_time_def split: option.splits)
next
  fix t t'
  assume t: "in_time t" and run: "with_stream u m t = Some (Cut t')"
  let ?t = "\<lparr>now = now t, deadline = deadline t, strm = u\<rparr>"
  have "in_time ?t" using t by (simp add: in_time_def split: option.splits)
  moreover from run obtain t1 where "m ?t = Some (Cut t1)"
    "t' = t\<lparr>now := now t1, deadline := deadline t1\<rparr>"
    by (auto simp: with_stream_def split: Option.bind_splits outcome.splits)
  ultimately show "now t \<le> now t' \<and> deadline t' = deadline t \<and> deadline t = Some (now t')"
    using timely_CutD [OF assms, of ?t t1] by auto
qed

lemma timely_bind [timely_intros]:
  assumes m: "timely m" and f: "\<And>a. timely (f a)"
  shows "timely (bind_async m f)"
proof (rule timelyI)
  fix t b t''
  assume t: "in_time t" and run: "bind_async m f t = Some (Fin b t'')"
  from run obtain a t' where a: "m t = Some (Fin a t')" and b: "f a t' = Some (Fin b t'')"
    by (rule bind_async_FinE)
  from timely_FinD [OF m t a] timely_FinD [OF f _ b]
  show "now t \<le> now t'' \<and> deadline t'' = deadline t \<and> in_time t''" by auto
next
  fix t t''
  assume t: "in_time t" and run: "bind_async m f t = Some (Cut t'')"
  from run show "now t \<le> now t'' \<and> deadline t'' = deadline t \<and> deadline t = Some (now t'')"
  proof (cases rule: bind_async_SomeE)
    case (fin a t')
    from timely_FinD [OF m t fin(1)] timely_CutD [OF f _ fin(2)] show ?thesis by auto
  next
    case (cut t')
    with timely_CutD [OF m t cut(1)] show ?thesis by simp
  qed
qed

lemma timely_try [timely_intros]:
  "timely m \<Longrightarrow> (\<And>a. timely (f a)) \<Longrightarrow> timely (try_async m f)"
  unfolding try_async_def by (rule timely_bind) (auto intro: timely_ret split: sum.split)

lemma timely_map [timely_intros]: "timely m \<Longrightarrow> timely (map_async g m)"
  unfolding map_async_def by (rule timely_bind) (auto intro: timely_ret)

lemma timely_await [timely_intros]: "timely (await op)"
  by (rule timelyI)
    (auto simp: await_def in_time_def split: prod.splits ready.splits option.splits if_splits)

lemma timely_await_io [timely_intros]: "timely (await_io op)"
  unfolding await_io_def by (rule timely_map) (rule timely_await)

lemma timely_if [timely_intros]:
  "(P \<Longrightarrow> timely m) \<Longrightarrow> (\<not> P \<Longrightarrow> timely n) \<Longrightarrow> timely (if P then m else n)"
  by simp

lemma timely_case_option [timely_intros]:
  "(x = None \<Longrightarrow> timely m) \<Longrightarrow> (\<And>a. x = Some a \<Longrightarrow> timely (f a)) \<Longrightarrow>
     timely (case x of None \<Rightarrow> m | Some a \<Rightarrow> f a)"
  by (cases x) auto

lemma timely_case_sum [timely_intros]:
  "(\<And>a. x = Inl a \<Longrightarrow> timely (f a)) \<Longrightarrow> (\<And>b. x = Inr b \<Longrightarrow> timely (g b)) \<Longrightarrow>
     timely (case x of Inl a \<Rightarrow> f a | Inr b \<Rightarrow> g b)"
  by (cases x) auto

lemma timely_case_prod [timely_intros]:
  "(\<And>a b. x = (a, b) \<Longrightarrow> timely (f a b)) \<Longrightarrow> timely (case x of (a, b) \<Rightarrow> f a b)"
  by (cases x) auto

lemma timely_case_list [timely_intros]:
  "(x = [] \<Longrightarrow> timely m) \<Longrightarrow> (\<And>a as. x = a # as \<Longrightarrow> timely (f a as)) \<Longrightarrow>
     timely (case x of [] \<Rightarrow> m | a # as \<Rightarrow> f a as)"
  by (cases x) auto

lemma timely_until_raw:
  assumes m: "timely m" and t: "in_time t" and D: "now t \<le> D" and run: "until D m t = Some r"
  shows "case r of
      Fin a t' \<Rightarrow> now t \<le> now t' \<and> deadline t' = deadline t \<and> in_time t' \<and> now t' \<le> D
    | Cut t' \<Rightarrow> now t \<le> now t' \<and> deadline t' = deadline t \<and> deadline t = Some (now t')"
proof -
  let ?t = "t\<lparr>deadline := Some (case deadline t of None \<Rightarrow> D | Some E \<Rightarrow> min D E)\<rparr>"
  have in': "in_time ?t" using t D by (simp add: in_time_def split: option.splits)
  from run obtain x where x: "m ?t = Some x"
    and r: "r = (case x of
          Fin a t' \<Rightarrow> Fin (Some a) (t'\<lparr>deadline := deadline t\<rparr>)
        | Cut t' \<Rightarrow>
            (if (case deadline t of None \<Rightarrow> False | Some E \<Rightarrow> E < D)
             then Cut (t'\<lparr>deadline := deadline t\<rparr>)
             else Fin None (t'\<lparr>deadline := deadline t\<rparr>)))"
    by (auto simp: until_def split: Option.bind_splits)
  show ?thesis
  proof (cases x)
    case (Fin a t')
    from timely_FinD [OF m in' x [unfolded Fin]] show ?thesis
      unfolding r Fin by (auto simp: in_time_def split: option.splits)
  next
    case (Cut t')
    from timely_CutD [OF m in' x [unfolded Cut]] show ?thesis
      unfolding r Cut by (auto simp: in_time_def split: option.splits)
  qed
qed

lemma timely_timeout [timely_intros]: "timely m \<Longrightarrow> timely (timeout d m)"
proof (rule timelyI)
  fix t a t'
  assume "timely m" "in_time t" "timeout d m t = Some (Fin a t')"
  from timely_until_raw [OF this(1,2) _ this(3) [unfolded timeout_def]]
  show "now t \<le> now t' \<and> deadline t' = deadline t \<and> in_time t'" by simp
next
  fix t t'
  assume "timely m" "in_time t" "timeout d m t = Some (Cut t')"
  from timely_until_raw [OF this(1,2) _ this(3) [unfolded timeout_def]]
  show "now t \<le> now t' \<and> deadline t' = deadline t \<and> deadline t = Some (now t')" by simp
qed

text \<open>A timeout returns within its duration.\<close>

lemma timeout_bound:
  assumes "timely m" "in_time t" "timeout d m t = Some (Fin a t')"
  shows "now t' \<le> now t + d"
  using timely_until_raw [OF assms(1,2) _ assms(3) [unfolded timeout_def]] by simp

lemma until_None_time:
  assumes m: "timely m" and t: "in_time t" "now t \<le> D"
    and run: "until D m t = Some (Fin None t')"
  shows "now t' = D"
proof -
  let ?t = "t\<lparr>deadline := Some (case deadline t of None \<Rightarrow> D | Some E \<Rightarrow> min D E)\<rparr>"
  have in': "in_time ?t" using t by (simp add: in_time_def split: option.splits)
  from run obtain t1 where x: "m ?t = Some (Cut t1)"
    and t': "t' = t1\<lparr>deadline := deadline t\<rparr>"
    and outer: "\<not> (case deadline t of None \<Rightarrow> False | Some E \<Rightarrow> E < D)"
    by (auto simp: until_def split: Option.bind_splits outcome.splits if_splits)
  from timely_CutD [OF m in' x] outer show ?thesis
    unfolding t' by (auto split: option.splits)
qed

lemma timely_select [timely_intros]:
  assumes m: "timely m"
  shows "timely (select_cancelled b c m)"
proof (cases c)
  case None
  then show ?thesis using m by (simp add: select_never_cancelled timely_map)
next
  case (Some C)
  have raw: "case r of
      Fin a t' \<Rightarrow> now t \<le> now t' \<and> deadline t' = deadline t \<and> in_time t'
    | Cut t' \<Rightarrow> now t \<le> now t' \<and> deadline t' = deadline t \<and> deadline t = Some (now t')"
    if t: "in_time t" and run: "select_cancelled b c m t = Some r" for t r
  proof (cases "b \<and> C \<le> now t")
    case True
    with run Some t show ?thesis by (auto simp: select_cancelled_def)
  next
    case False
    have le: "now t \<le> max C (now t)" by simp
    from run Some False obtain x where x: "until (max C (now t)) m t = Some x"
      and r: "r = (case x of Fin y t' \<Rightarrow> Fin (if b \<and> C \<le> now t' then None else y) t'
                | Cut t' \<Rightarrow> Cut t')"
      by (auto simp: select_cancelled_def bind_async_def split: Option.bind_splits outcome.splits
          if_splits)
    from timely_until_raw [OF m t le x] show ?thesis
      unfolding r by (auto split: outcome.splits)
  qed
  show ?thesis by (rule timelyI) (use raw in fastforce)+
qed

text \<open>The cancellation branch runs only when the token is cancelled.\<close>

lemma select_None_cancelled:
  assumes m: "timely m" and t: "in_time t"
    and run: "select_cancelled b c m t = Some (Fin None t')"
  shows "\<exists>C. c = Some C \<and> C \<le> now t'"
proof (cases c)
  case None
  with run show ?thesis by (auto simp: select_never_cancelled elim: map_async_FinE)
next
  case (Some C)
  have le: "now t \<le> max C (now t)" by simp
  show ?thesis
  proof (cases "b \<and> C \<le> now t")
    case True
    with run Some show ?thesis by (simp add: select_cancelled_def)
  next
    case False
    with run Some obtain x where x: "until (max C (now t)) m t = Some (Fin x t')"
      and n: "(if b \<and> C \<le> now t' then None else x) = None"
      by (auto simp: select_cancelled_def elim!: bind_async_FinE)
    show ?thesis
    proof (cases "b \<and> C \<le> now t'")
      case True
      with Some show ?thesis by simp
    next
      case False
      with n x have "until (max C (now t)) m t = Some (Fin None t')" by simp
      from until_None_time [OF m t le this] Some show ?thesis by simp
    qed
  qed
qed

lemma timely_loop [timely_intros]:
  assumes body: "\<And>st. timely (body st)"
  shows "timely (loop_async body st)"
proof -
  have "case r of
      Fin a t' \<Rightarrow> now t \<le> now t' \<and> deadline t' = deadline t \<and> in_time t'
    | Cut t' \<Rightarrow> now t \<le> now t' \<and> deadline t' = deadline t \<and> deadline t = Some (now t')"
    if t: "in_time t" and run: "loop_async body st t = Some r" for t r
    using run
  proof (rule loop_async_rule
      [where I = "\<lambda>st t1. now t \<le> now t1 \<and> deadline t1 = deadline t \<and> in_time t1"])
    show "now t \<le> now t \<and> deadline t = deadline t \<and> in_time t" using t by simp
  next
    fix st1 t1 st2 t2
    assume "now t \<le> now t1 \<and> deadline t1 = deadline t \<and> in_time t1"
      "body st1 t1 = Some (Fin (Continue st2) t2)"
    with timely_FinD [OF body, of t1 st1 "Continue st2" t2]
    show "now t \<le> now t2 \<and> deadline t2 = deadline t \<and> in_time t2" by auto
  next
    fix st1 t1 a t2
    assume "now t \<le> now t1 \<and> deadline t1 = deadline t \<and> in_time t1"
      "body st1 t1 = Some (Fin (Break a) t2)"
    with timely_FinD [OF body, of t1 st1 "Break a" t2]
    show "case Fin a t2 of
      Fin a t' \<Rightarrow> now t \<le> now t' \<and> deadline t' = deadline t \<and> in_time t'
    | Cut t' \<Rightarrow> now t \<le> now t' \<and> deadline t' = deadline t \<and> deadline t = Some (now t')"
      by auto
  next
    fix st1 t1 t2
    assume "now t \<le> now t1 \<and> deadline t1 = deadline t \<and> in_time t1"
      "body st1 t1 = Some (Cut t2)"
    with timely_CutD [OF body, of t1 st1 t2]
    show "case Cut t2 of
      Fin a t' \<Rightarrow> now t \<le> now t' \<and> deadline t' = deadline t \<and> in_time t'
    | Cut t' \<Rightarrow> now t \<le> now t' \<and> deadline t' = deadline t \<and> deadline t = Some (now t')"
      by auto
  qed
  then show ?thesis by (intro timelyI) fastforce+
qed

lemma prompt_ret [returns_intros]: "prompt (ret a)"
  by (simp add: prompt_def ret_def)

lemma prompt_modify [returns_intros]: "prompt (modify f)"
  by (simp add: prompt_def modify_def)

lemma prompt_modify_at [returns_intros]: "prompt (modify_at f)"
  by (simp add: prompt_def modify_at_def modify_def)

lemma prompt_at_now [returns_intros]: "(\<And>n. prompt (f n)) \<Longrightarrow> prompt (at_now f)"
  by (simp add: prompt_def at_now_def)

lemma prompt_with_stream [returns_intros]:
  fixes m :: "('u, 'a) async"
  assumes "prompt m"
  shows "prompt (with_stream u m :: ('c, 'a \<times> 'u) async)"
  unfolding prompt_def
proof (intro allI impI)
  fix t :: "'c task"
  assume t: "in_time t \<and> deadline t \<noteq> None"
  let ?t = "\<lparr>now = now t, deadline = deadline t, strm = u\<rparr>"
  have "in_time ?t \<and> deadline ?t \<noteq> None" using t by (auto simp: in_time_def split: option.splits)
  then obtain r where "m ?t = Some r" using assms by (auto simp: prompt_def)
  then show "\<exists>r. with_stream u m t = Some r" by (simp add: with_stream_def)
qed

lemma prompt_case_sum [returns_intros]:
  "(\<And>a. x = Inl a \<Longrightarrow> prompt (f a)) \<Longrightarrow> (\<And>b. x = Inr b \<Longrightarrow> prompt (g b)) \<Longrightarrow>
     prompt (case x of Inl a \<Rightarrow> f a | Inr b \<Rightarrow> g b)"
  by (cases x) auto

lemma prompt_case_prod [returns_intros]:
  "(\<And>a b. x = (a, b) \<Longrightarrow> prompt (f a b)) \<Longrightarrow> prompt (case x of (a, b) \<Rightarrow> f a b)"
  by (cases x) auto

lemma prompt_await [returns_intros]: "prompt (await op)"
  by (auto simp: prompt_def await_def split: prod.splits ready.splits option.splits)

lemma prompt_bind [returns_intros]:
  assumes "timely m" "prompt m" "\<And>a. prompt (f a)"
  shows "prompt (bind_async m f)"
  unfolding prompt_def
proof (intro allI impI)
  fix t :: "'a task"
  assume t: "in_time t \<and> deadline t \<noteq> None"
  then obtain r where r: "m t = Some r" using assms(2) by (auto simp: prompt_def)
  show "\<exists>r. bind_async m f t = Some r"
  proof (cases r)
    case (Fin a t')
    from timely_FinD [OF assms(1) _ r [unfolded Fin]] t
    have "in_time t' \<and> deadline t' \<noteq> None" by simp
    then show ?thesis using assms(3) r Fin by (auto simp: prompt_def bind_async_Fin)
  next
    case (Cut t')
    then show ?thesis using r by (simp add: bind_async_Cut)
  qed
qed

lemma prompt_try [returns_intros]:
  "timely m \<Longrightarrow> prompt m \<Longrightarrow> (\<And>a. prompt (f a)) \<Longrightarrow> prompt (try_async m f)"
  unfolding try_async_def by (rule prompt_bind) (auto intro: prompt_ret split: sum.split)

lemma prompt_map [returns_intros]:
  "timely m \<Longrightarrow> prompt m \<Longrightarrow> prompt (map_async g m)"
  unfolding map_async_def by (rule prompt_bind) (auto intro: prompt_ret)

lemma prompt_await_io [returns_intros]: "prompt (await_io op)"
  unfolding await_io_def by (intro prompt_map timely_await prompt_await)

lemma prompt_if [returns_intros]:
  "(P \<Longrightarrow> prompt m) \<Longrightarrow> (\<not> P \<Longrightarrow> prompt n) \<Longrightarrow> prompt (if P then m else n)"
  by simp

lemma prompt_case_option [returns_intros]:
  "(x = None \<Longrightarrow> prompt m) \<Longrightarrow> (\<And>a. x = Some a \<Longrightarrow> prompt (f a)) \<Longrightarrow>
     prompt (case x of None \<Rightarrow> m | Some a \<Rightarrow> f a)"
  by (cases x) auto

lemma prompt_case_list [returns_intros]:
  "(x = [] \<Longrightarrow> prompt m) \<Longrightarrow> (\<And>a as. x = a # as \<Longrightarrow> prompt (f a as)) \<Longrightarrow>
     prompt (case x of [] \<Rightarrow> m | a # as \<Rightarrow> f a as)"
  by (cases x) auto

text \<open>Under a timeout, a prompt computation always comes back, whatever the peer does.\<close>

lemma timeout_returns:
  assumes "timely m" "prompt m" "in_time t"
  shows "\<exists>r. timeout d m t = Some r"
proof -
  let ?t = "t\<lparr>deadline := Some (case deadline t of None \<Rightarrow> now t + d | Some E \<Rightarrow> min (now t + d) E)\<rparr>"
  have "in_time ?t" using assms(3) by (simp add: in_time_def split: option.splits)
  then obtain r where "m ?t = Some r" using assms(2) by (fastforce simp: prompt_def)
  then show ?thesis by (simp add: timeout_def until_def)
qed

text \<open>Outside of any other deadline, it returns with a result or with \<open>None\<close>, within its duration.\<close>

lemma timeout_free_returns:
  assumes m: "timely m" "prompt m" and t: "deadline t = None"
  shows "\<exists>x t'. timeout d m t = Some (Fin x t') \<and> deadline t' = None \<and> now t \<le> now t' \<and>
    now t' \<le> now t + d"
proof -
  have t': "in_time t" using t by (simp add: in_time_def)
  obtain r where r: "timeout d m t = Some r" using timeout_returns [OF m t'] by blast
  have timely: "timely (timeout d m)" using m(1) by (rule timely_timeout)
  show ?thesis
  proof (cases r)
    case (Fin x t1)
    with r timely_FinD [OF timely t'] timeout_bound [OF m(1) t'] t show ?thesis by fastforce
  next
    case (Cut t1)
    with r timely_CutD [OF timely t'] t show ?thesis by fastforce
  qed
qed

subsection \<open>Durations\<close>

text \<open>\<open>within k m\<close>: when \<open>m\<close> returns, it has taken at most \<open>k\<close>.\<close>

definition within :: "nat \<Rightarrow> ('s, 'a) async \<Rightarrow> bool" where
  "within k m \<longleftrightarrow> (\<forall>t a t'. m t = Some (Fin a t') \<longrightarrow> now t' \<le> now t + k)"

lemma withinD: "within k m \<Longrightarrow> m t = Some (Fin a t') \<Longrightarrow> now t' \<le> now t + k"
  by (simp add: within_def)

lemma within_mono: "within j m \<Longrightarrow> j \<le> k \<Longrightarrow> within k m"
  by (fastforce simp: within_def)

lemma within_ret: "within k (ret a)"
  by (simp add: within_def ret_def)

lemma within_await:
  "(\<And>s d a s'. op s = (Ready_in d a, s') \<Longrightarrow> d \<le> k) \<Longrightarrow> within k (await op)"
  by (force simp: within_def elim!: await_FinE)

lemma within_bind:
  assumes "within j m" "\<And>a. within k (f a)"
  shows "within (j + k) (bind_async m f)"
  unfolding within_def
proof (intro allI impI)
  fix t b t''
  assume "bind_async m f t = Some (Fin b t'')"
  then obtain a t' where "m t = Some (Fin a t')" "f a t' = Some (Fin b t'')"
    by (rule bind_async_FinE)
  with withinD [OF assms(1)] withinD [OF assms(2)] show "now t'' \<le> now t + (j + k)"
    by fastforce
qed

lemma within_try:
  assumes "within j m" "\<And>a. within k (f a)"
  shows "within (j + k) (try_async m f)"
  unfolding try_async_def
  by (rule within_bind [OF assms(1)]) (auto intro: assms(2) within_ret split: sum.split)

lemma within_map: "within k m \<Longrightarrow> within k (map_async g m)"
  using within_bind [of k m 0 "\<lambda>a. ret (g a)", OF _ within_ret] by (simp add: map_async_def)

lemma within_await_io:
  "(\<And>s d a s'. op s = (Ready_in d a, s') \<Longrightarrow> d \<le> k) \<Longrightarrow> within k (await_io op)"
  unfolding await_io_def by (intro within_map within_await) blast

subsection \<open>Deadlines that are not reached\<close>

text \<open>
  \<open>patient m\<close>: a run of \<open>m\<close> that returns is the same under a deadline that it does not reach.
\<close>

definition patient :: "('s, 'a) async \<Rightarrow> bool" where
  "patient m \<longleftrightarrow>
     (\<forall>t a t' D. deadline t = None \<and> m t = Some (Fin a t') \<and> now t' \<le> D \<longrightarrow>
        m (t\<lparr>deadline := Some D\<rparr>) = Some (Fin a (t'\<lparr>deadline := Some D\<rparr>)))"

lemma patientD:
  "patient m \<Longrightarrow> deadline t = None \<Longrightarrow> m t = Some (Fin a t') \<Longrightarrow> now t' \<le> D \<Longrightarrow>
     m (t\<lparr>deadline := Some D\<rparr>) = Some (Fin a (t'\<lparr>deadline := Some D\<rparr>))"
  by (simp add: patient_def)

lemma patient_ret [patient_intros]: "patient (ret a)"
  by (simp add: patient_def ret_def)

lemma patient_await [patient_intros]: "patient (await op)"
  by (auto simp: patient_def await_def split: prod.splits ready.splits)

lemma patient_bind [patient_intros]:
  assumes m: "timely m" "patient m" and f: "\<And>a. timely (f a)" "\<And>a. patient (f a)"
  shows "patient (bind_async m f)"
  unfolding patient_def
proof (intro allI impI, elim conjE)
  fix t b t'' D
  assume t: "deadline t = None" and D: "now t'' \<le> D" and run: "bind_async m f t = Some (Fin b t'')"
  have in_t: "in_time t" using t by (simp add: in_time_def)
  from run obtain a t' where a: "m t = Some (Fin a t')" and b: "f a t' = Some (Fin b t'')"
    by (rule bind_async_FinE)
  from timely_FinD [OF m(1) in_t a] t have t': "deadline t' = None" "in_time t'" by auto
  from timely_FinD [OF f(1) t'(2) b] D have "now t' \<le> D" by simp
  from patientD [OF m(2) t a this] patientD [OF f(2) t'(1) b D]
  show "bind_async m f (t\<lparr>deadline := Some D\<rparr>) = Some (Fin b (t''\<lparr>deadline := Some D\<rparr>))"
    by (simp add: bind_async_apply)
qed

lemma patient_try [patient_intros]:
  "timely m \<Longrightarrow> patient m \<Longrightarrow> (\<And>a. timely (f a)) \<Longrightarrow> (\<And>a. patient (f a)) \<Longrightarrow> patient (try_async m f)"
  unfolding try_async_def
  by (rule patient_bind) (auto intro: timely_ret patient_ret split: sum.split)

lemma patient_map [patient_intros]: "timely m \<Longrightarrow> patient m \<Longrightarrow> patient (map_async g m)"
  unfolding map_async_def by (rule patient_bind) (auto intro: timely_ret patient_ret)

lemma patient_await_io [patient_intros]: "patient (await_io op)"
  unfolding await_io_def by (intro patient_map timely_await patient_await)

lemma patient_if [patient_intros]:
  "(P \<Longrightarrow> patient m) \<Longrightarrow> (\<not> P \<Longrightarrow> patient n) \<Longrightarrow> patient (if P then m else n)"
  by simp

lemma patient_case_sum [patient_intros]:
  "(\<And>a. x = Inl a \<Longrightarrow> patient (f a)) \<Longrightarrow> (\<And>b. x = Inr b \<Longrightarrow> patient (g b)) \<Longrightarrow>
     patient (case x of Inl a \<Rightarrow> f a | Inr b \<Rightarrow> g b)"
  by (cases x) auto

lemma patient_case_prod [patient_intros]:
  "(\<And>a b. x = (a, b) \<Longrightarrow> patient (f a b)) \<Longrightarrow> patient (case x of (a, b) \<Rightarrow> f a b)"
  by (cases x) auto

lemma patient_with_stream [patient_intros]:
  assumes "patient m"
  shows "patient (with_stream u m)"
  unfolding patient_def
proof (intro allI impI, elim conjE)
  fix t x t' D
  assume t: "deadline t = None" and D: "now t' \<le> D" and run: "with_stream u m t = Some (Fin x t')"
  from run obtain a t1 where a: "m \<lparr>now = now t, deadline = deadline t, strm = u\<rparr> = Some (Fin a t1)"
    and x: "x = (a, strm t1)" "t' = t\<lparr>now := now t1, deadline := deadline t1\<rparr>"
    by (rule with_stream_FinE)
  from patientD [OF assms _ a, of D] t D x
  show "with_stream u m (t\<lparr>deadline := Some D\<rparr>) = Some (Fin x (t'\<lparr>deadline := Some D\<rparr>))"
    by (simp add: with_stream_def)
qed

text \<open>A timeout does not change a computation that is fast enough.\<close>

lemma timeout_patient:
  assumes "patient m" "timely m" "deadline t = None" "m t = Some (Fin a t')" "now t' \<le> now t + d"
  shows "timeout d m t = Some (Fin (Some a) t')"
proof -
  have "in_time t" using assms(3) by (simp add: in_time_def)
  from timely_FinD [OF assms(2) this assms(4)] assms(3) have "deadline t' = None" by simp
  with timeout_free_Fin [of t m, OF assms(3) patientD [OF assms(1,3,4,5)]] show ?thesis by simp
qed

end
