(* ===== verification/Protocol_Base.thy ===== *)
theory Protocol_Base
  imports Async_Model
begin

section \<open>Protocol constants and helpers (\<open>src/lib.rs\<close>, \<open>src/protocol/utils.rs\<close>)\<close>

text \<open>
  The constants of \<open>PortRedirectProtocol\<close>, the configuration directory, the coarse clock that
  goes into the authentication challenge, and the random bytes.  The third-party crates behind
  them (\<open>dirs\<close>, \<open>getrandom\<close>, \<open>sha2\<close>, \<open>hex\<close>) are parameters; \<open>crypto_ok\<close> collects what their
  documentation promises.
\<close>

subsection \<open>Constants\<close>

text \<open>Durations are in nanoseconds.\<close>

definition from_secs :: "nat \<Rightarrow> nat" where
  "from_secs s = s * 1000000000"

definition CONNECTION_KEEPALIVE_INTERVAL :: nat where
  "CONNECTION_KEEPALIVE_INTERVAL = from_secs 30"

definition CONNECTION_KEEPALIVE_READ_TIMEOUT :: nat where
  "CONNECTION_KEEPALIVE_READ_TIMEOUT = from_secs 30"

definition AUTHENTICATION_TIMEOUT :: nat where
  "AUTHENTICATION_TIMEOUT = from_secs 10"

definition CONFIGURATION_TIMEOUT :: nat where
  "CONFIGURATION_TIMEOUT = from_secs 10"

definition CHALLENGE_REQUEST_BUFFER_LENGTH :: nat where
  "CHALLENGE_REQUEST_BUFFER_LENGTH = 256"

definition QUIC_STREAM_READ_BUFFER_SIZE :: nat where
  "QUIC_STREAM_READ_BUFFER_SIZE = 64 * 1024"

definition QUIC_CRYPTO_BUFFER_SIZE :: nat where
  "QUIC_CRYPTO_BUFFER_SIZE = 64 * 1024"

subsection \<open>The configuration directory\<close>

text \<open>
  \<open>platform_dir\<close> is what \<open>dirs::config_dir()\<close> returns, \<open>create_dir_all\<close> the call of that name
  on the file system.
\<close>

definition get_config_dir ::
  "string option \<Rightarrow> (string \<Rightarrow> 'fs \<Rightarrow> (io_error + unit) \<times> 'fs) \<Rightarrow> string option \<Rightarrow> 'fs \<Rightarrow>
   (error + string) \<times> 'fs" where
  "get_config_dir platform_dir create_dir_all override_config_dir fs =
     (case (case override_config_dir of
              Some override_path \<Rightarrow> Inr override_path
            | None \<Rightarrow>
                bind_res (ok_or (Msg ''Failed to find your platform's config directory'')
                            platform_dir)
                  (\<lambda>config_dir. Inr (path_push config_dir ''portredirect''))) of
        Inl e \<Rightarrow> (Inl e, fs)
      | Inr config_dir \<Rightarrow>
          (case create_dir_all config_dir fs of
             (Inl e, fs') \<Rightarrow> (Inl (Context ''create config dir'' (FromIo e)), fs')
           | (Inr _, fs') \<Rightarrow> (Inr config_dir, fs')))"

subsection \<open>Time\<close>

text \<open>A \<open>SystemTime\<close> is its distance to the UNIX epoch in nanoseconds, negative before it.\<close>

type_synonym SystemTime = int

text \<open>A \<open>TimeProvider\<close> is its method \<open>now\<close>; the system one reads the clock it is given.\<close>

type_synonym TimeProvider = "unit \<Rightarrow> SystemTime"

definition SystemTimeProvider_now :: "SystemTime \<Rightarrow> TimeProvider" where
  "SystemTimeProvider_now clock = (\<lambda>_. clock)"

definition duration_since_epoch :: "SystemTime \<Rightarrow> nat option" where
  "duration_since_epoch t = (if t < 0 then None else Some (nat t))"

definition as_secs :: "nat \<Rightarrow> u64" where
  "as_secs d = word_of_nat (d div 1000000000)"

definition elapsed_minutes :: "SystemTime \<Rightarrow> u64" where
  "elapsed_minutes t =
     (case duration_since_epoch t of None \<Rightarrow> 0 | Some d \<Rightarrow> as_secs d div 60)"

subsection \<open>Randomness, hashing, hexadecimal text\<close>

record crypto =
  sha512 :: "bytes \<Rightarrow> bytes"
  hex_encode :: "bytes \<Rightarrow> string"
  getrandom_fill :: "nat \<Rightarrow> string + bytes"

definition generate_random_bytes :: "crypto \<Rightarrow> nat \<Rightarrow> error + bytes" where
  "generate_random_bytes cr len =
     map_err (\<lambda>e. Msg (''failed to get random bytes: '' @ e)) (getrandom_fill cr len)"

definition hex_digit :: "char \<Rightarrow> bool" where
  "hex_digit c = (c \<in> set ''0123456789abcdef'')"

text \<open>
  What is documented of the crates: a SHA-512 digest has 64 bytes; \<open>hex::encode\<close> writes two
  lower-case hexadecimal digits per byte; \<open>getrandom::fill\<close> fills the whole buffer.
\<close>

definition crypto_ok :: "crypto \<Rightarrow> bool" where
  "crypto_ok cr \<longleftrightarrow>
     (\<forall>x. length (sha512 cr x) = 64) \<and>
     (\<forall>b. length (hex_encode cr b) = 2 * length b \<and> list_all hex_digit (hex_encode cr b)) \<and>
     (\<forall>n b. getrandom_fill cr n = Inr b \<longrightarrow> length b = n)"

lemma crypto_okD:
  assumes "crypto_ok cr"
  shows "length (sha512 cr x) = 64"
    and "length (hex_encode cr b) = 2 * length b"
    and "list_all hex_digit (hex_encode cr b)"
    and "getrandom_fill cr n = Inr b \<Longrightarrow> length b = n"
  using assms by (auto simp: crypto_ok_def)

lemma hex_digit_plain: "hex_digit c \<Longrightarrow> plain_byte c \<and> byte_val c < 128"
  by (auto simp: hex_digit_def plain_byte_def)

lemma hex_digit_special: "hex_digit c \<Longrightarrow> c \<noteq> newline \<and> c \<noteq> CHR 0x0D"
  by (auto simp: hex_digit_def)

lemma hex_text:
  assumes "list_all hex_digit h"
  shows "ascii h" "newline \<notin> set h" "CHR 0x0D \<notin> set h" "h = [] \<or> plain_byte (last h)"
proof -
  have d: "hex_digit c" if "c \<in> set h" for c
    using assms that by (simp add: list_all_iff)
  show "ascii h" using d hex_digit_plain by (simp add: ascii_def list_all_iff)
  show "newline \<notin> set h" "CHR 0x0D \<notin> set h" using d hex_digit_special by blast+
  show "h = [] \<or> plain_byte (last h)" using d hex_digit_plain last_in_set by blast
qed

text \<open>A concrete set of functions with these properties.\<close>

definition hex_char :: "nat \<Rightarrow> char" where
  "hex_char n = ''0123456789abcdef'' ! n"

definition hex_lower :: "bytes \<Rightarrow> string" where
  "hex_lower b = concat (map (\<lambda>c. [hex_char (byte_val c div 16), hex_char (byte_val c mod 16)]) b)"

definition padded_digest :: "bytes \<Rightarrow> bytes" where
  "padded_digest x = take 64 (rev x @ replicate 64 (CHR 0x00))"

definition sample_crypto :: crypto where
  "sample_crypto =
     \<lparr>sha512 = padded_digest, hex_encode = hex_lower,
      getrandom_fill = (\<lambda>n. Inr (replicate n (CHR 0x2A)))\<rparr>"

lemma hex_char_digit: "n < 16 \<Longrightarrow> hex_digit (hex_char n)"
  unfolding hex_char_def hex_digit_def by (rule nth_mem) simp

lemma byte_val_bounds: "byte_val c div 16 < 16" "byte_val c mod 16 < 16"
proof -
  have "byte_val c < 256" by simp
  then show "byte_val c div 16 < 16" by (simp add: less_mult_imp_div_less)
qed simp

lemma sample_crypto_ok: "crypto_ok sample_crypto"
proof -
  have "length (hex_lower b) = 2 * length b \<and> list_all hex_digit (hex_lower b)" for b
    by (induction b) (auto simp: hex_lower_def hex_char_digit byte_val_bounds)
  moreover have "length (padded_digest x) = 64" for x
    by (simp add: padded_digest_def)
  ultimately show ?thesis by (simp add: crypto_ok_def sample_crypto_def)
qed

subsection \<open>Facts about the helpers\<close>

lemma elapsed_minutes_before_epoch: "t < 0 \<Longrightarrow> elapsed_minutes t = 0"
  by (simp add: elapsed_minutes_def duration_since_epoch_def)

lemma unat_elapsed_minutes:
  assumes "0 \<le> t" "nat t div 1000000000 < 2 ^ 64"
  shows "unat (elapsed_minutes t) = nat t div 1000000000 div 60"
  using assms
  by (simp add: elapsed_minutes_def duration_since_epoch_def as_secs_def unat_div
      unsigned_of_nat take_bit_nat_eq_self)

lemma get_config_dir_ok:
  assumes "get_config_dir pd mk ov fs = (Inr dir, fs')"
  shows "mk dir fs = (Inr (), fs') \<and>
    (case ov of Some p \<Rightarrow> dir = p
     | None \<Rightarrow> (\<exists>base. pd = Some base \<and> dir = path_push base ''portredirect''))"
proof -
  have step: "mk d fs = (Inr (), fs') \<and> dir = d"
    if "(case mk d fs of
          (Inl e, fs') \<Rightarrow> (Inl (Context ''create config dir'' (FromIo e)), fs')
        | (Inr _, fs') \<Rightarrow> (Inr d, fs')) = (Inr dir :: error + string, fs')" for d
  proof -
    obtain x fs1 where mk: "mk d fs = (x, fs1)" by (cases "mk d fs")
    show ?thesis
    proof (cases x)
      case (Inl e)
      with that mk show ?thesis by simp
    next
      case (Inr u)
      with that mk show ?thesis by simp
    qed
  qed
  show ?thesis
  proof (cases ov)
    case None
    with assms obtain base where base: "pd = Some base"
      by (cases pd) (auto simp: get_config_dir_def)
    with None assms step [of "path_push base ''portredirect''"] show ?thesis
      by (simp add: get_config_dir_def)
  next
    case (Some p)
    with assms step [of p] show ?thesis by (simp add: get_config_dir_def)
  qed
qed

end
