(* ===== verification/Quic_Cert.thy ===== *)
theory Quic_Cert
  imports Protocol_Base
begin

section \<open>QUIC configuration and certificates (\<open>src/quic/mod.rs\<close>, \<open>src/quic/server.rs\<close>)\<close>

text \<open>
  The configuration of the QUIC server and the certificate files.  The file system is a map
  from paths to contents, with the paths that cannot be read or written and the error these
  give.  The crates behind PEM parsing and certificate generation are the parameter record
  \<open>cert_tools\<close>; a panic of the program (\<open>unwrap\<close> on an error) is the value \<open>None\<close>.

  The lemmas show that a certificate the program generates is the one it loads on the next
  start, that existing files are never overwritten while both are there, and what is left
  behind when writing the second file fails.
\<close>

subsection \<open>Constants and transport parameters\<close>

definition ALPN_QUIC_PORTREDIRECT :: "bytes list" where
  "ALPN_QUIC_PORTREDIRECT = [''pr-1'']"

record TransportConfig =
  send_fairness :: bool
  max_concurrent_uni_streams :: nat
  max_concurrent_bidi_streams :: nat
  keep_alive_interval :: "nat option"
  crypto_buffer_size :: nat
  allow_spin :: bool

definition configure_transport_config ::
  "'more TransportConfig_scheme \<Rightarrow> 'more TransportConfig_scheme" where
  "configure_transport_config transport_config =
     transport_config\<lparr>send_fairness := True, max_concurrent_uni_streams := 0,
       max_concurrent_bidi_streams := 0, keep_alive_interval := Some (from_secs 25),
       crypto_buffer_size := QUIC_CRYPTO_BUFFER_SIZE, allow_spin := False\<rparr>"

subsection \<open>The server configuration\<close>

record ('addr, 'app) ServerConfig =
  cert_hostname :: string
  cert_file :: string
  key_file :: string
  listen :: 'addr
  stateless_retry :: bool
  connection_limit :: "nat option"
  app_data :: 'app

definition ServerConfig_create_default_config ::
  "string \<Rightarrow> string \<Rightarrow> 'addr \<Rightarrow> nat option \<Rightarrow> 'app \<Rightarrow> ('addr, 'app) ServerConfig" where
  "ServerConfig_create_default_config config_dir cert_alt_name bind_socket connection_limit' app_data' =
     \<lparr>cert_hostname = cert_alt_name,
      cert_file = path_push config_dir ''cert.der'',
      key_file = path_push config_dir ''key.der'',
      listen = bind_socket,
      stateless_retry = True,
      connection_limit = connection_limit',
      app_data = app_data'\<rparr>"

subsection \<open>The file system\<close>

record file_system =
  files :: "string \<Rightarrow> bytes option"
  unreadable :: "string \<Rightarrow> io_error option"
  unwritable :: "string \<Rightarrow> io_error option"

definition fs_exists :: "file_system \<Rightarrow> string \<Rightarrow> bool" where
  "fs_exists fs p = (files fs p \<noteq> None)"

definition fs_read :: "file_system \<Rightarrow> string \<Rightarrow> io_error + bytes" where
  "fs_read fs p =
     (case files fs p of
        None \<Rightarrow> Inl (IoError NotFound ''No such file or directory (os error 2)'')
      | Some b \<Rightarrow> (case unreadable fs p of Some e \<Rightarrow> Inl e | None \<Rightarrow> Inr b))"

definition fs_write :: "string \<Rightarrow> bytes \<Rightarrow> file_system \<Rightarrow> (io_error + unit) \<times> file_system" where
  "fs_write p b fs =
     (case unwritable fs p of
        Some e \<Rightarrow> (Inl e, fs)
      | None \<Rightarrow> (Inr (), fs\<lparr>files := (files fs)(p \<mapsto> b)\<rparr>))"

subsection \<open>Certificates\<close>

type_synonym CertificateDer = bytes

datatype PrivateKeyDer = Pkcs8 (secret_der: bytes) | OtherKey (secret_der: bytes)

record cert_tools =
  pem_private_key :: "bytes \<Rightarrow> io_error + PrivateKeyDer option"
  pem_certs :: "bytes \<Rightarrow> (io_error + CertificateDer) list"
  generate_simple_self_signed :: "string list \<Rightarrow> string + CertificateDer \<times> bytes"

text \<open>\<open>collect::<Result<_, _>>()\<close>: all values, or the first error.\<close>

fun collect_results :: "('e + 'a) list \<Rightarrow> 'e + 'a list" where
  "collect_results [] = Inr []"
| "collect_results (r # rs) = bind_res r (\<lambda>a. bind_res (collect_results rs) (\<lambda>as. Inr (a # as)))"

type_synonym identity = "CertificateDer list \<times> PrivateKeyDer"

definition load_quic_cert ::
  "cert_tools \<Rightarrow> string \<Rightarrow> string \<Rightarrow> file_system \<Rightarrow> error + identity" where
  "load_quic_cert ct key_path cert_path fs =
     bind_res (context_res ''failed to read private key'' (map_err FromIo (fs_read fs key_path))) (\<lambda>key.
     bind_res
       (if path_extension key_path = Some ''der'' then Inr (Pkcs8 key)
        else
          bind_res (context_res ''malformed PKCS #1 private key''
                      (map_err FromIo (pem_private_key ct key)))
            (ok_or (Msg ''no private keys found''))) (\<lambda>key.
     bind_res (context_res ''failed to read certificate chain'' (map_err FromIo (fs_read fs cert_path)))
       (\<lambda>cert_chain.
     bind_res
       (if path_extension cert_path = Some ''der'' then Inr [cert_chain]
        else
          context_res ''invalid PEM-encoded certificate''
            (map_err FromIo (collect_results (pem_certs ct cert_chain)))) (\<lambda>cert_chain.
     Inr (cert_chain, key)))))"

definition generate_quic_cert ::
  "cert_tools \<Rightarrow> string \<Rightarrow> string \<Rightarrow> string \<Rightarrow> file_system \<Rightarrow>
   (error + identity) option \<times> file_system" where
  "generate_quic_cert ct cert_alt_name key_path cert_path fs =
     (case generate_simple_self_signed ct [cert_alt_name] of
        Inl e \<Rightarrow> (None, fs)
      | Inr generated \<Rightarrow>
          (case generated of (cert, key) \<Rightarrow>
             (case fs_write cert_path cert fs of
                (Inl e, fs1) \<Rightarrow> (Some (Inl (Context ''failed to write certificate'' (FromIo e))), fs1)
              | (Inr _, fs1) \<Rightarrow>
                  (case fs_write key_path key fs1 of
                     (Inl e, fs2) \<Rightarrow>
                       (Some (Inl (Context ''failed to write private key'' (FromIo e))), fs2)
                   | (Inr _, fs2) \<Rightarrow> (Some (Inr ([cert], Pkcs8 key)), fs2)))))"

definition load_or_generate_quic_cert ::
  "cert_tools \<Rightarrow> string \<Rightarrow> string \<Rightarrow> string \<Rightarrow> file_system \<Rightarrow>
   (error + identity) option \<times> file_system" where
  "load_or_generate_quic_cert ct cert_alt_name key_path cert_path fs =
     (if fs_exists fs key_path \<and> fs_exists fs cert_path
      then (Some (load_quic_cert ct key_path cert_path fs), fs)
      else generate_quic_cert ct cert_alt_name key_path cert_path fs)"

subsection \<open>Lemmas\<close>

lemma der_paths:
  "path_extension (path_push d ''cert.der'') = Some ''der''"
  "path_extension (path_push d ''key.der'') = Some ''der''"
  "path_push d ''key.der'' \<noteq> path_push d ''cert.der''"
proof -
  have f: "file_name (path_push d ''cert.der'') = Some ''cert.der''"
    "file_name (path_push d ''key.der'') = Some ''key.der''"
    by (simp_all add: file_name_push)
  show "path_extension (path_push d ''cert.der'') = Some ''der''"
    "path_extension (path_push d ''key.der'') = Some ''der''"
    using f by (simp_all add: path_extension_def extension_of_name_def split_once_def)
  show "path_push d ''key.der'' \<noteq> path_push d ''cert.der''" using f by force
qed

lemma load_der:
  assumes "path_extension kp = Some ''der''" "path_extension cp = Some ''der''"
    and "files fs kp = Some k" "files fs cp = Some c"
    and "unreadable fs kp = None" "unreadable fs cp = None"
  shows "load_quic_cert ct kp cp fs = Inr ([c], Pkcs8 k)"
  using assms by (simp add: load_quic_cert_def fs_read_def)

lemma generate_cases:
  assumes "generate_quic_cert ct name kp cp fs = (r, fs')"
  obtains (panic) e where "generate_simple_self_signed ct [name] = Inl e" "r = None" "fs' = fs"
  | (no_cert) c k e where "generate_simple_self_signed ct [name] = Inr (c, k)"
      "unwritable fs cp = Some e" "fs' = fs"
      "r = Some (Inl (Context ''failed to write certificate'' (FromIo e)))"
  | (no_key) c k e where "generate_simple_self_signed ct [name] = Inr (c, k)"
      "unwritable fs cp = None" "unwritable fs kp = Some e"
      "fs' = fs\<lparr>files := (files fs)(cp \<mapsto> c)\<rparr>"
      "r = Some (Inl (Context ''failed to write private key'' (FromIo e)))"
  | (written) c k where "generate_simple_self_signed ct [name] = Inr (c, k)"
      "fs' = fs\<lparr>files := (files fs)(cp \<mapsto> c, kp \<mapsto> k)\<rparr>" "r = Some (Inr ([c], Pkcs8 k))"
  using assms
  by (auto simp: generate_quic_cert_def fs_write_def split: sum.splits prod.splits option.splits)

lemma load_or_generate_frame:
  assumes "load_or_generate_quic_cert ct name kp cp fs = (r, fs')"
  shows "(fs_exists fs kp \<and> fs_exists fs cp \<longrightarrow> fs' = fs) \<and>
    unreadable fs' = unreadable fs \<and> unwritable fs' = unwritable fs \<and>
    (\<forall>p. p \<noteq> kp \<and> p \<noteq> cp \<longrightarrow> files fs' p = files fs p)"
proof (cases "fs_exists fs kp \<and> fs_exists fs cp")
  case True
  with assms show ?thesis by (auto simp: load_or_generate_quic_cert_def)
next
  case False
  with assms have "generate_quic_cert ct name kp cp fs = (r, fs')"
    by (simp add: load_or_generate_quic_cert_def)
  then show ?thesis using False by (cases rule: generate_cases) auto
qed

lemma load_or_generate_again:
  assumes der: "path_extension kp = Some ''der''" "path_extension cp = Some ''der''" "kp \<noteq> cp"
    and ok: "load_or_generate_quic_cert ct name kp cp fs = (Some (Inr ident), fs')"
    and rd: "unreadable fs kp = None" "unreadable fs cp = None"
  shows "load_or_generate_quic_cert ct name' kp cp fs' = (Some (Inr ident), fs') \<and>
    (\<exists>c k. files fs' cp = Some c \<and> files fs' kp = Some k \<and> ident = ([c], Pkcs8 k))"
proof (cases "fs_exists fs kp \<and> fs_exists fs cp")
  case True
  then obtain c k where "files fs kp = Some k" "files fs cp = Some c" by (auto simp: fs_exists_def)
  with load_der [OF der(1,2) this rd, of ct] True ok show ?thesis
    by (auto simp: load_or_generate_quic_cert_def)
next
  case False
  with ok have "generate_quic_cert ct name kp cp fs = (Some (Inr ident), fs')"
    by (simp add: load_or_generate_quic_cert_def)
  then obtain c k where fs': "fs' = fs\<lparr>files := (files fs)(cp \<mapsto> c, kp \<mapsto> k)\<rparr>"
    and i: "ident = ([c], Pkcs8 k)"
    by (cases rule: generate_cases) auto
  then have "files fs' kp = Some k" "files fs' cp = Some c" using der(3) by auto
  moreover from this have "load_quic_cert ct kp cp fs' = Inr ([c], Pkcs8 k)"
    using load_der [OF der(1,2)] rd fs' by simp
  ultimately show ?thesis using i by (simp add: load_or_generate_quic_cert_def fs_exists_def)
qed

subsection \<open>Properties\<close>

text \<open>A set of certificate tools and an empty disk, for the concrete cases.\<close>

definition sample_tools :: cert_tools where
  "sample_tools =
     \<lparr>pem_private_key = (\<lambda>b. Inr (Some (OtherKey b))), pem_certs = (\<lambda>b. [Inr b]),
      generate_simple_self_signed = (\<lambda>names. Inr (''cert for '' @ concat names, ''new key''))\<rparr>"

definition empty_disk :: file_system where
  "empty_disk = \<lparr>files = (\<lambda>_. None), unreadable = (\<lambda>_. None), unwritable = (\<lambda>_. None)\<rparr>"

text \<open>
  C24: with the default configuration the server keeps its identity: the certificate and key it
  started with once, generated or loaded, are on disk afterwards, and every later start loads
  them, whatever host name it is given, and changes nothing.
\<close>

theorem restart_keeps_identity:
  assumes "cfg = ServerConfig_create_default_config dir name addr limit app"
    and "load_or_generate_quic_cert ct (cert_hostname cfg) (key_file cfg) (cert_file cfg) fs =
      (Some (Inr ident), fs')"
    and "unreadable fs (key_file cfg) = None" "unreadable fs (cert_file cfg) = None"
  shows "load_or_generate_quic_cert ct name' (key_file cfg) (cert_file cfg) fs' =
      (Some (Inr ident), fs') \<and>
    (\<exists>c k. files fs' (cert_file cfg) = Some c \<and> files fs' (key_file cfg) = Some k \<and>
      ident = ([c], Pkcs8 k))"
proof -
  have paths: "key_file cfg = path_push dir ''key.der''" "cert_file cfg = path_push dir ''cert.der''"
    using assms(1) by (simp_all add: ServerConfig_create_default_config_def)
  show ?thesis
    by (rule load_or_generate_again [OF _ _ _ assms(2-4)]) (simp_all add: paths der_paths)
qed

theorem restart_keeps_identity_witness:
  "\<exists>fs'. load_or_generate_quic_cert sample_tools ''localhost'' (path_push ''/etc/pr'' ''key.der'')
      (path_push ''/etc/pr'' ''cert.der'') empty_disk =
      (Some (Inr ([''cert for localhost''], Pkcs8 ''new key'')), fs') \<and>
    load_or_generate_quic_cert sample_tools ''other'' (path_push ''/etc/pr'' ''key.der'')
      (path_push ''/etc/pr'' ''cert.der'') fs' =
      (Some (Inr ([''cert for localhost''], Pkcs8 ''new key'')), fs')"
proof -
  let ?cfg = "ServerConfig_create_default_config ''/etc/pr'' ''localhost'' () None ()"
  have f: "key_file ?cfg = path_push ''/etc/pr'' ''key.der''"
    "cert_file ?cfg = path_push ''/etc/pr'' ''cert.der''" "cert_hostname ?cfg = ''localhost''"
    by (simp_all add: ServerConfig_create_default_config_def)
  obtain fs' where run: "load_or_generate_quic_cert sample_tools (cert_hostname ?cfg) (key_file ?cfg)
      (cert_file ?cfg) empty_disk = (Some (Inr ([''cert for localhost''], Pkcs8 ''new key'')), fs')"
    by (simp add: f load_or_generate_quic_cert_def generate_quic_cert_def fs_exists_def fs_write_def
        sample_tools_def empty_disk_def)
  have "unreadable empty_disk p = None" for p by (simp add: empty_disk_def)
  from restart_keeps_identity [OF refl run this this, of "''other''"] run f show ?thesis by auto
qed

text \<open>
  While both files exist nothing is written, and in every case, errors and panics included,
  no other file is touched.
\<close>

lemma cert_files_frame:
  assumes "load_or_generate_quic_cert ct name kp cp fs = (r, fs')"
  shows "(fs_exists fs kp \<and> fs_exists fs cp \<longrightarrow> fs' = fs) \<and>
    (\<forall>p. p \<noteq> kp \<and> p \<noteq> cp \<longrightarrow> files fs' p = files fs p)"
  using load_or_generate_frame [OF assms] by blast

text \<open>
  C37: the certificate is written before the key, so when an old key is there that cannot be
  overwritten, the first start fails but leaves the new certificate beside the old key, and the
  next start takes the two, which do not belong together, for the server's identity.
\<close>

theorem failed_generation_leaves_mismatch:
  assumes "path_extension kp = Some ''der''" "path_extension cp = Some ''der''" "kp \<noteq> cp"
    and "files fs kp = Some old_key" "files fs cp = None"
    and "unwritable fs kp = Some e" "unwritable fs cp = None"
    and "unreadable fs kp = None" "unreadable fs cp = None"
    and "generate_simple_self_signed ct [name] = Inr (new_cert, new_key)"
  shows "\<exists>fs'. load_or_generate_quic_cert ct name kp cp fs =
      (Some (Inl (Context ''failed to write private key'' (FromIo e))), fs') \<and>
    load_or_generate_quic_cert ct name kp cp fs' = (Some (Inr ([new_cert], Pkcs8 old_key)), fs')"
proof -
  let ?fs = "fs\<lparr>files := (files fs)(cp \<mapsto> new_cert)\<rparr>"
  have "load_quic_cert ct kp cp ?fs = Inr ([new_cert], Pkcs8 old_key)"
    using assms(3-9) by (intro load_der assms(1,2)) auto
  then show ?thesis
    using assms(3-10)
    by (auto simp: load_or_generate_quic_cert_def generate_quic_cert_def fs_exists_def fs_write_def)
qed

theorem failed_generation_leaves_mismatch_witness:
  "\<exists>fs'. load_or_generate_quic_cert sample_tools ''h'' (path_push ''d'' ''key.der'')
      (path_push ''d'' ''cert.der'')
      (empty_disk\<lparr>files := [path_push ''d'' ''key.der'' \<mapsto> ''old key''],
         unwritable := [path_push ''d'' ''key.der'' \<mapsto> IoError OtherKind ''read-only'']\<rparr>) =
      (Some (Inl (Context ''failed to write private key''
        (FromIo (IoError OtherKind ''read-only'')))), fs') \<and>
    load_or_generate_quic_cert sample_tools ''h'' (path_push ''d'' ''key.der'')
      (path_push ''d'' ''cert.der'') fs' =
      (Some (Inr ([''cert for h''], Pkcs8 ''old key'')), fs')"
  by (rule failed_generation_leaves_mismatch [where e = "IoError OtherKind ''read-only''"
        and new_key = "''new key''"])
    (use der_paths [of "''d''"] in \<open>simp_all add: empty_disk_def sample_tools_def\<close>)

end
