(* ===== verification/Stream_Api.thy ===== *)
theory Stream_Api
  imports Async_Model
begin

section \<open>Byte streams: the interface the protocol code relies on\<close>

text \<open>
  The protocol functions are generic in a stream type \<open>S: AsyncRead + AsyncWrite\<close> and call
  tokio's \<open>read\<close>, \<open>read_exact\<close>, \<open>read_until\<close> (through a fresh \<open>BufReader\<close>), \<open>write_all\<close> and
  \<open>flush\<close> on it.  Those calls are parameters of the model, collected in the record \<open>io_api\<close>,
  with \<open>reader_api\<close> and \<open>writer_api\<close> for the two halves of a split stream.

  The locales state the documented behaviour of the calls on a stream whose peer delivers a
  list of chunks and then closes, and which accepts all writes.  \<open>read\<close> returns bytes of the
  first chunk only, as a read of a network stream does; \<open>read_exact\<close> goes over chunk borders.
\<close>

subsection \<open>The calls\<close>

record 'r reader_api =
  rd_read :: "nat \<Rightarrow> 'r \<Rightarrow> (io_error + bytes) ready \<times> 'r"
  rd_read_exact :: "nat \<Rightarrow> 'r \<Rightarrow> (io_error + bytes) ready \<times> 'r"
  rd_read_until :: "char \<Rightarrow> 'r \<Rightarrow> (io_error + bytes) ready \<times> 'r"

record 'w writer_api =
  wr_write_all :: "bytes \<Rightarrow> 'w \<Rightarrow> (io_error + unit) ready \<times> 'w"
  wr_flush :: "'w \<Rightarrow> (io_error + unit) ready \<times> 'w"

record 's io_api =
  io_read :: "nat \<Rightarrow> 's \<Rightarrow> (io_error + bytes) ready \<times> 's"
  io_read_exact :: "nat \<Rightarrow> 's \<Rightarrow> (io_error + bytes) ready \<times> 's"
  io_read_until :: "char \<Rightarrow> 's \<Rightarrow> (io_error + bytes) ready \<times> 's"
  io_write_all :: "bytes \<Rightarrow> 's \<Rightarrow> (io_error + unit) ready \<times> 's"
  io_flush :: "'s \<Rightarrow> (io_error + unit) ready \<times> 's"

subsection \<open>Chunks\<close>

fun drop_chunks :: "nat \<Rightarrow> bytes list \<Rightarrow> bytes list" where
  "drop_chunks n [] = []"
| "drop_chunks n (c # cs) =
     (if n = 0 then c # cs
      else if length c \<le> n then drop_chunks (n - length c) cs
      else drop n c # cs)"

lemma drop_chunks_0 [simp]: "drop_chunks 0 cs = cs"
  by (cases cs) auto

lemma concat_drop_chunks [simp]: "concat (drop_chunks n cs) = drop n (concat cs)"
  by (induction n cs rule: drop_chunks.induct) auto

lemma drop_chunks_full [simp]: "drop_chunks (length c) (c # cs) = (if c = [] then [] # cs else cs)"
  by (cases c) auto

lemma drop_chunks_add: "drop_chunks m (drop_chunks n cs) = drop_chunks (n + m) cs"
proof (induction n cs rule: drop_chunks.induct)
  case (2 n c cs)
  show ?case
  proof (cases "n = 0 \<or> length c \<le> n")
    case True
    with 2 show ?thesis by auto
  next
    case False
    then show ?thesis by (auto simp: less_diff_conv add.commute)
  qed
qed simp

subsection \<open>Contracts\<close>

text \<open>
  The largest buffer of a \<open>BufReader\<close>: one read of the underlying stream fetches at most
  this much, and what it fetched past the line is lost when the reader is dropped.
\<close>

definition buf_reader_capacity :: nat where
  "buf_reader_capacity = 8192"

locale chunk_reader =
  fixes ra :: "'r reader_api" and chunks :: "'r \<Rightarrow> bytes list"
  assumes read_chunk:
      "chunks r = c # cs \<Longrightarrow> c \<noteq> [] \<Longrightarrow> 0 < n \<Longrightarrow>
         \<exists>d r'. rd_read ra n r = (Ready_in d (Inr (take n c)), r') \<and>
           chunks r' = drop_chunks (min n (length c)) (chunks r)"
    and read_closed:
      "chunks r = [] \<Longrightarrow>
         \<exists>d r'. rd_read ra n r = (Ready_in d (Inr []), r') \<and> chunks r' = []"
    and read_exact_full:
      "[] \<notin> set (chunks r) \<Longrightarrow> n \<le> length (concat (chunks r)) \<Longrightarrow>
         \<exists>d r'. rd_read_exact ra n r = (Ready_in d (Inr (take n (concat (chunks r)))), r') \<and>
           chunks r' = drop_chunks n (chunks r)"
    and read_exact_short:
      "[] \<notin> set (chunks r) \<Longrightarrow> length (concat (chunks r)) < n \<Longrightarrow>
         \<exists>d r' m. rd_read_exact ra n r = (Ready_in d (Inl (IoError UnexpectedEof m)), r')"
    and read_until_line:
      "chunks r = (l @ [b]) # cs \<Longrightarrow> b \<notin> set l \<Longrightarrow> length l < buf_reader_capacity \<Longrightarrow>
         \<exists>d r'. rd_read_until ra b r = (Ready_in d (Inr (l @ [b])), r') \<and> chunks r' = cs"
    and read_until_closed:
      "chunks r = [] \<Longrightarrow>
         \<exists>d r'. rd_read_until ra b r = (Ready_in d (Inr []), r') \<and> chunks r' = []"

locale byte_writer =
  fixes wa :: "'w writer_api" and written :: "'w \<Rightarrow> bytes"
  assumes write_all:
      "\<exists>d w'. wr_write_all wa b w = (Ready_in d (Inr ()), w') \<and> written w' = written w @ b"
    and flush: "\<exists>d w'. wr_flush wa w = (Ready_in d (Inr ()), w') \<and> written w' = written w"

text \<open>Both halves in one value, which is what the protocol functions take.\<close>

locale chunk_stream =
  fixes api :: "'s io_api" and rx :: "'s \<Rightarrow> bytes list" and tx :: "'s \<Rightarrow> bytes"
  assumes io_read_chunk:
      "rx s = c # cs \<Longrightarrow> c \<noteq> [] \<Longrightarrow> 0 < n \<Longrightarrow>
         \<exists>d s'. io_read api n s = (Ready_in d (Inr (take n c)), s') \<and>
           rx s' = drop_chunks (min n (length c)) (rx s) \<and> tx s' = tx s"
    and io_read_closed:
      "rx s = [] \<Longrightarrow>
         \<exists>d s'. io_read api n s = (Ready_in d (Inr []), s') \<and> rx s' = [] \<and> tx s' = tx s"
    and io_read_exact_full:
      "[] \<notin> set (rx s) \<Longrightarrow> n \<le> length (concat (rx s)) \<Longrightarrow>
         \<exists>d s'. io_read_exact api n s = (Ready_in d (Inr (take n (concat (rx s)))), s') \<and>
           rx s' = drop_chunks n (rx s) \<and> tx s' = tx s"
    and io_read_exact_short:
      "[] \<notin> set (rx s) \<Longrightarrow> length (concat (rx s)) < n \<Longrightarrow>
         \<exists>d s' m. io_read_exact api n s = (Ready_in d (Inl (IoError UnexpectedEof m)), s') \<and>
           tx s' = tx s"
    and io_read_until_line:
      "rx s = (l @ [b]) # cs \<Longrightarrow> b \<notin> set l \<Longrightarrow> length l < buf_reader_capacity \<Longrightarrow>
         \<exists>d s'. io_read_until api b s = (Ready_in d (Inr (l @ [b])), s') \<and>
           rx s' = cs \<and> tx s' = tx s"
    and io_read_until_closed:
      "rx s = [] \<Longrightarrow>
         \<exists>d s'. io_read_until api b s = (Ready_in d (Inr []), s') \<and> rx s' = [] \<and> tx s' = tx s"
    and io_write_all_ok:
      "\<exists>d s'. io_write_all api bs s = (Ready_in d (Inr ()), s') \<and>
         rx s' = rx s \<and> tx s' = tx s @ bs"
    and io_flush_ok:
      "\<exists>d s'. io_flush api s = (Ready_in d (Inr ()), s') \<and> rx s' = rx s \<and> tx s' = tx s"
begin

text \<open>The calls as steps of a task without a deadline.\<close>

lemma write_step:
  assumes "deadline t = None"
  shows "\<exists>t'. await (io_write_all api b) t = Some (Fin (Inr ()) t') \<and> deadline t' = None \<and>
    rx (strm t') = rx (strm t) \<and> tx (strm t') = tx (strm t) @ b"
  using io_write_all_ok [of b "strm t"] assms by (auto simp: await_free)

lemma flush_step:
  assumes "deadline t = None"
  shows "\<exists>t'. await (io_flush api) t = Some (Fin (Inr ()) t') \<and> deadline t' = None \<and>
    rx (strm t') = rx (strm t) \<and> tx (strm t') = tx (strm t)"
  using io_flush_ok [of "strm t"] assms by (auto simp: await_free)

lemma read_step:
  assumes "deadline t = None" "rx (strm t) = c # cs" "c \<noteq> []" "length c \<le> n"
  shows "\<exists>t'. await (io_read api n) t = Some (Fin (Inr c) t') \<and> deadline t' = None \<and>
    rx (strm t') = cs \<and> tx (strm t') = tx (strm t)"
proof -
  have "0 < n" using assms(3,4) by (cases c) auto
  from io_read_chunk [OF assms(2,3) this] assms show ?thesis
    by (auto simp: await_free min_def)
qed

lemma read_part_step:
  assumes "deadline t = None" "rx (strm t) = c # cs" "c \<noteq> []" "0 < n" "n < length c"
  shows "\<exists>t'. await (io_read api n) t = Some (Fin (Inr (take n c)) t') \<and> deadline t' = None \<and>
    rx (strm t') = drop n c # cs \<and> tx (strm t') = tx (strm t)"
  using io_read_chunk [OF assms(2-4)] assms by (auto simp: await_free min_def)

lemma read_closed_step:
  assumes "deadline t = None" "rx (strm t) = []"
  shows "\<exists>t'. await (io_read api n) t = Some (Fin (Inr []) t') \<and> deadline t' = None \<and>
    rx (strm t') = [] \<and> tx (strm t') = tx (strm t)"
  using io_read_closed [OF assms(2), of n] assms by (auto simp: await_free)

lemma read_exact_step:
  assumes "deadline t = None" "[] \<notin> set (rx (strm t))" "n \<le> length (concat (rx (strm t)))"
  shows "\<exists>t'. await (io_read_exact api n) t =
      Some (Fin (Inr (take n (concat (rx (strm t))))) t') \<and> deadline t' = None \<and>
    rx (strm t') = drop_chunks n (rx (strm t)) \<and> tx (strm t') = tx (strm t)"
  using io_read_exact_full [OF assms(2,3)] assms by (auto simp: await_free)

lemma read_exact_short_step:
  assumes "deadline t = None" "[] \<notin> set (rx (strm t))" "length (concat (rx (strm t))) < n"
  shows "\<exists>t' m. await (io_read_exact api n) t =
      Some (Fin (Inl (IoError UnexpectedEof m)) t') \<and> deadline t' = None \<and>
    tx (strm t') = tx (strm t)"
proof -
  from io_read_exact_short [OF assms(2,3)] obtain d s' m where
    "io_read_exact api n (strm t) = (Ready_in d (Inl (IoError UnexpectedEof m)), s')"
    "tx s' = tx (strm t)"
    by blast
  with assms(1) show ?thesis by (auto simp: await_free)
qed

lemma read_line_step:
  assumes "deadline t = None" "rx (strm t) = (l @ [b]) # cs" "b \<notin> set l"
    "length l < buf_reader_capacity"
  shows "\<exists>t'. await (io_read_until api b) t = Some (Fin (Inr (l @ [b])) t') \<and>
    deadline t' = None \<and> rx (strm t') = cs \<and> tx (strm t') = tx (strm t)"
  using io_read_until_line [OF assms(2-4)] assms by (auto simp: await_free)

lemma read_until_closed_step:
  assumes "deadline t = None" "rx (strm t) = []"
  shows "\<exists>t'. await (io_read_until api b) t = Some (Fin (Inr []) t') \<and>
    deadline t' = None \<and> rx (strm t') = [] \<and> tx (strm t') = tx (strm t)"
  using io_read_until_closed [OF assms(2), of b] assms by (auto simp: await_free)

end

subsection \<open>Streams with bounded delays\<close>

text \<open>There is room for \<open>k\<close> nanoseconds before the deadline, if there is one.\<close>

definition room :: "'s task \<Rightarrow> nat \<Rightarrow> bool" where
  "room t k = (case deadline t of None \<Rightarrow> True | Some D \<Rightarrow> now t + k \<le> D)"

lemma room_mono: "room t k \<Longrightarrow> j \<le> k \<Longrightarrow> room t j"
  by (auto simp: room_def split: option.splits)

lemma room_later:
  "room t (j + k) \<Longrightarrow> deadline t' = deadline t \<Longrightarrow> now t' \<le> now t + j \<Longrightarrow> room t' k"
  by (auto simp: room_def split: option.splits)

lemma room_free [simp]: "deadline t = None \<Longrightarrow> room t k"
  by (simp add: room_def)

lemma await_room:
  "op (strm t) = (Ready_in d a, s) \<Longrightarrow> d \<le> k \<Longrightarrow> room t k \<Longrightarrow>
     await op t = Some (Fin a (t\<lparr>now := now t + d, strm := s\<rparr>))"
  by (auto simp: await_def room_def split: option.splits)

text \<open>Every call takes at most \<open>lag\<close>.\<close>

definition swift_calls :: "'s io_api \<Rightarrow> nat \<Rightarrow> bool" where
  "swift_calls api lag \<longleftrightarrow>
     (\<forall>n s d r s'. io_read api n s = (Ready_in d r, s') \<longrightarrow> d \<le> lag) \<and>
     (\<forall>n s d r s'. io_read_exact api n s = (Ready_in d r, s') \<longrightarrow> d \<le> lag) \<and>
     (\<forall>b s d r s'. io_read_until api b s = (Ready_in d r, s') \<longrightarrow> d \<le> lag) \<and>
     (\<forall>b s d r s'. io_write_all api b s = (Ready_in d r, s') \<longrightarrow> d \<le> lag) \<and>
     (\<forall>s d r s'. io_flush api s = (Ready_in d r, s') \<longrightarrow> d \<le> lag)"

lemma swift_callsD:
  assumes "swift_calls api lag"
  shows "io_read api n s = (Ready_in d r, s') \<Longrightarrow> d \<le> lag"
    and "io_read_exact api n s = (Ready_in d r, s') \<Longrightarrow> d \<le> lag"
    and "io_read_until api b s = (Ready_in d r, s') \<Longrightarrow> d \<le> lag"
    and "io_write_all api bs s = (Ready_in d w, s') \<Longrightarrow> d \<le> lag"
    and "io_flush api s = (Ready_in d w, s') \<Longrightarrow> d \<le> lag"
  using assms unfolding swift_calls_def by metis+

lemma within_calls:
  assumes "swift_calls api lag"
  shows "within lag (await_io (io_read api n))"
    and "within lag (await_io (io_read_exact api n))"
    and "within lag (await_io (io_write_all api b))"
    and "within lag (await_io (io_flush api))"
  using swift_callsD [OF assms] by (auto intro!: within_await_io)

locale swift_stream = chunk_stream api rx tx
  for api :: "'s io_api" and rx :: "'s \<Rightarrow> bytes list" and tx :: "'s \<Rightarrow> bytes" +
  fixes lag :: nat
  assumes swift: "swift_calls api lag"
begin

lemmas swift_read = swift_callsD(1) [OF swift]
lemmas swift_read_until = swift_callsD(3) [OF swift]
lemmas swift_write_all = swift_callsD(4) [OF swift]
lemmas swift_flush = swift_callsD(5) [OF swift]

lemma swift_write_step:
  assumes "room t lag"
  shows "\<exists>t'. await (io_write_all api b) t = Some (Fin (Inr ()) t') \<and> deadline t' = deadline t \<and>
    now t \<le> now t' \<and> now t' \<le> now t + lag \<and> rx (strm t') = rx (strm t) \<and>
    tx (strm t') = tx (strm t) @ b"
proof -
  obtain d s where op: "io_write_all api b (strm t) = (Ready_in d (Inr ()), s)"
    and s: "rx s = rx (strm t)" "tx s = tx (strm t) @ b"
    using io_write_all_ok by blast
  from await_room [where op = "io_write_all api b", OF op swift_write_all [OF op] assms] swift_write_all [OF op] s
  show ?thesis by auto
qed

lemma swift_flush_step:
  assumes "room t lag"
  shows "\<exists>t'. await (io_flush api) t = Some (Fin (Inr ()) t') \<and> deadline t' = deadline t \<and>
    now t \<le> now t' \<and> now t' \<le> now t + lag \<and> rx (strm t') = rx (strm t) \<and>
    tx (strm t') = tx (strm t)"
proof -
  obtain d s where op: "io_flush api (strm t) = (Ready_in d (Inr ()), s)"
    and s: "rx s = rx (strm t)" "tx s = tx (strm t)"
    using io_flush_ok by blast
  from await_room [where op = "io_flush api", OF op swift_flush [OF op] assms] swift_flush [OF op] s
  show ?thesis by auto
qed

text \<open>Reading one byte at a time goes over chunk borders.\<close>

lemma swift_byte_step:
  assumes t: "room t lag" "[] \<notin> set (rx (strm t))" and b: "concat (rx (strm t)) = x # xs"
  shows "\<exists>t'. await (io_read api 1) t = Some (Fin (Inr [x]) t') \<and> deadline t' = deadline t \<and>
    now t \<le> now t' \<and> now t' \<le> now t + lag \<and> [] \<notin> set (rx (strm t')) \<and>
    concat (rx (strm t')) = xs \<and> tx (strm t') = tx (strm t)"
proof -
  obtain c cs where c: "rx (strm t) = c # cs" "c \<noteq> []"
    using t(2) b by (cases "rx (strm t)") auto
  then obtain ys where ys: "c = x # ys" using b by (cases c) auto
  obtain d s where op: "io_read api 1 (strm t) = (Ready_in d (Inr (take 1 c)), s)"
    and s: "rx s = drop_chunks (min 1 (length c)) (rx (strm t))" "tx s = tx (strm t)"
    using io_read_chunk [OF c zero_less_one] by blast
  have "rx s = (if ys = [] then cs else ys # cs)" using s(1) c(1) ys by (simp add: min_def)
  then have "[] \<notin> set (rx s)" "concat (rx s) = xs" using t(2) b c(1) ys by auto
  with await_room [where op = "io_read api 1", OF op swift_read [OF op] t(1)] swift_read [OF op] s(2) ys
  show ?thesis by auto
qed

lemma swift_eof_step:
  assumes t: "room t lag" and rx: "rx (strm t) = []"
  shows "\<exists>t'. await (io_read api n) t = Some (Fin (Inr []) t') \<and> deadline t' = deadline t \<and>
    now t \<le> now t' \<and> now t' \<le> now t + lag \<and> rx (strm t') = [] \<and> tx (strm t') = tx (strm t)"
proof -
  obtain d s where op: "io_read api n (strm t) = (Ready_in d (Inr []), s)"
    and s: "rx s = []" "tx s = tx (strm t)"
    using io_read_closed [OF rx] by blast
  from await_room [where op = "io_read api n", OF op swift_read [OF op] t] swift_read [OF op] s
  show ?thesis by auto
qed

lemma swift_line_step:
  assumes t: "room t lag" and rx: "rx (strm t) = (l @ [b]) # cs" "b \<notin> set l"
    "length l < buf_reader_capacity"
  shows "\<exists>t'. await (io_read_until api b) t = Some (Fin (Inr (l @ [b])) t') \<and>
    deadline t' = deadline t \<and> now t \<le> now t' \<and> now t' \<le> now t + lag \<and>
    rx (strm t') = cs \<and> tx (strm t') = tx (strm t)"
proof -
  obtain d s where op: "io_read_until api b (strm t) = (Ready_in d (Inr (l @ [b])), s)"
    and s: "rx s = cs" "tx s = tx (strm t)"
    using io_read_until_line [OF rx] by blast
  from await_room [where op = "io_read_until api b", OF op swift_read_until [OF op] t] swift_read_until [OF op] s
  show ?thesis by auto
qed

lemma swift_until_closed_step:
  assumes t: "room t lag" and rx: "rx (strm t) = []"
  shows "\<exists>t'. await (io_read_until api b) t = Some (Fin (Inr []) t') \<and>
    deadline t' = deadline t \<and> now t \<le> now t' \<and> now t' \<le> now t + lag \<and>
    rx (strm t') = [] \<and> tx (strm t') = tx (strm t)"
proof -
  obtain d s where op: "io_read_until api b (strm t) = (Ready_in d (Inr []), s)"
    and s: "rx s = []" "tx s = tx (strm t)"
    using io_read_until_closed [OF rx] by blast
  from await_room [where op = "io_read_until api b", OF op swift_read_until [OF op] t] swift_read_until [OF op] s
  show ?thesis by auto
qed

end

end
