(* ===== verification/Bi_Stream.thy ===== *)
theory Bi_Stream
  imports Stream_Api
begin

section \<open>Bidirectional streams (\<open>src/bi_stream.rs\<close>)\<close>

text \<open>
  \<open>BiStream\<close> pairs a reader and a writer with a name and implements \<open>AsyncRead\<close> and
  \<open>AsyncWrite\<close> by delegating to them.  \<open>MemoryStream\<close> is the in-memory stream of the module's
  tests.  The sublocale shows that a \<open>BiStream\<close> over any reader and any writer that keep
  their contracts keeps the stream contract; the interpretations discharge the contracts for
  in-memory halves and for a pipe that delivers chunk by chunk.
\<close>

subsection \<open>Model\<close>

record ('r, 'w) BiStream =
  bi_read :: 'r
  bi_write :: 'w
  bi_name :: string

definition BiStream_new :: "'r \<Rightarrow> 'w \<Rightarrow> string \<Rightarrow> ('r, 'w) BiStream" where
  "BiStream_new r w n = \<lparr>bi_read = r, bi_write = w, bi_name = n\<rparr>"

text \<open>Running an operation of a half on the half inside the pair.\<close>

definition on_read :: "('r \<Rightarrow> 'p \<times> 'r) \<Rightarrow> ('r, 'w) BiStream \<Rightarrow> 'p \<times> ('r, 'w) BiStream" where
  "on_read f b = (case f (bi_read b) of (p, r) \<Rightarrow> (p, b\<lparr>bi_read := r\<rparr>))"

definition on_write :: "('w \<Rightarrow> 'p \<times> 'w) \<Rightarrow> ('r, 'w) BiStream \<Rightarrow> 'p \<times> ('r, 'w) BiStream" where
  "on_write f b = (case f (bi_write b) of (p, w) \<Rightarrow> (p, b\<lparr>bi_write := w\<rparr>))"

datatype 'a poll = Ready 'a | Pending

text \<open>
  The \<open>poll_*\<close> functions of the halves are arguments; \<open>cx\<close> is the task context, which is only
  passed on, and a read buffer is its remaining capacity, the result being the bytes put in.
\<close>

definition BiStream_poll_read ::
  "('cx \<Rightarrow> nat \<Rightarrow> 'r \<Rightarrow> (io_error + bytes) poll \<times> 'r) \<Rightarrow> 'cx \<Rightarrow> nat \<Rightarrow>
   ('r, 'w) BiStream \<Rightarrow> (io_error + bytes) poll \<times> ('r, 'w) BiStream" where
  "BiStream_poll_read poll_read cx buf = on_read (poll_read cx buf)"

definition BiStream_poll_write ::
  "('cx \<Rightarrow> bytes \<Rightarrow> 'w \<Rightarrow> (io_error + nat) poll \<times> 'w) \<Rightarrow> 'cx \<Rightarrow> bytes \<Rightarrow>
   ('r, 'w) BiStream \<Rightarrow> (io_error + nat) poll \<times> ('r, 'w) BiStream" where
  "BiStream_poll_write poll_write cx buf = on_write (poll_write cx buf)"

definition BiStream_poll_flush ::
  "('cx \<Rightarrow> 'w \<Rightarrow> (io_error + unit) poll \<times> 'w) \<Rightarrow> 'cx \<Rightarrow>
   ('r, 'w) BiStream \<Rightarrow> (io_error + unit) poll \<times> ('r, 'w) BiStream" where
  "BiStream_poll_flush poll_flush cx = on_write (poll_flush cx)"

definition BiStream_poll_shutdown ::
  "('cx \<Rightarrow> 'w \<Rightarrow> (io_error + unit) poll \<times> 'w) \<Rightarrow> 'cx \<Rightarrow>
   ('r, 'w) BiStream \<Rightarrow> (io_error + unit) poll \<times> ('r, 'w) BiStream" where
  "BiStream_poll_shutdown poll_shutdown cx = on_write (poll_shutdown cx)"

definition BiStream_fmt :: "('r, 'w) BiStream \<Rightarrow> string" where
  "BiStream_fmt b = ''BiStream{'' @ bi_name b @ ''}''"

text \<open>
  tokio's extension methods only use the \<open>poll_*\<close> functions, so on a \<open>BiStream\<close> they are the
  methods of the half concerned.
\<close>

definition BiStream_api :: "'r reader_api \<Rightarrow> 'w writer_api \<Rightarrow> ('r, 'w) BiStream io_api" where
  "BiStream_api ra wa =
     \<lparr>io_read = (\<lambda>n. on_read (rd_read ra n)),
      io_read_exact = (\<lambda>n. on_read (rd_read_exact ra n)),
      io_read_until = (\<lambda>b. on_read (rd_read_until ra b)),
      io_write_all = (\<lambda>b. on_write (wr_write_all wa b)),
      io_flush = on_write (wr_flush wa)\<rparr>"

subsection \<open>The in-memory stream of the tests\<close>

record MemoryStream =
  ms_data :: bytes
  ms_position :: nat

definition MemoryStream_new :: "bytes \<Rightarrow> MemoryStream" where
  "MemoryStream_new data = \<lparr>ms_data = data, ms_position = 0\<rparr>"

definition MemoryStream_poll_read ::
  "'cx \<Rightarrow> nat \<Rightarrow> MemoryStream \<Rightarrow> (io_error + bytes) poll \<times> MemoryStream" where
  "MemoryStream_poll_read cx buf m =
     (let pos = ms_position m;
          available = drop pos (ms_data m)
      in if available = [] then (Ready (Inr []), m)
         else let to_read = min (length available) buf
              in (Ready (Inr (take to_read available)), m\<lparr>ms_position := pos + to_read\<rparr>))"

definition MemoryStream_poll_write ::
  "'cx \<Rightarrow> bytes \<Rightarrow> MemoryStream \<Rightarrow> (io_error + nat) poll \<times> MemoryStream" where
  "MemoryStream_poll_write cx buf m =
     (Ready (Inr (length buf)), m\<lparr>ms_data := ms_data m @ buf\<rparr>)"

definition MemoryStream_poll_flush ::
  "'cx \<Rightarrow> MemoryStream \<Rightarrow> (io_error + unit) poll \<times> MemoryStream" where
  "MemoryStream_poll_flush cx m = (Ready (Inr ()), m)"

definition MemoryStream_poll_shutdown ::
  "'cx \<Rightarrow> MemoryStream \<Rightarrow> (io_error + unit) poll \<times> MemoryStream" where
  "MemoryStream_poll_shutdown cx m = (Ready (Inr ()), m)"

subsection \<open>The calls on streams that are always ready\<close>

text \<open>
  Concrete versions of the awaited calls for a stream whose polls never wait and never fail:
  \<open>pull\<close> polls until the buffer is full or the stream is at its end, \<open>pull_line\<close> until the
  delimiter is there.  The fuel of both is the number of polls that can be needed, since
  every poll but the last returns at least one byte.
\<close>

fun pull :: "nat \<Rightarrow> (nat \<Rightarrow> 's \<Rightarrow> bytes \<times> 's) \<Rightarrow> nat \<Rightarrow> 's \<Rightarrow> bytes \<times> 's" where
  "pull 0 p n s = ([], s)"
| "pull (Suc k) p n s =
     (if n = 0 then ([], s)
      else case p n s of (b, s') \<Rightarrow>
        if b = [] then ([], s')
        else case pull k p (n - length b) s' of (b', s'') \<Rightarrow> (b @ b', s''))"

fun pull_line :: "nat \<Rightarrow> (nat \<Rightarrow> 's \<Rightarrow> bytes \<times> 's) \<Rightarrow> char \<Rightarrow> 's \<Rightarrow> bytes \<times> 's" where
  "pull_line 0 p d s = ([], s)"
| "pull_line (Suc k) p d s =
     (case p buf_reader_capacity s of (b, s') \<Rightarrow>
        if b = [] then ([], s')
        else if d \<in> set b then (takeWhile (\<lambda>c. c \<noteq> d) b @ [d], s')
        else case pull_line k p d s' of (b', s'') \<Rightarrow> (b @ b', s''))"

definition ready_reader :: "(nat \<Rightarrow> 's \<Rightarrow> bytes \<times> 's) \<Rightarrow> ('s \<Rightarrow> nat) \<Rightarrow> 's reader_api" where
  "ready_reader p size' =
     \<lparr>rd_read = (\<lambda>n s. case p n s of (b, s') \<Rightarrow> (Ready_in 0 (Inr b), s')),
      rd_read_exact = (\<lambda>n s. case pull n p n s of (b, s') \<Rightarrow>
        (Ready_in 0 (if length b = n then Inr b else Inl (IoError UnexpectedEof ''early eof'')), s')),
      rd_read_until = (\<lambda>d s. case pull_line (Suc (size' s)) p d s of (b, s') \<Rightarrow>
        (Ready_in 0 (Inr b), s'))\<rparr>"

definition poll_bytes :: "(io_error + bytes) poll \<times> 's \<Rightarrow> bytes \<times> 's" where
  "poll_bytes x = (case x of (Ready (Inr b), s) \<Rightarrow> (b, s) | (_, s) \<Rightarrow> ([], s))"

definition memory_reader :: "MemoryStream reader_api" where
  "memory_reader =
     ready_reader (\<lambda>n m. poll_bytes (MemoryStream_poll_read () n m)) (\<lambda>m. length (ms_data m))"

definition memory_writer :: "MemoryStream writer_api" where
  "memory_writer =
     \<lparr>wr_write_all = (\<lambda>b m. (Ready_in 0 (Inr ()), snd (MemoryStream_poll_write () b m))),
      wr_flush = (\<lambda>m. (Ready_in 0 (Inr ()), snd (MemoryStream_poll_flush () m)))\<rparr>"

text \<open>A pipe end that still has a list of chunks to deliver, and one that records what it gets.\<close>

fun pipe_poll :: "nat \<Rightarrow> bytes list \<Rightarrow> bytes \<times> bytes list" where
  "pipe_poll n [] = ([], [])"
| "pipe_poll n (c # cs) = (take n c, if length c \<le> n then cs else drop n c # cs)"

definition pipe_reader :: "bytes list reader_api" where
  "pipe_reader = ready_reader pipe_poll (\<lambda>cs. length (concat cs))"

definition pipe_writer :: "bytes writer_api" where
  "pipe_writer =
     \<lparr>wr_write_all = (\<lambda>b w. (Ready_in 0 (Inr ()), w @ b)),
      wr_flush = (\<lambda>w. (Ready_in 0 (Inr ()), w))\<rparr>"

type_synonym pipe_end = "(bytes list, bytes) BiStream"

definition pipe_api :: "pipe_end io_api" where
  "pipe_api = BiStream_api pipe_reader pipe_writer"

definition pipe_rx :: "pipe_end \<Rightarrow> bytes list" where
  "pipe_rx b = bi_read b"

definition pipe_tx :: "pipe_end \<Rightarrow> bytes" where
  "pipe_tx b = bi_write b"

definition pipe_task :: "bytes list \<Rightarrow> pipe_end task" where
  "pipe_task cs = \<lparr>now = 0, deadline = None, strm = BiStream_new cs [] ''pipe''\<rparr>"

subsection \<open>Delegation\<close>

lemmas BiStream_polls =
  BiStream_poll_read_def BiStream_poll_write_def BiStream_poll_flush_def
  BiStream_poll_shutdown_def

lemma on_read_frame: "bi_write (snd (on_read f b)) = bi_write b \<and> bi_name (snd (on_read f b)) = bi_name b"
  by (simp add: on_read_def split: prod.splits)

lemma on_write_frame: "bi_read (snd (on_write f b)) = bi_read b \<and> bi_name (snd (on_write f b)) = bi_name b"
  by (simp add: on_write_def split: prod.splits)

lemma on_read_half: "(fst (on_read f b), bi_read (snd (on_read f b))) = f (bi_read b)"
  by (simp add: on_read_def split: prod.splits)

lemma on_write_half: "(fst (on_write f b), bi_write (snd (on_write f b))) = f (bi_write b)"
  by (simp add: on_write_def split: prod.splits)

text \<open>The stream contract of a pair, from the contracts of its halves.\<close>

locale bi_halves = chunk_reader ra chunks + byte_writer wa written
  for ra :: "'r reader_api" and chunks :: "'r \<Rightarrow> bytes list"
    and wa :: "'w writer_api" and written :: "'w \<Rightarrow> bytes"

sublocale bi_halves \<subseteq> bi: chunk_stream "BiStream_api ra wa"
  "\<lambda>b. chunks (bi_read b)" "\<lambda>b. written (bi_write b)"
proof
  fix s :: "('r, 'w) BiStream" and c cs and n :: nat
  assume "chunks (bi_read s) = c # cs" "c \<noteq> []" "0 < n"
  from read_chunk [OF this] show "\<exists>d s'. io_read (BiStream_api ra wa) n s =
      (Ready_in d (Inr (take n c)), s') \<and>
      chunks (bi_read s') = drop_chunks (min n (length c)) (chunks (bi_read s)) \<and>
      written (bi_write s') = written (bi_write s)"
    by (force simp: BiStream_api_def on_read_def)
next
  fix s :: "('r, 'w) BiStream" and n :: nat
  assume "chunks (bi_read s) = []"
  from read_closed [OF this, of n] show "\<exists>d s'. io_read (BiStream_api ra wa) n s =
      (Ready_in d (Inr []), s') \<and> chunks (bi_read s') = [] \<and>
      written (bi_write s') = written (bi_write s)"
    by (force simp: BiStream_api_def on_read_def)
next
  fix s :: "('r, 'w) BiStream" and n :: nat
  assume "[] \<notin> set (chunks (bi_read s))" "n \<le> length (concat (chunks (bi_read s)))"
  from read_exact_full [OF this] show "\<exists>d s'. io_read_exact (BiStream_api ra wa) n s =
      (Ready_in d (Inr (take n (concat (chunks (bi_read s))))), s') \<and>
      chunks (bi_read s') = drop_chunks n (chunks (bi_read s)) \<and>
      written (bi_write s') = written (bi_write s)"
    by (force simp: BiStream_api_def on_read_def)
next
  fix s :: "('r, 'w) BiStream" and n :: nat
  assume "[] \<notin> set (chunks (bi_read s))" "length (concat (chunks (bi_read s))) < n"
  from read_exact_short [OF this] show "\<exists>d s' m. io_read_exact (BiStream_api ra wa) n s =
      (Ready_in d (Inl (IoError UnexpectedEof m)), s') \<and>
      written (bi_write s') = written (bi_write s)"
    by (force simp: BiStream_api_def on_read_def)
next
  fix s :: "('r, 'w) BiStream" and l cs and b :: char
  assume "chunks (bi_read s) = (l @ [b]) # cs" "b \<notin> set l" "length l < buf_reader_capacity"
  from read_until_line [OF this] show "\<exists>d s'. io_read_until (BiStream_api ra wa) b s =
      (Ready_in d (Inr (l @ [b])), s') \<and> chunks (bi_read s') = cs \<and>
      written (bi_write s') = written (bi_write s)"
    by (force simp: BiStream_api_def on_read_def)
next
  fix s :: "('r, 'w) BiStream" and b :: char
  assume "chunks (bi_read s) = []"
  from read_until_closed [OF this, of b] show "\<exists>d s'. io_read_until (BiStream_api ra wa) b s =
      (Ready_in d (Inr []), s') \<and> chunks (bi_read s') = [] \<and>
      written (bi_write s') = written (bi_write s)"
    by (force simp: BiStream_api_def on_read_def)
next
  fix s :: "('r, 'w) BiStream" and bs :: bytes
  from write_all [of bs "bi_write s"] show "\<exists>d s'. io_write_all (BiStream_api ra wa) bs s =
      (Ready_in d (Inr ()), s') \<and> chunks (bi_read s') = chunks (bi_read s) \<and>
      written (bi_write s') = written (bi_write s) @ bs"
    by (force simp: BiStream_api_def on_write_def)
next
  fix s :: "('r, 'w) BiStream"
  from flush [of "bi_write s"] show "\<exists>d s'. io_flush (BiStream_api ra wa) s =
      (Ready_in d (Inr ()), s') \<and> chunks (bi_read s') = chunks (bi_read s) \<and>
      written (bi_write s') = written (bi_write s)"
    by (force simp: BiStream_api_def on_write_def)
qed

context bi_halves
begin

lemma stream_contract:
  "chunk_stream (BiStream_api ra wa) (\<lambda>b. chunks (bi_read b)) (\<lambda>b. written (bi_write b))"
  by (rule bi.chunk_stream_axioms)

end

subsection \<open>Streams that are always ready keep the contract\<close>

text \<open>
  A poll function whose result is a prefix of the first chunk, and which is at its end when
  no chunk is left.
\<close>

definition chunk_poll :: "(nat \<Rightarrow> 's \<Rightarrow> bytes \<times> 's) \<Rightarrow> ('s \<Rightarrow> bytes list) \<Rightarrow> bool" where
  "chunk_poll p chunks \<longleftrightarrow>
     (\<forall>n s c cs. chunks s = c # cs \<longrightarrow> c \<noteq> [] \<longrightarrow> 0 < n \<longrightarrow>
        fst (p n s) = take n c \<and>
        chunks (snd (p n s)) = drop_chunks (min n (length c)) (chunks s)) \<and>
     (\<forall>n s. chunks s = [] \<longrightarrow> fst (p n s) = [] \<and> chunks (snd (p n s)) = [])"

lemma chunk_pollD:
  assumes "chunk_poll p chunks"
  shows "chunks s = c # cs \<Longrightarrow> c \<noteq> [] \<Longrightarrow> 0 < n \<Longrightarrow>
      \<exists>s'. p n s = (take n c, s') \<and> chunks s' = drop_chunks (min n (length c)) (chunks s)"
    and "chunks s = [] \<Longrightarrow> \<exists>s'. p n s = ([], s') \<and> chunks s' = []"
  using assms unfolding chunk_poll_def by (metis prod.collapse)+

lemma drop_chunks_nonempty: "[] \<notin> set cs \<Longrightarrow> [] \<notin> set (drop_chunks n cs)"
  by (induction n cs rule: drop_chunks.induct) auto

lemma pull_chunks:
  assumes p: "chunk_poll p chunks"
  shows "n \<le> k \<Longrightarrow> [] \<notin> set (chunks s) \<Longrightarrow>
    \<exists>s'. pull k p n s = (take n (concat (chunks s)), s') \<and> chunks s' = drop_chunks n (chunks s)"
proof (induction k arbitrary: n s)
  case 0
  then show ?case by simp
next
  case (Suc k)
  show ?case
  proof (cases "n = 0")
    case True
    then show ?thesis by simp
  next
    case n: False
    show ?thesis
    proof (cases "chunks s")
      case Nil
      with chunk_pollD(2) [OF p Nil, of n] n show ?thesis by auto
    next
      case (Cons c cs)
      with Suc.prems have c: "c \<noteq> []" by auto
      from chunk_pollD(1) [OF p Cons c, of n] n obtain s' where
        s': "p n s = (take n c, s')" "chunks s' = drop_chunks (min n (length c)) (chunks s)"
        by auto
      have len: "length (take n c) = min n (length c)" by simp
      have ne: "take n c \<noteq> []" using n c by simp
      have "n - min n (length c) \<le> k" using Suc.prems(1) n c by (cases c) auto
      moreover have "[] \<notin> set (chunks s')"
        using Suc.prems(2) by (simp add: s'(2) drop_chunks_nonempty)
      ultimately obtain s'' where s'': "pull k p (n - min n (length c)) s' =
          (take (n - min n (length c)) (concat (chunks s')), s'')"
        "chunks s'' = drop_chunks (n - min n (length c)) (chunks s')"
        using Suc.IH by blast
      have "chunks s'' = drop_chunks n (chunks s)"
        by (simp add: s''(2) s'(2) drop_chunks_add)
      moreover have "take n c @ take (n - min n (length c)) (concat (chunks s')) =
          take n (concat (chunks s))"
        using Cons by (simp add: s'(2) min_def)
      ultimately show ?thesis using n ne s'(1) s''(1) by (simp add: len del: length_take)
    qed
  qed
qed

lemma chunk_reader_ready:
  assumes p: "chunk_poll p chunks"
  shows "chunk_reader (ready_reader p size') chunks"
proof
  fix r c cs and n :: nat
  assume "chunks r = c # cs" "c \<noteq> []" "0 < n"
  from chunk_pollD(1) [OF p this] show "\<exists>d r'. rd_read (ready_reader p size') n r =
      (Ready_in d (Inr (take n c)), r') \<and>
      chunks r' = drop_chunks (min n (length c)) (chunks r)"
    by (auto simp: ready_reader_def)
next
  fix r and n :: nat
  assume "chunks r = []"
  from chunk_pollD(2) [OF p this, of n] show "\<exists>d r'. rd_read (ready_reader p size') n r =
      (Ready_in d (Inr []), r') \<and> chunks r' = []"
    by (auto simp: ready_reader_def)
next
  fix r and n :: nat
  assume "[] \<notin> set (chunks r)" "n \<le> length (concat (chunks r))"
  with pull_chunks [OF p order_refl, of r n]
  show "\<exists>d r'. rd_read_exact (ready_reader p size') n r =
      (Ready_in d (Inr (take n (concat (chunks r)))), r') \<and>
      chunks r' = drop_chunks n (chunks r)"
    by (auto simp: ready_reader_def)
next
  fix r and n :: nat
  assume "[] \<notin> set (chunks r)" "length (concat (chunks r)) < n"
  with pull_chunks [OF p order_refl, of r n]
  show "\<exists>d r' m. rd_read_exact (ready_reader p size') n r =
      (Ready_in d (Inl (IoError UnexpectedEof m)), r')"
    by (auto simp: ready_reader_def)
next
  fix r l cs and b :: char
  assume r: "chunks r = (l @ [b]) # cs" "b \<notin> set l" "length l < buf_reader_capacity"
  from chunk_pollD(1) [OF p r(1), of buf_reader_capacity] obtain s' where
    s': "p buf_reader_capacity r = (take buf_reader_capacity (l @ [b]), s')"
    "chunks s' = drop_chunks (min buf_reader_capacity (length (l @ [b]))) (chunks r)"
    by (auto simp: buf_reader_capacity_def)
  have "take buf_reader_capacity (l @ [b]) = l @ [b]" "min buf_reader_capacity (length (l @ [b])) = length (l @ [b])"
    using r(3) by (simp_all add: min_def)
  with s' r have "p buf_reader_capacity r = (l @ [b], s')" "chunks s' = cs"
    by (simp_all del: length_append)
  then show "\<exists>d r'. rd_read_until (ready_reader p size') b r =
      (Ready_in d (Inr (l @ [b])), r') \<and> chunks r' = cs"
    using r(2) by (simp add: ready_reader_def takeWhile_no_split [where ys = "[]"])
next
  fix r and b :: char
  assume "chunks r = []"
  from chunk_pollD(2) [OF p this, of buf_reader_capacity]
  show "\<exists>d r'. rd_read_until (ready_reader p size') b r =
      (Ready_in d (Inr []), r') \<and> chunks r' = []"
    by (auto simp: ready_reader_def)
qed

subsection \<open>Interpretations\<close>

text \<open>An in-memory stream delivers everything it still holds as one chunk.\<close>

definition memory_chunks :: "MemoryStream \<Rightarrow> bytes list" where
  "memory_chunks m =
     (let rest = drop (ms_position m) (ms_data m) in if rest = [] then [] else [rest])"

lemma memory_poll: "chunk_poll (\<lambda>n m. poll_bytes (MemoryStream_poll_read () n m)) memory_chunks"
  unfolding chunk_poll_def
proof (intro conjI allI impI)
  fix n m c cs
  assume m: "memory_chunks m = c # cs" and c: "c \<noteq> []" and n: "0 < (n :: nat)"
  then have c_eq: "c = drop (ms_position m) (ms_data m)" and cs: "cs = []"
    by (auto simp: memory_chunks_def Let_def split: if_splits)
  have poll: "poll_bytes (MemoryStream_poll_read () n m) =
      (take n c, m\<lparr>ms_position := ms_position m + min (length c) n\<rparr>)"
    using c c_eq by (simp add: poll_bytes_def MemoryStream_poll_read_def Let_def min_def)
  show "fst (poll_bytes (MemoryStream_poll_read () n m)) = take n c"
    by (simp add: poll)
  have "drop (ms_position m + min (length c) n) (ms_data m) = drop (min (length c) n) c"
    by (simp add: c_eq add.commute)
  then show "memory_chunks (snd (poll_bytes (MemoryStream_poll_read () n m))) =
      drop_chunks (min n (length c)) (memory_chunks m)"
    using m cs c n by (auto simp: poll memory_chunks_def Let_def min_def)
next
  fix n m
  assume "memory_chunks m = []"
  then show "fst (poll_bytes (MemoryStream_poll_read () n m)) = []"
    "memory_chunks (snd (poll_bytes (MemoryStream_poll_read () n m))) = []"
    by (auto simp: memory_chunks_def poll_bytes_def MemoryStream_poll_read_def Let_def split: if_splits)
qed

lemma pipe_poll_chunks: "chunk_poll pipe_poll (\<lambda>cs. cs)"
  by (auto simp: chunk_poll_def min_def)

interpretation memory: bi_halves memory_reader memory_chunks memory_writer ms_data
proof (intro bi_halves.intro)
  show "chunk_reader memory_reader memory_chunks"
    unfolding memory_reader_def by (rule chunk_reader_ready) (rule memory_poll)
  show "byte_writer memory_writer ms_data"
    by unfold_locales
      (auto simp: memory_writer_def MemoryStream_poll_write_def MemoryStream_poll_flush_def)
qed

interpretation pipe: bi_halves pipe_reader "\<lambda>cs. cs" pipe_writer "\<lambda>w. w"
proof (intro bi_halves.intro)
  show "chunk_reader pipe_reader (\<lambda>cs. cs)"
    unfolding pipe_reader_def by (rule chunk_reader_ready) (rule pipe_poll_chunks)
  show "byte_writer pipe_writer (\<lambda>w. w)"
    by unfold_locales (auto simp: pipe_writer_def)
qed

lemma pipe_chunk_stream: "chunk_stream pipe_api pipe_rx pipe_tx"
proof -
  have "pipe_rx = (\<lambda>b. bi_read b)" "pipe_tx = (\<lambda>b. bi_write b)"
    by (simp_all add: fun_eq_iff pipe_rx_def pipe_tx_def)
  then show ?thesis
    using pipe.bi.chunk_stream_axioms by (simp add: pipe_api_def)
qed

lemma pipe_swift_calls: "swift_calls pipe_api 0"
  by (auto simp: swift_calls_def pipe_api_def BiStream_api_def pipe_reader_def pipe_writer_def
      ready_reader_def on_read_def on_write_def split: prod.splits)

lemma pipe_swift_stream: "swift_stream pipe_api pipe_rx pipe_tx 0"
  by (intro swift_stream.intro pipe_chunk_stream swift_stream_axioms.intro pipe_swift_calls)

interpretation swift_pipe: swift_stream pipe_api pipe_rx pipe_tx 0
  by (rule pipe_swift_stream)

lemma pipe_task_simps [simp]:
  "now (pipe_task cs) = 0" "deadline (pipe_task cs) = None"
  "pipe_rx (strm (pipe_task cs)) = cs" "pipe_tx (strm (pipe_task cs)) = []"
  by (simp_all add: pipe_task_def pipe_rx_def pipe_tx_def BiStream_new_def)

end
