(* ===== verification/Protocol_Auth.thy ===== *)
theory Protocol_Auth
  imports Protocol_Base Bi_Stream
begin

section \<open>Challenge-response authentication (\<open>src/protocol/auth.rs\<close>)\<close>

text \<open>
  The server sends a prompt and a challenge made of random bytes and the time in minutes; the
  client answers with the hexadecimal SHA-512 of the challenge and the pre-shared key; the
  server answers \<open>HAPPY\<close> or \<open>BAD\<close>.  The model follows the two functions statement by
  statement.  Inside the stream contract, the lemmas give the complete behaviour of both
  sides; the properties at the end are about any stream, or about both sides of a handshake.
\<close>

subsection \<open>Model\<close>

abbreviation auth_prompt :: string where
  "auth_prompt \<equiv> ''WHO THE HECK ARE YOU?''"

definition challenge_text :: "string \<Rightarrow> u64 \<Rightarrow> string" where
  "challenge_text random_bytes_hex coarse_unix_time =
     ''this-is-the-challenge-'' @ random_bytes_hex @ ''-at-'' @
     to_dec (unat coarse_unix_time) @ ''-pr-v1''"

definition request_text :: "string \<Rightarrow> string" where
  "request_text challenge = auth_prompt @ [newline] @ challenge @ [newline]"

definition auth_response :: "crypto \<Rightarrow> string \<Rightarrow> string \<Rightarrow> string" where
  "auth_response cr challenge psk = hex_encode cr (sha512 cr (challenge @ psk))"

text \<open>Steps 3 to 5 of the server: read the response, compare, give the verdict.\<close>

definition server_verify ::
  "'s io_api \<Rightarrow> crypto \<Rightarrow> string \<Rightarrow> string \<Rightarrow> ('s, error + unit) async" where
  "server_verify api cr challenge psk =
     try_async (await_io (io_read_exact api 129)) (\<lambda>buf.
     try_async (ret (ok_or FromUtf8 (from_utf8 buf))) (\<lambda>text.
     let client_response = trim_end text;
         expected_response = auth_response cr challenge psk
     in
     if client_response = expected_response
     then
       try_async (await_io (io_write_all api (''HAPPY'' @ [newline]))) (\<lambda>_.
       try_async (await_io (io_flush api)) (\<lambda>_.
       ret (Inr ())))
     else
       try_async (await_io (io_write_all api (''BAD'' @ [newline]))) (\<lambda>_.
       try_async (await_io (io_flush api)) (\<lambda>_.
       ret (Inl (Msg ''Authentication failed: response mismatch''))))))"

definition server_authenticate ::
  "'s io_api \<Rightarrow> crypto \<Rightarrow> string \<Rightarrow> TimeProvider \<Rightarrow> ('s, error + unit) async" where
  "server_authenticate api cr psk time_provider =
     (let coarse_unix_time = elapsed_minutes (time_provider ()) in
      try_async (ret (generate_random_bytes cr 32)) (\<lambda>random_bytes.
      let random_bytes_hex = hex_encode cr random_bytes;
          challenge = challenge_text random_bytes_hex coarse_unix_time;
          request = request_text challenge
      in
      if length request > CHALLENGE_REQUEST_BUFFER_LENGTH
      then ret (Inl (Msg ''Challenge string exceeds maximum length''))
      else
      try_async (await_io (io_write_all api request)) (\<lambda>_.
      try_async (await_io (io_flush api)) (\<lambda>_.
      server_verify api cr challenge psk))))"

text \<open>Step 4 of the client: read the verdict.\<close>

definition client_verdict :: "'s io_api \<Rightarrow> ('s, error + unit) async" where
  "client_verdict api =
     try_async (await_io (io_read api 16)) (\<lambda>reply_buf.
     try_async (ret (ok_or FromUtf8 (from_utf8 reply_buf))) (\<lambda>reply.
     if starts_with reply ''HAPPY'' then ret (Inr ())
     else ret (Inl (Msg (''Server rejected authentication: '' @ trim reply)))))"

definition client_authenticate ::
  "'s io_api \<Rightarrow> crypto \<Rightarrow> string \<Rightarrow> ('s, error + unit) async" where
  "client_authenticate api cr psk =
     try_async (await_io (io_read api CHALLENGE_REQUEST_BUFFER_LENGTH)) (\<lambda>buf.
     try_async (ret (ok_or FromUtf8 (from_utf8 buf))) (\<lambda>message.
     case lines message of
       [] \<Rightarrow> ret (Inl (Msg ''Unexpected authentication prompt''))
     | first # rest \<Rightarrow>
         if first \<noteq> auth_prompt
         then ret (Inl (Msg ''Unexpected authentication prompt''))
         else
           (case rest of
              [] \<Rightarrow> ret (Inl (Msg ''Missing challenge in authentication message''))
            | challenge # _ \<Rightarrow>
                try_async (await_io (io_write_all api
                    (auth_response cr challenge psk @ [newline]))) (\<lambda>_.
                try_async (await_io (io_flush api)) (\<lambda>_.
                client_verdict api)))))"

text \<open>The challenge the server makes when the random source delivers \<open>rnd\<close>.\<close>

definition server_challenge :: "crypto \<Rightarrow> bytes \<Rightarrow> TimeProvider \<Rightarrow> string" where
  "server_challenge cr rnd tp = challenge_text (hex_encode cr rnd) (elapsed_minutes (tp ()))"

subsection \<open>The texts\<close>

lemma length_to_dec: "n < 10 ^ k \<Longrightarrow> 0 < k \<Longrightarrow> length (to_dec n) \<le> k"
proof (induction k arbitrary: n)
  case 0
  then show ?case by simp
next
  case (Suc k)
  show ?case
  proof (cases "n < 10")
    case True
    then show ?thesis by (simp add: to_dec.simps [of n])
  next
    case False
    with Suc.prems have "0 < k" by (cases k) auto
    moreover have "n div 10 < 10 ^ k" using Suc.prems by (simp add: less_mult_imp_div_less mult.commute)
    ultimately have "length (to_dec (n div 10)) \<le> k" using Suc.IH by blast
    with False show ?thesis by (simp add: to_dec.simps [of n])
  qed
qed

lemma length_to_dec_u64: "length (to_dec (unat (m :: u64))) \<le> 20"
proof -
  have "unat m < 2 ^ 64" using unsigned_less [of m, where 'a = nat] by simp
  then have "unat m < 10 ^ 20" by simp
  then show ?thesis by (rule length_to_dec) simp
qed

lemma length_request:
  assumes "length h = 64"
  shows "length (request_text (challenge_text h m)) \<le> 139"
  using assms length_to_dec_u64 [of m] by (simp add: request_text_def challenge_text_def)

lemma challenge_text_clean:
  assumes "list_all hex_digit h"
  shows "ascii (challenge_text h m)" "newline \<notin> set (challenge_text h m)"
    "CHR 0x0D \<notin> set (challenge_text h m)"
  using hex_text [OF assms] to_dec_no_special [of "unat m"]
  by (auto simp: challenge_text_def)

lemma lines_request:
  assumes "newline \<notin> set ch" "CHR 0x0D \<notin> set ch"
  shows "lines (request_text ch) = [auth_prompt, ch]"
proof -
  have "lines (auth_prompt @ newline # (ch @ [newline])) = auth_prompt # lines (ch @ [newline])"
    by (rule lines_line) auto
  then have "lines (request_text ch) = auth_prompt # lines (ch @ [newline])"
    by (simp add: request_text_def)
  also have "lines (ch @ [newline]) = [ch]"
    using lines_line [OF assms, of "[]"] by simp
  finally show ?thesis .
qed

lemma ascii_request: "ascii ch \<Longrightarrow> ascii (request_text ch)"
  by (simp add: request_text_def)

lemma auth_response_text:
  assumes "crypto_ok cr"
  shows "length (auth_response cr ch psk) = 128" "list_all hex_digit (auth_response cr ch psk)"
  using crypto_okD [OF assms] by (simp_all add: auth_response_def)

lemma trim_end_response:
  assumes "crypto_ok cr"
  shows "trim_end (auth_response cr ch psk @ [newline]) = auth_response cr ch psk"
  using hex_text(4) [OF auth_response_text(2) [OF assms]] by (rule trim_end_newline)

lemma server_challenge_clean:
  assumes "crypto_ok cr" "getrandom_fill cr 32 = Inr rnd"
  shows "length (request_text (server_challenge cr rnd tp)) \<le> 139"
    and "ascii (server_challenge cr rnd tp)"
    and "newline \<notin> set (server_challenge cr rnd tp)"
    and "CHR 0x0D \<notin> set (server_challenge cr rnd tp)"
  using crypto_okD [OF assms(1)] assms(2) length_request challenge_text_clean
  by (simp_all add: server_challenge_def)

subsection \<open>Timing\<close>

lemma timely_server_verify [timely_intros]: "timely (server_verify api cr ch psk)"
  unfolding server_verify_def Let_def by (intro timely_intros)

lemma timely_server_authenticate [timely_intros]: "timely (server_authenticate api cr psk tp)"
  unfolding server_authenticate_def Let_def by (intro timely_intros)

lemma prompt_server_verify [returns_intros]: "prompt (server_verify api cr ch psk)"
  unfolding server_verify_def Let_def by (intro returns_intros timely_intros)

lemma prompt_server_authenticate [returns_intros]: "prompt (server_authenticate api cr psk tp)"
  unfolding server_authenticate_def Let_def by (intro returns_intros timely_intros)

lemma patient_server_verify [patient_intros]: "patient (server_verify api cr ch psk)"
  unfolding server_verify_def Let_def by (intro patient_intros timely_intros)

lemma patient_server_authenticate [patient_intros]: "patient (server_authenticate api cr psk tp)"
  unfolding server_authenticate_def Let_def by (intro patient_intros timely_intros)

lemma timely_client_verdict [timely_intros]: "timely (client_verdict api)"
  unfolding client_verdict_def by (intro timely_intros)

lemma timely_client_authenticate [timely_intros]: "timely (client_authenticate api cr psk)"
  unfolding client_authenticate_def by (intro timely_intros)

lemma prompt_client_verdict [returns_intros]: "prompt (client_verdict api)"
  unfolding client_verdict_def by (intro returns_intros timely_intros)

lemma prompt_client_authenticate [returns_intros]: "prompt (client_authenticate api cr psk)"
  unfolding client_authenticate_def by (intro returns_intros timely_intros)

subsection \<open>Shape of the two functions\<close>

text \<open>The server uses its stream only for reading 129 bytes, writing and flushing.\<close>

lemma server_authenticate_cong:
  assumes "io_read_exact api 129 = io_read_exact api' 129" "io_write_all api = io_write_all api'"
    "io_flush api = io_flush api'"
  shows "server_authenticate api = server_authenticate api'"
  unfolding server_authenticate_def [abs_def] server_verify_def [abs_def] assms ..

lemma server_authenticate_unfold:
  assumes "crypto_ok cr" "getrandom_fill cr 32 = Inr rnd"
  shows "server_authenticate api cr psk tp =
    try_async (await_io (io_write_all api (request_text (server_challenge cr rnd tp)))) (\<lambda>_.
    try_async (await_io (io_flush api)) (\<lambda>_.
    server_verify api cr (server_challenge cr rnd tp) psk))"
proof -
  have "\<not> CHALLENGE_REQUEST_BUFFER_LENGTH < length (request_text (server_challenge cr rnd tp))"
    using server_challenge_clean(1) [OF assms, of tp]
    by (simp add: CHALLENGE_REQUEST_BUFFER_LENGTH_def)
  with assms(2) show ?thesis
    unfolding server_authenticate_def Let_def
    by (simp add: generate_random_bytes_def server_challenge_def)
qed

text \<open>The server waits at most five times for its stream.\<close>

lemma within_server_verify:
  assumes "swift_calls api lag"
  shows "within (3 * lag) (server_verify api cr ch psk)"
proof -
  have reply: "within (2 * lag) (try_async (await_io (io_write_all api b)) (\<lambda>_.
      try_async (await_io (io_flush api)) (\<lambda>_. ret r)))" for b and r :: "error + unit"
    by (rule within_mono [OF within_try [OF within_calls(3) [OF assms]
          within_try [OF within_calls(4) [OF assms] within_ret [of 0]]]]) simp
  have verdict: "within (2 * lag) (try_async (ret (ok_or FromUtf8 (from_utf8 buf))) (\<lambda>text.
      if trim_end text = auth_response cr ch psk
      then try_async (await_io (io_write_all api (''HAPPY'' @ [newline]))) (\<lambda>_.
        try_async (await_io (io_flush api)) (\<lambda>_. ret (Inr ())))
      else try_async (await_io (io_write_all api (''BAD'' @ [newline]))) (\<lambda>_.
        try_async (await_io (io_flush api)) (\<lambda>_.
        ret (Inl (Msg ''Authentication failed: response mismatch''))))))" for buf
    by (rule within_mono [OF within_try [OF within_ret [of 0], of "2 * lag"]]) (auto intro: reply)
  show ?thesis
    unfolding server_verify_def Let_def
    by (rule within_mono [OF within_try [OF within_calls(2) [OF assms] verdict]]) simp
qed

lemma within_server_authenticate:
  assumes "swift_calls api lag" "crypto_ok cr" "getrandom_fill cr 32 = Inr rnd"
  shows "within (5 * lag) (server_authenticate api cr psk tp)"
  unfolding server_authenticate_unfold [OF assms(2,3)]
  by (rule within_mono [OF within_try [OF within_calls(3) [OF assms(1)]
        within_try [OF within_calls(4) [OF assms(1)] within_server_verify [OF assms(1)]]]]) simp

subsection \<open>Behaviour on a stream that keeps its contract\<close>

context chunk_stream
begin

lemma write_flush_step:
  assumes "deadline t = None"
  shows "\<exists>t'. try_async (await_io (io_write_all api b))
        (\<lambda>_. try_async (await_io (io_flush api)) (\<lambda>_. k)) t = k t' \<and>
    deadline t' = None \<and> rx (strm t') = rx (strm t) \<and> tx (strm t') = tx (strm t) @ b"
proof -
  obtain t1 where t1: "await (io_write_all api b) t = Some (Fin (Inr ()) t1)"
    "deadline t1 = None" "rx (strm t1) = rx (strm t)" "tx (strm t1) = tx (strm t) @ b"
    using write_step [OF assms] by blast
  obtain t2 where t2: "await (io_flush api) t1 = Some (Fin (Inr ()) t2)"
    "deadline t2 = None" "rx (strm t2) = rx (strm t1)" "tx (strm t2) = tx (strm t1)"
    using flush_step [OF t1(2)] by blast
  have "try_async (await_io (io_write_all api b))
      (\<lambda>_. try_async (await_io (io_flush api)) (\<lambda>_. k)) t = k t2"
    by (simp add: try_async_apply await_io_ok [OF t1(1)] await_io_ok [OF t2(1)])
  with t1 t2 show ?thesis by auto
qed

lemma server_verify_run:
  assumes t: "deadline t = None" and ne: "[] \<notin> set (rx (strm t))"
    and len: "129 \<le> length (concat (rx (strm t)))"
    and dec: "from_utf8 (take 129 (concat (rx (strm t)))) = Some text"
    and good: "good \<longleftrightarrow> trim_end text = auth_response cr ch psk"
  shows "\<exists>t'. server_verify api cr ch psk t =
      Some (Fin (if good then Inr () else Inl (Msg ''Authentication failed: response mismatch'')) t') \<and>
    deadline t' = None \<and> rx (strm t') = drop_chunks 129 (rx (strm t)) \<and>
    tx (strm t') = tx (strm t) @ (if good then ''HAPPY'' else ''BAD'') @ [newline]"
proof -
  obtain t1 where t1: "await (io_read_exact api 129) t =
      Some (Fin (Inr (take 129 (concat (rx (strm t))))) t1)" "deadline t1 = None"
    "rx (strm t1) = drop_chunks 129 (rx (strm t))" "tx (strm t1) = tx (strm t)"
    using read_exact_step [OF t ne len] by auto
  have run: "server_verify api cr ch psk t = (if good
      then try_async (await_io (io_write_all api (''HAPPY'' @ [newline]))) (\<lambda>_.
        try_async (await_io (io_flush api)) (\<lambda>_. ret (Inr ())))
      else try_async (await_io (io_write_all api (''BAD'' @ [newline]))) (\<lambda>_.
        try_async (await_io (io_flush api)) (\<lambda>_.
        ret (Inl (Msg ''Authentication failed: response mismatch''))))) t1"
    unfolding server_verify_def Let_def using dec good
    by (simp add: try_async_apply [of "await_io (io_read_exact api 129)"] await_io_ok [OF t1(1)])
  show ?thesis
  proof (cases good)
    case True
    with write_flush_step [OF t1(2), of "''HAPPY'' @ [newline]" "ret (Inr ())"] t1 run
    show ?thesis by (auto simp: ret_def)
  next
    case False
    with write_flush_step [OF t1(2), of "''BAD'' @ [newline]"
        "ret (Inl (Msg ''Authentication failed: response mismatch''))"] t1 run
    show ?thesis by (auto simp: ret_def)
  qed
qed

lemma server_authenticate_start:
  assumes cr: "crypto_ok cr" and rnd: "getrandom_fill cr 32 = Inr rnd" and t: "deadline t = None"
  shows "\<exists>t'. server_authenticate api cr psk tp t =
      server_verify api cr (server_challenge cr rnd tp) psk t' \<and>
    deadline t' = None \<and> rx (strm t') = rx (strm t) \<and>
    tx (strm t') = tx (strm t) @ request_text (server_challenge cr rnd tp)"
  unfolding server_authenticate_unfold [OF cr rnd] by (rule write_flush_step [OF t])

lemma server_authenticate_run:
  assumes cr: "crypto_ok cr" and rnd: "getrandom_fill cr 32 = Inr rnd"
    and t: "deadline t = None" and ne: "[] \<notin> set (rx (strm t))"
    and len: "129 \<le> length (concat (rx (strm t)))"
    and dec: "from_utf8 (take 129 (concat (rx (strm t)))) = Some text"
    and good: "good \<longleftrightarrow> trim_end text = auth_response cr (server_challenge cr rnd tp) psk"
  shows "\<exists>t'. server_authenticate api cr psk tp t =
      Some (Fin (if good then Inr () else Inl (Msg ''Authentication failed: response mismatch'')) t') \<and>
    deadline t' = None \<and> rx (strm t') = drop_chunks 129 (rx (strm t)) \<and>
    tx (strm t') = tx (strm t) @ request_text (server_challenge cr rnd tp) @
      (if good then ''HAPPY'' else ''BAD'') @ [newline]"
proof -
  obtain t1 where t1: "server_authenticate api cr psk tp t =
      server_verify api cr (server_challenge cr rnd tp) psk t1" "deadline t1 = None"
    "rx (strm t1) = rx (strm t)"
    "tx (strm t1) = tx (strm t) @ request_text (server_challenge cr rnd tp)"
    using server_authenticate_start [OF cr rnd t] by blast
  have "129 \<le> length (concat (rx (strm t1)))" "[] \<notin> set (rx (strm t1))"
    "from_utf8 (take 129 (concat (rx (strm t1)))) = Some text"
    using ne len dec t1(3) by simp_all
  from server_verify_run [OF t1(2) this(2,1,3) good] t1 show ?thesis by auto
qed

lemma client_authenticate_run:
  assumes t: "deadline t = None"
    and rx: "rx (strm t) = [request_text ch, reply]"
    and ch: "ascii ch" "newline \<notin> set ch" "CHR 0x0D \<notin> set ch"
    and len: "length (request_text ch) \<le> 256"
    and reply: "reply \<noteq> []" "length reply \<le> 16" "ascii reply"
  shows "\<exists>t'. client_authenticate api cr psk t =
      Some (Fin (if starts_with reply ''HAPPY'' then Inr ()
        else Inl (Msg (''Server rejected authentication: '' @ trim reply))) t') \<and>
    tx (strm t') = tx (strm t) @ auth_response cr ch psk @ [newline]"
proof -
  have ne: "request_text ch \<noteq> []" by (simp add: request_text_def)
  obtain t1 where t1: "await (io_read api CHALLENGE_REQUEST_BUFFER_LENGTH) t =
      Some (Fin (Inr (request_text ch)) t1)" "deadline t1 = None"
    "rx (strm t1) = [reply]" "tx (strm t1) = tx (strm t)"
    using read_step [OF t rx ne, of CHALLENGE_REQUEST_BUFFER_LENGTH] len
    by (auto simp: CHALLENGE_REQUEST_BUFFER_LENGTH_def)
  have "client_authenticate api cr psk t = try_async (await_io (io_write_all api
      (auth_response cr ch psk @ [newline]))) (\<lambda>_. try_async (await_io (io_flush api)) (\<lambda>_. client_verdict api)) t1"
    unfolding client_authenticate_def
    by (simp add: try_async_apply [of "await_io (io_read api CHALLENGE_REQUEST_BUFFER_LENGTH)"]
        await_io_ok [OF t1(1)] from_utf8_ascii ascii_request ch lines_request)
  then obtain t2 where t2: "client_authenticate api cr psk t = client_verdict api t2" "deadline t2 = None"
    "rx (strm t2) = [reply]" "tx (strm t2) = tx (strm t) @ auth_response cr ch psk @ [newline]"
    using write_flush_step [OF t1(2), of "auth_response cr ch psk @ [newline]" "client_verdict api"] t1 by auto
  obtain t3 where t3: "await (io_read api 16) t2 = Some (Fin (Inr reply) t3)"
    "tx (strm t3) = tx (strm t2)"
    using read_step [OF t2(2,3) reply(1,2)] by blast
  have "client_verdict api t2 = Some (Fin (if starts_with reply ''HAPPY'' then Inr ()
      else Inl (Msg (''Server rejected authentication: '' @ trim reply))) t3)"
    unfolding client_verdict_def using reply(3)
    by (simp add: try_async_apply await_io_ok [OF t3(1)] from_utf8_ascii ret_def)
  with t2 t3 show ?thesis by auto
qed

lemma server_authenticate_eof:
  assumes cr: "crypto_ok cr" and rnd: "getrandom_fill cr 32 = Inr rnd"
    and t: "deadline t = None" and ne: "[] \<notin> set (rx (strm t))"
    and len: "length (concat (rx (strm t))) < 129"
  shows "\<exists>t' m. server_authenticate api cr psk tp t =
      Some (Fin (Inl (FromIo (IoError UnexpectedEof m))) t') \<and>
    tx (strm t') = tx (strm t) @ request_text (server_challenge cr rnd tp)"
proof -
  obtain t1 where t1: "server_authenticate api cr psk tp t =
      server_verify api cr (server_challenge cr rnd tp) psk t1" "deadline t1 = None"
    "rx (strm t1) = rx (strm t)"
    "tx (strm t1) = tx (strm t) @ request_text (server_challenge cr rnd tp)"
    using server_authenticate_start [OF cr rnd t] by blast
  obtain t2 m where t2: "await (io_read_exact api 129) t1 =
      Some (Fin (Inl (IoError UnexpectedEof m)) t2)" "tx (strm t2) = tx (strm t1)"
    using read_exact_short_step [OF t1(2), of 129] ne len t1(3) by auto
  have "await_io (io_read_exact api 129) t1 =
      Some (Fin (Inl (FromIo (IoError UnexpectedEof m))) t2)"
    using t2(1) by (rule await_io_err)
  with t1 t2 show ?thesis by (auto simp: try_async_apply server_verify_def)
qed

lemma server_authenticate_not_utf8:
  assumes cr: "crypto_ok cr" and rnd: "getrandom_fill cr 32 = Inr rnd"
    and t: "deadline t = None" and ne: "[] \<notin> set (rx (strm t))"
    and len: "129 \<le> length (concat (rx (strm t)))"
    and dec: "\<not> valid_utf8 (take 129 (concat (rx (strm t))))"
  shows "\<exists>t'. server_authenticate api cr psk tp t = Some (Fin (Inl FromUtf8) t') \<and>
    tx (strm t') = tx (strm t) @ request_text (server_challenge cr rnd tp)"
proof -
  obtain t1 where t1: "server_authenticate api cr psk tp t =
      server_verify api cr (server_challenge cr rnd tp) psk t1" "deadline t1 = None"
    "rx (strm t1) = rx (strm t)"
    "tx (strm t1) = tx (strm t) @ request_text (server_challenge cr rnd tp)"
    using server_authenticate_start [OF cr rnd t] by blast
  obtain t2 where t2: "await (io_read_exact api 129) t1 =
      Some (Fin (Inr (take 129 (concat (rx (strm t1))))) t2)" "tx (strm t2) = tx (strm t1)"
    using read_exact_step [OF t1(2), of 129] ne len t1(3) by auto
  have "server_verify api cr (server_challenge cr rnd tp) psk t1 = Some (Fin (Inl FromUtf8) t2)"
    using dec t1(3)
    by (simp add: server_verify_def try_async_apply await_io_ok [OF t2(1)] from_utf8_def ret_def)
  with t1 t2 show ?thesis by auto
qed

lemma client_authenticate_split_prompt:
  assumes t: "deadline t = None" and rx: "rx (strm t) = (auth_prompt @ [newline]) # cs"
  shows "\<exists>t'. client_authenticate api cr psk t =
      Some (Fin (Inl (Msg ''Missing challenge in authentication message'')) t') \<and>
    tx (strm t') = tx (strm t)"
proof -
  obtain t1 where t1: "await (io_read api CHALLENGE_REQUEST_BUFFER_LENGTH) t =
      Some (Fin (Inr (auth_prompt @ [newline])) t1)" "tx (strm t1) = tx (strm t)"
    using read_step [OF t rx, of CHALLENGE_REQUEST_BUFFER_LENGTH]
    by (auto simp: CHALLENGE_REQUEST_BUFFER_LENGTH_def)
  have "lines (auth_prompt @ newline # []) = [auth_prompt]"
    using lines_line [of auth_prompt "[]"] by simp
  moreover have "from_utf8 (auth_prompt @ [newline]) = Some (auth_prompt @ [newline])"
    by (rule from_utf8_ascii) simp
  ultimately have "client_authenticate api cr psk t =
      Some (Fin (Inl (Msg ''Missing challenge in authentication message'')) t1)"
    unfolding client_authenticate_def
    by (simp add: try_async_apply await_io_ok [OF t1(1)] ret_def)
  with t1 show ?thesis by blast
qed

end

subsection \<open>Safety on any stream\<close>

text \<open>
  The server accepts only after reading 129 bytes that, as text without trailing white space,
  are the response to the challenge it sent under its own key.
\<close>

lemma server_verify_accept_inv:
  assumes run: "server_verify api cr ch psk t = Some (Fin (Inr ()) t')"
  shows "\<exists>buf s' d. io_read_exact api 129 (strm t) = (Ready_in d (Inr buf), s') \<and>
    valid_utf8 buf \<and> trim_end buf = auth_response cr ch psk"
proof -
  from run obtain buf t1 where read: "await_io (io_read_exact api 129) t = Some (Fin (Inr buf) t1)"
    and rest: "try_async (ret (ok_or FromUtf8 (from_utf8 buf))) (\<lambda>text.
      if trim_end text = auth_response cr ch psk
      then try_async (await_io (io_write_all api (''HAPPY'' @ [newline]))) (\<lambda>_.
        try_async (await_io (io_flush api)) (\<lambda>_. ret (Inr ())))
      else try_async (await_io (io_write_all api (''BAD'' @ [newline]))) (\<lambda>_.
        try_async (await_io (io_flush api)) (\<lambda>_.
        ret (Inl (Msg ''Authentication failed: response mismatch''))))) t1 = Some (Fin (Inr ()) t')"
    unfolding server_verify_def Let_def by (rule try_async_InrE)
  from rest have utf8: "valid_utf8 buf"
    by (auto simp: from_utf8_def ret_def split: if_splits)
  have "trim_end buf = auth_response cr ch psk"
  proof (rule ccontr)
    assume "trim_end buf \<noteq> auth_response cr ch psk"
    with rest utf8 have "try_async (await_io (io_write_all api (''BAD'' @ [newline]))) (\<lambda>_.
        try_async (await_io (io_flush api)) (\<lambda>_.
        ret (Inl (Msg ''Authentication failed: response mismatch'') :: error + unit))) t1 =
        Some (Fin (Inr ()) t')"
      by (simp add: from_utf8_def)
    then show False by (elim try_async_InrE) (simp add: ret_def)
  qed
  with read utf8 show ?thesis by (blast elim: await_io_InrE)
qed

lemma server_accept_inv:
  assumes run: "server_authenticate api cr psk tp t = Some (Fin (Inr ()) t')"
  shows "\<exists>rnd buf s1 s2 s3 d1 d2 d3. getrandom_fill cr 32 = Inr rnd \<and>
    io_write_all api (request_text (server_challenge cr rnd tp)) (strm t) =
      (Ready_in d1 (Inr ()), s1) \<and>
    io_flush api s1 = (Ready_in d2 (Inr ()), s2) \<and>
    io_read_exact api 129 s2 = (Ready_in d3 (Inr buf), s3) \<and> valid_utf8 buf \<and>
    trim_end buf = auth_response cr (server_challenge cr rnd tp) psk"
proof -
  obtain rnd where rnd: "getrandom_fill cr 32 = Inr rnd"
    using run
    by (cases "getrandom_fill cr 32")
      (auto simp: server_authenticate_def generate_random_bytes_def ret_def)
  let ?ch = "server_challenge cr rnd tp"
  have "\<not> CHALLENGE_REQUEST_BUFFER_LENGTH < length (request_text ?ch)"
    using run rnd unfolding server_authenticate_def Let_def
    by (auto simp: generate_random_bytes_def server_challenge_def ret_def split: if_splits)
  with run rnd have "try_async (await_io (io_write_all api (request_text ?ch))) (\<lambda>_.
      try_async (await_io (io_flush api)) (\<lambda>_. server_verify api cr ?ch psk)) t =
      Some (Fin (Inr ()) t')"
    unfolding server_authenticate_def Let_def
    by (simp add: generate_random_bytes_def server_challenge_def)
  then obtain t1 t2 where "await_io (io_write_all api (request_text ?ch)) t = Some (Fin (Inr ()) t1)"
    "await_io (io_flush api) t1 = Some (Fin (Inr ()) t2)"
    and verify: "server_verify api cr ?ch psk t2 = Some (Fin (Inr ()) t')"
    by (auto elim!: try_async_InrE)
  then obtain d1 d2 where
    "io_write_all api (request_text ?ch) (strm t) = (Ready_in d1 (Inr ()), strm t1)"
    "io_flush api (strm t1) = (Ready_in d2 (Inr ()), strm t2)"
    by (auto elim!: await_io_InrE)
  with server_verify_accept_inv [OF verify] rnd show ?thesis by blast
qed

lemma try_write_flush_Inl:
  assumes "try_async (await_io (io_write_all api b)) (\<lambda>_.
      try_async (await_io (io_flush api)) (\<lambda>_. ret r)) t = Some (Fin (Inl e) t')"
  shows "(\<exists>x. e = FromIo x) \<or> r = Inl e"
  using assms
proof (cases rule: try_async_FinE)
  case (err x)
  then show ?thesis by (auto dest: await_io_Inl)
next
  case (ok a t1)
  from ok(2) show ?thesis
    by (cases rule: try_async_FinE) (auto dest: await_io_Inl simp: ret_def)
qed

lemma server_verify_errors:
  assumes "server_verify api cr ch psk t = Some (Fin (Inl e) t')"
  shows "(\<exists>x. e = FromIo x) \<or> e = FromUtf8 \<or>
    e = Msg ''Authentication failed: response mismatch''"
  using assms unfolding server_verify_def Let_def
proof (cases rule: try_async_FinE)
  case (err x)
  then show ?thesis by (auto dest: await_io_Inl)
next
  case (ok buf t1)
  from ok(2) show ?thesis
    by (cases "from_utf8 buf")
      (auto simp: ret_def [of "Inl FromUtf8"] dest!: try_write_flush_Inl split: if_splits)
qed

text \<open>The same code on a stream whose answer comes later.\<close>

definition delay_ready :: "nat \<Rightarrow> 'a ready \<Rightarrow> 'a ready" where
  "delay_ready d r = (case r of Ready_in e a \<Rightarrow> Ready_in (e + d) a | Never \<Rightarrow> Never)"

definition delayed_answer :: "nat \<Rightarrow> 's io_api \<Rightarrow> 's io_api" where
  "delayed_answer d api =
     api\<lparr>io_read_exact := (\<lambda>n s. apfst (delay_ready d) (io_read_exact api n s))\<rparr>"

lemma chunk_stream_delayed:
  assumes "chunk_stream api rx tx"
  shows "chunk_stream (delayed_answer d api) rx tx"
proof -
  have exact_full: "\<exists>d' s'. io_read_exact (delayed_answer d api) n s =
      (Ready_in d' (Inr (take n (concat (rx s)))), s') \<and>
      rx s' = drop_chunks n (rx s) \<and> tx s' = tx s"
    if "[] \<notin> set (rx s)" "n \<le> length (concat (rx s))" for s n
    using chunk_stream.io_read_exact_full [OF assms that]
    by (auto simp: delayed_answer_def delay_ready_def)
  have exact_short: "\<exists>d' s' m. io_read_exact (delayed_answer d api) n s =
      (Ready_in d' (Inl (IoError UnexpectedEof m)), s') \<and> tx s' = tx s"
    if "[] \<notin> set (rx s)" "length (concat (rx s)) < n" for s n
    using chunk_stream.io_read_exact_short [OF assms that]
    by (fastforce simp: delayed_answer_def delay_ready_def)
  have same: "io_read (delayed_answer d api) = io_read api"
    "io_read_until (delayed_answer d api) = io_read_until api"
    "io_write_all (delayed_answer d api) = io_write_all api"
    "io_flush (delayed_answer d api) = io_flush api"
    by (simp_all add: delayed_answer_def)
  show ?thesis
    using assms exact_full exact_short unfolding chunk_stream_def same by blast
qed

lemma server_verify_duration:
  assumes t: "deadline t = None"
    and run: "server_verify (delayed_answer d api) cr ch psk t = Some (Fin r t')"
  shows "now t + d \<le> now t'"
proof -
  have read: "now t + d \<le> now t1 \<and> deadline t1 = None"
    if "await_io (io_read_exact (delayed_answer d api) 129) t = Some (Fin x t1)" for x t1
    using that t
    by (auto elim!: await_io_FinE simp: delayed_answer_def delay_ready_def split: ready.splits
        simp: apfst_def map_prod_def split: prod.splits)
  from run show ?thesis
    unfolding server_verify_def
  proof (cases rule: try_async_FinE)
    case (err e)
    with read show ?thesis by blast
  next
    case (ok buf t1)
    have "timely (try_async (ret (ok_or FromUtf8 (from_utf8 buf))) (\<lambda>text.
        let client_response = trim_end text; expected_response = auth_response cr ch psk in
        if client_response = expected_response
        then try_async (await_io (io_write_all (delayed_answer d api) (''HAPPY'' @ [newline]))) (\<lambda>_.
          try_async (await_io (io_flush (delayed_answer d api))) (\<lambda>_. ret (Inr ())))
        else try_async (await_io (io_write_all (delayed_answer d api) (''BAD'' @ [newline]))) (\<lambda>_.
          try_async (await_io (io_flush (delayed_answer d api))) (\<lambda>_.
          ret (Inl (Msg ''Authentication failed: response mismatch''))))))"
      unfolding Let_def by (intro timely_intros)
    from timely_FinD [OF this _ ok(2)] read [OF ok(1)] show ?thesis
      by (simp add: in_time_def)
  qed
qed

subsection \<open>Properties\<close>

text \<open>
  C11: when both sides have the same key, the handshake succeeds on both: reading exactly what
  the other side wrote, the server writes its request and \<open>HAPPY\<close> and returns \<open>Ok\<close>, and the
  client writes the response and returns \<open>Ok\<close>.
\<close>

theorem handshake_same_psk:
  assumes S: "chunk_stream sapi srx stx" and C: "chunk_stream capi crx ctx"
    and cr: "crypto_ok cr" and rnd: "getrandom_fill cr 32 = Inr rnd"
    and ch: "ch = server_challenge cr rnd tp"
    and ts: "deadline ts = None" "srx (strm ts) = [auth_response cr ch psk @ [newline]]"
    and tc: "deadline tc = None" "crx (strm tc) = [request_text ch, ''HAPPY'' @ [newline]]"
  shows "\<exists>ts' tc'.
    server_authenticate sapi cr psk tp ts = Some (Fin (Inr ()) ts') \<and>
    stx (strm ts') = stx (strm ts) @ request_text ch @ ''HAPPY'' @ [newline] \<and>
    client_authenticate capi cr psk tc = Some (Fin (Inr ()) tc') \<and>
    ctx (strm tc') = ctx (strm tc) @ auth_response cr ch psk @ [newline]"
proof -
  note resp = auth_response_text [OF cr, of ch psk]
  note clean = server_challenge_clean [OF cr rnd, of tp, folded ch]
  have "from_utf8 (auth_response cr ch psk @ [newline]) = Some (auth_response cr ch psk @ [newline])"
    using hex_text(1) [OF resp(2)] by (intro from_utf8_ascii) simp
  then obtain ts' where "server_authenticate sapi cr psk tp ts = Some (Fin (Inr ()) ts')"
    "stx (strm ts') = stx (strm ts) @ request_text ch @ ''HAPPY'' @ [newline]"
    using chunk_stream.server_authenticate_run
      [OF S cr rnd ts(1), of "auth_response cr ch psk @ [newline]" True tp psk]
      trim_end_response [OF cr, of ch psk] resp(1) ts(2) ch by auto
  moreover obtain tc' where "client_authenticate capi cr psk tc = Some (Fin (Inr ()) tc')"
    "ctx (strm tc') = ctx (strm tc) @ auth_response cr ch psk @ [newline]"
    using chunk_stream.client_authenticate_run [OF C tc clean(2-4), of cr psk] clean(1) by auto
  ultimately show ?thesis by blast
qed

theorem handshake_same_psk_witness:
  "\<exists>ts' tc'.
    server_authenticate pipe_api sample_crypto ''key'' (\<lambda>_. 0)
      (pipe_task [auth_response sample_crypto
        (server_challenge sample_crypto (replicate 32 (CHR 0x2A)) (\<lambda>_. 0)) ''key'' @ [newline]]) =
      Some (Fin (Inr ()) ts') \<and>
    client_authenticate pipe_api sample_crypto ''key''
      (pipe_task [request_text (server_challenge sample_crypto (replicate 32 (CHR 0x2A)) (\<lambda>_. 0)),
        ''HAPPY'' @ [newline]]) = Some (Fin (Inr ()) tc')"
proof -
  have "getrandom_fill sample_crypto 32 = Inr (replicate 32 (CHR 0x2A))"
    by (simp add: sample_crypto_def)
  from handshake_same_psk [where tp = "\<lambda>_. 0" and psk = "''key''", OF pipe_chunk_stream
      pipe_chunk_stream sample_crypto_ok this refl pipe_task_simps(2,3) pipe_task_simps(2,3)]
  show ?thesis by blast
qed

text \<open>
  C12: when the keys differ in their response to the challenge, the server answers \<open>BAD\<close>,
  never \<open>HAPPY\<close>, and both sides return an error.
\<close>

theorem handshake_different_psk:
  assumes S: "chunk_stream sapi srx stx" and C: "chunk_stream capi crx ctx"
    and cr: "crypto_ok cr" and rnd: "getrandom_fill cr 32 = Inr rnd"
    and ch: "ch = server_challenge cr rnd tp"
    and differ: "auth_response cr ch psk_c \<noteq> auth_response cr ch psk_s"
    and ts: "deadline ts = None" "srx (strm ts) = [auth_response cr ch psk_c @ [newline]]"
    and tc: "deadline tc = None" "crx (strm tc) = [request_text ch, ''BAD'' @ [newline]]"
  shows "\<exists>ts' tc'.
    server_authenticate sapi cr psk_s tp ts =
      Some (Fin (Inl (Msg ''Authentication failed: response mismatch'')) ts') \<and>
    stx (strm ts') = stx (strm ts) @ request_text ch @ ''BAD'' @ [newline] \<and>
    client_authenticate capi cr psk_c tc =
      Some (Fin (Inl (Msg ''Server rejected authentication: BAD'')) tc') \<and>
    ctx (strm tc') = ctx (strm tc) @ auth_response cr ch psk_c @ [newline]"
proof -
  note resp = auth_response_text [OF cr, of ch psk_c]
  note clean = server_challenge_clean [OF cr rnd, of tp, folded ch]
  have "from_utf8 (auth_response cr ch psk_c @ [newline]) = Some (auth_response cr ch psk_c @ [newline])"
    using hex_text(1) [OF resp(2)] by (intro from_utf8_ascii) simp
  then obtain ts' where "server_authenticate sapi cr psk_s tp ts =
      Some (Fin (Inl (Msg ''Authentication failed: response mismatch'')) ts')"
    "stx (strm ts') = stx (strm ts) @ request_text ch @ ''BAD'' @ [newline]"
    using chunk_stream.server_authenticate_run
      [OF S cr rnd ts(1), of "auth_response cr ch psk_c @ [newline]" False tp psk_s]
      trim_end_response [OF cr, of ch psk_c] resp(1) ts(2) ch differ by auto
  moreover have "trim (''BAD'' @ [newline]) = ''BAD''"
    by (simp add: trim_def trim_start_plain plain_byte_def trim_end_newline
        [of "''BAD''", simplified])
  then obtain tc' where "client_authenticate capi cr psk_c tc =
      Some (Fin (Inl (Msg ''Server rejected authentication: BAD'')) tc')"
    "ctx (strm tc') = ctx (strm tc) @ auth_response cr ch psk_c @ [newline]"
    using chunk_stream.client_authenticate_run [OF C tc clean(2-4), of cr psk_c] clean(1) by auto
  ultimately show ?thesis by blast
qed

theorem handshake_different_psk_witness:
  "\<exists>ts' tc'.
    server_authenticate pipe_api sample_crypto ''key'' (\<lambda>_. 0)
      (pipe_task [auth_response sample_crypto
        (server_challenge sample_crypto (replicate 32 (CHR 0x2A)) (\<lambda>_. 0)) ''kez'' @ [newline]]) =
      Some (Fin (Inl (Msg ''Authentication failed: response mismatch'')) ts') \<and>
    client_authenticate pipe_api sample_crypto ''kez''
      (pipe_task [request_text (server_challenge sample_crypto (replicate 32 (CHR 0x2A)) (\<lambda>_. 0)),
        ''BAD'' @ [newline]]) =
      Some (Fin (Inl (Msg ''Server rejected authentication: BAD'')) tc')"
proof -
  have rnd: "getrandom_fill sample_crypto 32 = Inr (replicate 32 (CHR 0x2A))"
    by (simp add: sample_crypto_def)
  have "auth_response sample_crypto ch ''kez'' \<noteq> auth_response sample_crypto ch ''key''" for ch
    by (simp add: auth_response_def sample_crypto_def padded_digest_def hex_lower_def hex_char_def)
  from handshake_different_psk [where tp = "\<lambda>_. 0" and psk_s = "''key''" and psk_c = "''kez''",
      OF pipe_chunk_stream pipe_chunk_stream sample_crypto_ok rnd refl this
      pipe_task_simps(2,3) pipe_task_simps(2,3)]
  show ?thesis by blast
qed

text \<open>
  C2: on any stream, the server returns \<open>Ok\<close> only if it wrote and flushed its request and the
  129 bytes it read next are valid UTF-8 that, without trailing white space, is the hexadecimal
  hash of its challenge and its key.
\<close>

theorem server_accepts_only_proof:
  assumes "server_authenticate api cr psk tp t = Some (Fin (Inr ()) t')"
  shows "\<exists>rnd buf s1 s2 s3 d1 d2 d3. getrandom_fill cr 32 = Inr rnd \<and>
    io_write_all api (request_text (server_challenge cr rnd tp)) (strm t) =
      (Ready_in d1 (Inr ()), s1) \<and>
    io_flush api s1 = (Ready_in d2 (Inr ()), s2) \<and>
    io_read_exact api 129 s2 = (Ready_in d3 (Inr buf), s3) \<and> valid_utf8 buf \<and>
    trim_end buf = auth_response cr (server_challenge cr rnd tp) psk"
  using assms by (rule server_accept_inv)

theorem server_accepts_only_proof_witness:
  "\<exists>rnd buf. getrandom_fill sample_crypto 32 = Inr rnd \<and> valid_utf8 buf \<and>
    trim_end buf = auth_response sample_crypto (server_challenge sample_crypto rnd (\<lambda>_. 0)) ''key''"
proof -
  let ?ch = "server_challenge sample_crypto (replicate 32 (CHR 0x2A)) (\<lambda>_. 0)"
  let ?r = "auth_response sample_crypto ?ch ''key'' @ [newline]"
  have rnd: "getrandom_fill sample_crypto 32 = Inr (replicate 32 (CHR 0x2A))"
    by (simp add: sample_crypto_def)
  note resp = auth_response_text [OF sample_crypto_ok, of ?ch "''key''"]
  have "from_utf8 ?r = Some ?r"
    using hex_text(1) [OF resp(2)] by (intro from_utf8_ascii) simp
  then obtain t' where "server_authenticate pipe_api sample_crypto ''key'' (\<lambda>_. 0) (pipe_task [?r]) =
      Some (Fin (Inr ()) t')"
    using chunk_stream.server_authenticate_run [OF pipe_chunk_stream sample_crypto_ok rnd,
        of "pipe_task [?r]" ?r True "\<lambda>_. 0" "''key''"]
      trim_end_response [OF sample_crypto_ok, of ?ch "''key''"] resp(1) by auto
  from server_accepts_only_proof [OF this] show ?thesis by blast
qed

text \<open>
  C35: a peer that closes before 129 bytes, or sends bytes that are no UTF-8, gets no verdict:
  the server returns the read or decoding error having written only its request.
\<close>

theorem server_rejects_malformed:
  assumes S: "chunk_stream api rx tx" and cr: "crypto_ok cr"
    and rnd: "getrandom_fill cr 32 = Inr rnd"
    and t: "deadline t = None" "[] \<notin> set (rx (strm t))"
    and bad: "length (concat (rx (strm t))) < 129 \<or> \<not> valid_utf8 (take 129 (concat (rx (strm t))))"
  shows "\<exists>t' e. server_authenticate api cr psk tp t = Some (Fin (Inl e) t') \<and>
    tx (strm t') = tx (strm t) @ request_text (server_challenge cr rnd tp) \<and>
    (if length (concat (rx (strm t))) < 129 then \<exists>m. e = FromIo (IoError UnexpectedEof m)
     else e = FromUtf8)"
proof (cases "length (concat (rx (strm t))) < 129")
  case True
  from chunk_stream.server_authenticate_eof [OF S cr rnd t True, of psk tp] True
  show ?thesis by fastforce
next
  case False
  with bad have "\<not> valid_utf8 (take 129 (concat (rx (strm t))))" by simp
  from chunk_stream.server_authenticate_not_utf8 [OF S cr rnd t _ this, of psk tp] False
  show ?thesis by auto
qed

theorem server_rejects_malformed_witness:
  "\<exists>t' m. server_authenticate pipe_api sample_crypto ''key'' (\<lambda>_. 0) (pipe_task [''hello'']) =
    Some (Fin (Inl (FromIo (IoError UnexpectedEof m))) t')"
proof -
  have "getrandom_fill sample_crypto 32 = Inr (replicate 32 (CHR 0x2A))"
    by (simp add: sample_crypto_def)
  from server_rejects_malformed [where t = "pipe_task [''hello'']" and psk = "''key''"
      and tp = "\<lambda>_. 0", OF pipe_chunk_stream sample_crypto_ok this]
  show ?thesis by auto
qed

text \<open>
  C36: the request always fits the client's 256-byte buffer, whatever the clock says, so with a
  working random source the server never returns the \<open>exceeds maximum length\<close> error and the
  client's first read can take the whole message.
\<close>

theorem request_always_fits:
  assumes "crypto_ok cr" "getrandom_fill cr 32 = Inr rnd"
  shows "length (request_text (server_challenge cr rnd tp)) \<le> 139 \<and>
    139 \<le> CHALLENGE_REQUEST_BUFFER_LENGTH \<and>
    server_authenticate api cr psk tp t \<noteq>
      Some (Fin (Inl (Msg ''Challenge string exceeds maximum length'')) t')"
proof -
  have "server_authenticate api cr psk tp t \<noteq>
      Some (Fin (Inl (Msg ''Challenge string exceeds maximum length'')) t')"
    (is "_ \<noteq> Some (Fin (Inl ?e) t')")
  proof
    assume "server_authenticate api cr psk tp t = Some (Fin (Inl ?e) t')"
    then have "\<exists>t1. server_verify api cr (server_challenge cr rnd tp) psk t1 =
        Some (Fin (Inl ?e) t')"
      unfolding server_authenticate_unfold [OF assms]
      by (blast elim: try_async_FinE dest: await_io_Inl)
    then show False by (auto dest: server_verify_errors)
  qed
  then show ?thesis using server_challenge_clean(1) [OF assms, of tp]
    by (simp add: CHALLENGE_REQUEST_BUFFER_LENGTH_def)
qed

theorem request_always_fits_witness:
  "length (request_text (server_challenge sample_crypto (replicate 32 (CHR 0x2A)) (\<lambda>_. 0))) \<le> 139"
proof -
  have "getrandom_fill sample_crypto 32 = Inr (replicate 32 (CHR 0x2A))"
    by (simp add: sample_crypto_def)
  from request_always_fits [OF sample_crypto_ok this] show ?thesis by blast
qed



text \<open>
  C39: the client takes the whole prompt from one read, so when the transport delivers the
  first line alone it gives up without answering, although the challenge follows.
\<close>

theorem client_needs_unsplit_prompt:
  assumes "chunk_stream api rx tx" "deadline t = None"
    "rx (strm t) = (auth_prompt @ [newline]) # cs"
  shows "\<exists>t'. client_authenticate api cr psk t =
      Some (Fin (Inl (Msg ''Missing challenge in authentication message'')) t') \<and>
    tx (strm t') = tx (strm t)"
  using assms by (rule chunk_stream.client_authenticate_split_prompt)

theorem client_needs_unsplit_prompt_witness:
  "\<exists>t'. client_authenticate pipe_api sample_crypto ''key''
      (pipe_task [auth_prompt @ [newline],
        server_challenge sample_crypto (replicate 32 (CHR 0x2A)) (\<lambda>_. 0) @ [newline]]) =
      Some (Fin (Inl (Msg ''Missing challenge in authentication message'')) t')"
  using client_needs_unsplit_prompt [OF pipe_chunk_stream pipe_task_simps(2) pipe_task_simps(3)]
  by blast

end
