(* ===== verification/Protocol_Control.thy ===== *)
theory Protocol_Control
  imports Protocol_Base Bi_Stream
begin

section \<open>Client configuration over the control channel (\<open>src/protocol/control.rs\<close>)\<close>

text \<open>
  After authentication the client sends \<open>LISTENPORT\<close> and a port as two bytes, most significant
  first.  The model follows \<open>configure_quic_client\<close>; \<open>configured_as\<close> is the specification of
  its result in terms of the bytes the client sends, however the transport splits them.
\<close>

subsection \<open>Model\<close>

record RequestedClientConfiguration =
  port :: u16

definition context_async :: "string \<Rightarrow> ('s, error + 'a) async \<Rightarrow> ('s, error + 'a) async" where
  "context_async c m = map_async (context_res c) m"

definition bad_header :: "string \<Rightarrow> error" where
  "bad_header header =
     Msg (''invalid control message header: expected 'LISTENPORT', got '' @
          [CHR 0x27] @ header @ [CHR 0x27])"

text \<open>The function owns the control channel and reads from its read half.\<close>

definition configure_quic_client ::
  "'r reader_api \<Rightarrow> (('r, 'w) BiStream, error + RequestedClientConfiguration) async" where
  "configure_quic_client ra =
     try_async (context_async ''failed to read control message header from client''
                  (await_io (on_read (rd_read_exact ra 10)))) (\<lambda>header_buf.
     try_async (ret (context_res ''control message header is not valid UTF-8''
                  (ok_or FromUtf8 (from_utf8 header_buf)))) (\<lambda>header.
     if header \<noteq> ''LISTENPORT''
     then ret (Inl (bad_header header))
     else
     try_async (context_async ''failed to read port bytes from client''
                  (await_io (on_read (rd_read_exact ra 2)))) (\<lambda>port_buf.
     ret (Inr \<lparr>port = from_be_bytes2 (port_buf ! 0) (port_buf ! 1)\<rparr>))))"

subsection \<open>Specification\<close>

text \<open>The message that asks for a port, and the result the function owes for a byte sequence.\<close>

definition listenport_message :: "u16 \<Rightarrow> bytes" where
  "listenport_message p = ''LISTENPORT'' @ to_be_bytes2 p"

definition configured_as :: "bytes \<Rightarrow> error + RequestedClientConfiguration \<Rightarrow> bool" where
  "configured_as b r \<longleftrightarrow>
     (if length b < 10
      then \<exists>m. r = Inl (Context ''failed to read control message header from client''
                          (FromIo (IoError UnexpectedEof m)))
      else if \<not> valid_utf8 (take 10 b)
      then r = Inl (Context ''control message header is not valid UTF-8'' FromUtf8)
      else if take 10 b \<noteq> ''LISTENPORT''
      then r = Inl (bad_header (take 10 b))
      else if length b < 12
      then \<exists>m. r = Inl (Context ''failed to read port bytes from client''
                          (FromIo (IoError UnexpectedEof m)))
      else r = Inr \<lparr>port = from_be_bytes2 (b ! 10) (b ! 11)\<rparr>)"

subsection \<open>Lemmas\<close>

lemma timely_context [timely_intros]: "timely m \<Longrightarrow> timely (context_async c m)"
  unfolding context_async_def by (rule timely_map)

lemma prompt_context [returns_intros]: "timely m \<Longrightarrow> prompt m \<Longrightarrow> prompt (context_async c m)"
  unfolding context_async_def by (rule prompt_map)

lemma timely_configure [timely_intros]: "timely (configure_quic_client ra)"
  unfolding configure_quic_client_def by (intro timely_intros)

lemma prompt_configure [returns_intros]: "prompt (configure_quic_client ra)"
  unfolding configure_quic_client_def by (intro returns_intros timely_intros)

lemma patient_context [patient_intros]: "timely m \<Longrightarrow> patient m \<Longrightarrow> patient (context_async c m)"
  unfolding context_async_def by (rule patient_map)

lemma patient_configure [patient_intros]: "patient (configure_quic_client ra)"
  unfolding configure_quic_client_def by (intro patient_intros timely_intros)

text \<open>The function waits at most twice for the reader.\<close>

lemma within_configure:
  fixes ra :: "'r reader_api" and wa :: "'w writer_api"
  assumes "swift_calls (BiStream_api ra wa) lag"
  shows "within (2 * lag) (configure_quic_client ra :: (('r, 'w) BiStream, _) async)"
proof -
  have read: "within lag (context_async c (await_io (on_read (rd_read_exact ra n)
      :: ('r, 'w) BiStream \<Rightarrow> _)))" for c n
    using within_map [OF within_calls(2) [OF assms, of n], of "context_res c"]
    by (simp add: context_async_def BiStream_api_def)
  have port: "within lag (try_async (context_async ''failed to read port bytes from client''
      (await_io (on_read (rd_read_exact ra 2) :: ('r, 'w) BiStream \<Rightarrow> _))) (\<lambda>port_buf.
      ret (Inr \<lparr>port = from_be_bytes2 (port_buf ! 0) (port_buf ! 1)\<rparr>)))"
    by (rule within_mono [OF within_try [OF read within_ret [of 0]]]) simp
  have rest: "within lag (try_async (ret (context_res ''control message header is not valid UTF-8''
      (ok_or FromUtf8 (from_utf8 h)))) (\<lambda>header.
      if header \<noteq> ''LISTENPORT'' then ret (Inl (bad_header header))
      else try_async (context_async ''failed to read port bytes from client''
        (await_io (on_read (rd_read_exact ra 2) :: ('r, 'w) BiStream \<Rightarrow> _))) (\<lambda>port_buf.
        ret (Inr \<lparr>port = from_be_bytes2 (port_buf ! 0) (port_buf ! 1)\<rparr>))))" for h
    by (rule within_mono [OF within_try [OF within_ret [of 0], of lag]]) (use port within_ret in auto)
  show ?thesis
    unfolding configure_quic_client_def
    by (rule within_mono [OF within_try [OF read rest]]) simp
qed

lemma context_async_apply:
  "await op t = Some (Fin x t') \<Longrightarrow>
     context_async c (await_io op) t = Some (Fin (context_res c (map_err FromIo x)) t')"
  by (simp add: context_async_def await_io_def map_async_Fin)

lemma context_await_io_InrE:
  assumes "context_async c (await_io op) t = Some (Fin (Inr a) t')"
  obtains d s where "op (strm t) = (Ready_in d (Inr a), s)"
    "t' = t\<lparr>now := now t + d, strm := s\<rparr>"
proof -
  from assms obtain x where "await_io op t = Some (Fin x t')" "Inr a = context_res c x"
    unfolding context_async_def by (rule map_async_FinE)
  then have "await_io op t = Some (Fin (Inr a) t')" by (cases x) auto
  then show thesis using that by (rule await_io_InrE)
qed

lemma listenport_message_facts:
  "length (listenport_message p) = 12" "take 10 (listenport_message p) = ''LISTENPORT''"
  "from_be_bytes2 (listenport_message p ! 10) (listenport_message p ! 11) = p"
  using from_to_be_bytes2 [of p] by (simp_all add: listenport_message_def to_be_bytes2_def)

lemma configured_as_message:
  "configured_as (listenport_message p @ rest) r \<longleftrightarrow> r = Inr \<lparr>port = p\<rparr>"
proof -
  have "valid_utf8 ''LISTENPORT''" by (rule valid_utf8_ascii) simp
  then show ?thesis
    using listenport_message_facts [of p]
    by (simp add: configured_as_def nth_append take_append)
qed

lemma configured_as_InrD:
  assumes "configured_as b (Inr c)"
  shows "take 10 b = ''LISTENPORT'' \<and> 12 \<le> length b"
  using assms by (auto simp: configured_as_def split: if_splits)

text \<open>On any reader, success needs the header.\<close>

lemma configure_accept_inv:
  assumes "configure_quic_client ra t = Some (Fin (Inr c) t')"
  shows "\<exists>d1 d2 s1 s2 port_buf.
    on_read (rd_read_exact ra 10) (strm t) = (Ready_in d1 (Inr ''LISTENPORT''), s1) \<and>
    on_read (rd_read_exact ra 2) s1 = (Ready_in d2 (Inr port_buf), s2) \<and>
    c = \<lparr>port = from_be_bytes2 (port_buf ! 0) (port_buf ! 1)\<rparr> \<and> strm t' = s2"
proof -
  from assms obtain h t1 where
    h: "context_async ''failed to read control message header from client''
      (await_io (on_read (rd_read_exact ra 10))) t = Some (Fin (Inr h) t1)"
    and rest: "try_async (ret (context_res ''control message header is not valid UTF-8''
        (ok_or FromUtf8 (from_utf8 h)))) (\<lambda>header.
      if header \<noteq> ''LISTENPORT''
      then ret (Inl (bad_header header))
      else try_async (context_async ''failed to read port bytes from client''
                  (await_io (on_read (rd_read_exact ra 2)))) (\<lambda>port_buf.
        ret (Inr \<lparr>port = from_be_bytes2 (port_buf ! 0) (port_buf ! 1)\<rparr>))) t1 =
      Some (Fin (Inr c) t')"
    unfolding configure_quic_client_def by (rule try_async_InrE)
  from rest have "h = ''LISTENPORT''"
    by (cases "from_utf8 h") (auto simp: ret_def dest: from_utf8_Some split: if_splits)
  moreover have "from_utf8 ''LISTENPORT'' = Some ''LISTENPORT''"
    by (rule from_utf8_ascii) simp
  ultimately obtain port_buf t2 where
    p: "context_async ''failed to read port bytes from client''
      (await_io (on_read (rd_read_exact ra 2))) t1 = Some (Fin (Inr port_buf) t2)"
    and c: "c = \<lparr>port = from_be_bytes2 (port_buf ! 0) (port_buf ! 1)\<rparr>" "t' = t2"
    using rest by (auto simp: ret_def elim!: try_async_InrE)
  from h p c \<open>h = _\<close> show ?thesis by (auto elim!: context_await_io_InrE)
qed

context bi_halves
begin

lemma configure_read_step:
  assumes "deadline t = None" "[] \<notin> set (chunks (bi_read (strm t)))"
    "n \<le> length (concat (chunks (bi_read (strm t))))"
  shows "\<exists>t'. await (on_read (rd_read_exact ra n)) t =
      Some (Fin (Inr (take n (concat (chunks (bi_read (strm t)))))) t') \<and> deadline t' = None \<and>
    chunks (bi_read (strm t')) = drop_chunks n (chunks (bi_read (strm t))) \<and>
    written (bi_write (strm t')) = written (bi_write (strm t))"
  using bi.read_exact_step [OF assms] by (simp add: BiStream_api_def)

lemma configure_short_step:
  assumes "deadline t = None" "[] \<notin> set (chunks (bi_read (strm t)))"
    "length (concat (chunks (bi_read (strm t)))) < n"
  shows "\<exists>t' m. await (on_read (rd_read_exact ra n)) t =
      Some (Fin (Inl (IoError UnexpectedEof m)) t') \<and>
    written (bi_write (strm t')) = written (bi_write (strm t))"
  using bi.read_exact_short_step [OF assms] by (auto simp: BiStream_api_def)

lemma configure_port_run:
  assumes t: "deadline t = None" "[] \<notin> set (chunks (bi_read (strm t)))"
    and b: "concat (chunks (bi_read (strm t))) = b"
  shows "\<exists>t' r. try_async (context_async ''failed to read port bytes from client''
      (await_io (on_read (rd_read_exact ra 2)))) (\<lambda>port_buf.
        ret (Inr \<lparr>port = from_be_bytes2 (port_buf ! 0) (port_buf ! 1)\<rparr>)) t = Some (Fin r t') \<and>
    (if length b < 2
     then \<exists>m. r = Inl (Context ''failed to read port bytes from client''
                          (FromIo (IoError UnexpectedEof m)))
     else r = Inr \<lparr>port = from_be_bytes2 (b ! 0) (b ! 1)\<rparr> \<and>
       chunks (bi_read (strm t')) = drop_chunks 2 (chunks (bi_read (strm t)))) \<and>
    written (bi_write (strm t')) = written (bi_write (strm t))"
proof (cases "length b < 2")
  case True
  with configure_short_step [OF t, of 2] b obtain t' m where
    "await (on_read (rd_read_exact ra 2)) t = Some (Fin (Inl (IoError UnexpectedEof m)) t')"
    "written (bi_write (strm t')) = written (bi_write (strm t))"
    by auto
  with True show ?thesis by (simp add: try_async_apply context_async_apply)
next
  case False
  with configure_read_step [OF t, of 2] b obtain t' where
    "await (on_read (rd_read_exact ra 2)) t = Some (Fin (Inr (take 2 b)) t')"
    "chunks (bi_read (strm t')) = drop_chunks 2 (chunks (bi_read (strm t)))"
    "written (bi_write (strm t')) = written (bi_write (strm t))"
    by auto
  with False show ?thesis by (simp add: try_async_apply context_async_apply ret_def)
qed

lemma configure_run:
  assumes t: "deadline t = None" "[] \<notin> set (chunks (bi_read (strm t)))"
  shows "\<exists>t' r. configure_quic_client ra t = Some (Fin r t') \<and>
    configured_as (concat (chunks (bi_read (strm t)))) r \<and>
    (is_ok r \<longrightarrow> chunks (bi_read (strm t')) = drop_chunks 12 (chunks (bi_read (strm t)))) \<and>
    written (bi_write (strm t')) = written (bi_write (strm t))"
proof (cases "length (concat (chunks (bi_read (strm t)))) < 10")
  case True
  with configure_short_step [OF t True] obtain t' m where
    "await (on_read (rd_read_exact ra 10)) t = Some (Fin (Inl (IoError UnexpectedEof m)) t')"
    "written (bi_write (strm t')) = written (bi_write (strm t))"
    by auto
  with True show ?thesis
    by (simp add: configure_quic_client_def try_async_apply context_async_apply configured_as_def)
next
  case False
  let ?b = "concat (chunks (bi_read (strm t)))"
  obtain t1 where t1: "await (on_read (rd_read_exact ra 10)) t = Some (Fin (Inr (take 10 ?b)) t1)"
    "deadline t1 = None" "chunks (bi_read (strm t1)) = drop_chunks 10 (chunks (bi_read (strm t)))"
    "written (bi_write (strm t1)) = written (bi_write (strm t))"
    using configure_read_step [OF t, of 10] False by auto
  note head = context_async_apply [OF t1(1)]
  show ?thesis
  proof (cases "valid_utf8 (take 10 ?b) \<and> take 10 ?b = ''LISTENPORT''")
    case True
    have ne: "[] \<notin> set (chunks (bi_read (strm t1)))"
      using t(2) t1(3) by (simp add: drop_chunks_nonempty)
    have b1: "concat (chunks (bi_read (strm t1))) = drop 10 ?b" using t1(3) by simp
    from configure_port_run [OF t1(2) ne b1] obtain t' r where r:
      "try_async (context_async ''failed to read port bytes from client''
        (await_io (on_read (rd_read_exact ra 2)))) (\<lambda>port_buf.
        ret (Inr \<lparr>port = from_be_bytes2 (port_buf ! 0) (port_buf ! 1)\<rparr>)) t1 = Some (Fin r t')"
      "if length (drop 10 ?b) < 2
       then \<exists>m. r = Inl (Context ''failed to read port bytes from client''
                            (FromIo (IoError UnexpectedEof m)))
       else r = Inr \<lparr>port = from_be_bytes2 (drop 10 ?b ! 0) (drop 10 ?b ! 1)\<rparr> \<and>
         chunks (bi_read (strm t')) = drop_chunks 2 (chunks (bi_read (strm t1)))"
      "written (bi_write (strm t')) = written (bi_write (strm t1))"
      by blast
    have "from_utf8 (take 10 ?b) = Some ''LISTENPORT''"
      using True from_utf8_ascii [of "''LISTENPORT''"] by simp
    then have "configure_quic_client ra t = Some (Fin r t')"
      unfolding configure_quic_client_def using r(1)
      by (subst try_async_apply) (simp add: head)
    moreover have "configured_as ?b r"
      using False True r(2) by (auto simp: configured_as_def split: if_splits)
    moreover have "is_ok r \<longrightarrow>
        chunks (bi_read (strm t')) = drop_chunks 12 (chunks (bi_read (strm t)))"
      using r(2) t1(3) by (auto simp: drop_chunks_add split: if_splits)
    ultimately show ?thesis using r(3) t1(4) by auto
  next
    case False': False
    let ?r = "if valid_utf8 (take 10 ?b)
      then Inl (bad_header (take 10 ?b))
      else Inl (Context ''control message header is not valid UTF-8'' FromUtf8)"
    have "configure_quic_client ra t = Some (Fin ?r t1)"
      unfolding configure_quic_client_def using False'
      by (subst try_async_apply) (auto simp: head from_utf8_def ret_def)
    moreover have "configured_as ?b ?r"
      using False False' by (auto simp: configured_as_def)
    ultimately show ?thesis using t1(4) by auto
  qed
qed

end

subsection \<open>Properties\<close>

text \<open>
  C14: the function returns on every byte sequence the client sends, in every splitting into
  chunks: it fails with the documented error of the first thing that is wrong, and otherwise
  returns the port and has read exactly twelve bytes; it never writes.
\<close>

theorem configure_result:
  assumes "bi_halves ra chunks wa written"
    and "deadline t = None" "[] \<notin> set (chunks (bi_read (strm t)))"
  shows "\<exists>t' r. configure_quic_client ra t = Some (Fin r t') \<and>
    configured_as (concat (chunks (bi_read (strm t)))) r \<and>
    (is_ok r \<longrightarrow> chunks (bi_read (strm t')) = drop_chunks 12 (chunks (bi_read (strm t)))) \<and>
    written (bi_write (strm t')) = written (bi_write (strm t))"
  using assms by (rule bi_halves.configure_run)

theorem configure_result_witness:
  "\<exists>t' r. configure_quic_client pipe_reader (pipe_task [''LISTEN'', ''PORK!!'']) = Some (Fin r t') \<and>
    r = Inl (bad_header ''LISTENPORK'')"
proof -
  have t: "deadline (pipe_task [''LISTEN'', ''PORK!!'']) = None"
    "bi_read (strm (pipe_task [''LISTEN'', ''PORK!!''])) = [''LISTEN'', ''PORK!!'']"
    by (simp_all add: pipe_task_def BiStream_new_def)
  then have "[] \<notin> set (bi_read (strm (pipe_task [''LISTEN'', ''PORK!!''])))" by simp
  from configure_result [OF pipe.bi_halves_axioms t(1) this] t(2)
  obtain t' r where run: "configure_quic_client pipe_reader (pipe_task [''LISTEN'', ''PORK!!'']) =
      Some (Fin r t')" and r: "configured_as ''LISTENPORK!!'' r" by auto
  have "valid_utf8 ''LISTENPORK''" by (rule valid_utf8_ascii) simp
  then have "r = Inl (bad_header ''LISTENPORK'')" using r by (simp add: configured_as_def)
  with run show ?thesis by blast
qed

text \<open>
  C15: a client that asks for any of the 65536 ports is understood: the port the server reads
  is the port in the message, and whatever follows the message stays in the stream.
\<close>

theorem configure_roundtrip:
  fixes wa :: "'w writer_api" and t :: "('r, 'w) BiStream task"
  assumes "bi_halves ra chunks wa written"
    and "deadline t = None" "[] \<notin> set (chunks (bi_read (strm t)))"
    and "concat (chunks (bi_read (strm t))) = listenport_message p @ rest"
  shows "\<exists>t'. configure_quic_client ra t = Some (Fin (Inr \<lparr>port = p\<rparr>) t') \<and>
    concat (chunks (bi_read (strm t'))) = rest"
proof -
  from bi_halves.configure_run [OF assms(1-3)] assms(4) obtain t' r where
    "configure_quic_client ra t = Some (Fin r t')" "r = Inr \<lparr>port = p\<rparr>"
    "is_ok r \<longrightarrow> chunks (bi_read (strm t')) = drop_chunks 12 (chunks (bi_read (strm t)))"
    by (auto simp: configured_as_message)
  with assms(4) listenport_message_facts(1) [of p] show ?thesis by auto
qed

theorem configure_roundtrip_witness:
  "\<exists>t'. configure_quic_client pipe_reader
      (pipe_task [''LIST'', ''ENPORT'' @ to_be_bytes2 8080 @ ''PING'']) =
      Some (Fin (Inr \<lparr>port = 8080\<rparr>) t') \<and> concat (bi_read (strm t')) = ''PING''"
proof -
  let ?t = "pipe_task [''LIST'', ''ENPORT'' @ to_be_bytes2 8080 @ ''PING'']"
  have t: "deadline ?t = None"
    "bi_read (strm ?t) = [''LIST'', ''ENPORT'' @ to_be_bytes2 8080 @ ''PING'']"
    by (simp_all add: pipe_task_def BiStream_new_def)
  from configure_roundtrip [OF pipe.bi_halves_axioms t(1), of 8080 "''PING''"] t(2)
  show ?thesis by (simp add: listenport_message_def)
qed

end
