(* ===== verification/Protocol_Keepalive.thy ===== *)
theory Protocol_Keepalive
  imports Protocol_Base Bi_Stream
begin

section \<open>Keepalive and control channel (\<open>src/protocol/keepalive.rs\<close>)\<close>

text \<open>
  The client sends \<open>PING\<close> on every tick and waits for \<open>PONG\<close>; the server reads lines byte by
  byte, answers \<open>PING\<close> with \<open>PONG\<close>, and ends on \<open>BYE\<close>, on anything else, on a minute of
  silence, or when its cancellation token is triggered.

  tokio's \<open>Interval\<close> is a parameter (\<open>interval_api\<close>).  The cancellation token is the instant at
  which somebody else cancels it, if ever; the loop returns with its result whether it called
  \<open>cancel()\<close> itself.  \<open>bias n\<close> says which branch tokio's \<open>select!\<close> prefers in iteration \<open>n\<close>
  when both are ready.
\<close>

subsection \<open>Model\<close>

definition READ_TIMEOUT :: nat where
  "READ_TIMEOUT = CONNECTION_KEEPALIVE_READ_TIMEOUT"

definition KEEP_ALIVE_INTERVAL :: nat where
  "KEEP_ALIVE_INTERVAL = CONNECTION_KEEPALIVE_INTERVAL"

definition PING_MESSAGE :: bytes where
  "PING_MESSAGE = ''PING'' @ [newline]"

definition PONG_MESSAGE :: bytes where
  "PONG_MESSAGE = ''PONG'' @ [newline]"

definition CONNECTION_END_MESSAGE :: bytes where
  "CONNECTION_END_MESSAGE = ''BYE'' @ [newline]"

text \<open>
  \<open>interval(period)\<close> at an instant, and \<open>tick()\<close> at an instant: how long it waits, and the
  interval afterwards.
\<close>

record 'i interval_api =
  iv_new :: "nat \<Rightarrow> nat \<Rightarrow> 'i"
  iv_tick :: "nat \<Rightarrow> 'i \<Rightarrow> nat \<times> 'i"

definition tick :: "'i interval_api \<Rightarrow> 'i \<Rightarrow> ('s, 'i) async" where
  "tick iv i t =
     (case iv_tick iv (now t) i of (d, i') \<Rightarrow> await (\<lambda>s. (Ready_in d i', s)) t)"

text \<open>What the client does with the result of the read, \<open>None\<close> being a timeout.\<close>

definition pong_received ::
  "'i \<Rightarrow> usize \<Rightarrow> (io_error + bytes) option \<Rightarrow> ('i \<times> usize, unit) ctl" where
  "pong_received tick_interval pong_count r =
     (case r of
        None \<Rightarrow> Break ()
      | Some x \<Rightarrow>
          (case x of
             Inl e \<Rightarrow> Break ()
           | Inr response_buf \<Rightarrow>
               if response_buf = [] then Break ()
               else if response_buf = PONG_MESSAGE then Continue (tick_interval, pong_count + 1)
               else Break ()))"

text \<open>One iteration of the client's loop; the state is the interval and the count of pongs.\<close>

definition keepalive_client_step ::
  "'s io_api \<Rightarrow> 'i interval_api \<Rightarrow> 'i \<times> usize \<Rightarrow> ('s, ('i \<times> usize, unit) ctl) async" where
  "keepalive_client_step api iv st =
     (case st of (tick_interval, pong_count) \<Rightarrow>
        bind_async (tick iv tick_interval) (\<lambda>tick_interval.
        bind_async (await (io_write_all api PING_MESSAGE)) (\<lambda>r.
        case r of Inl e \<Rightarrow> ret (Break ()) | Inr _ \<Rightarrow>
        bind_async (await (io_flush api)) (\<lambda>r.
        case r of Inl e \<Rightarrow> ret (Break ()) | Inr _ \<Rightarrow>
        map_async (pong_received tick_interval pong_count)
          (timeout READ_TIMEOUT (await (io_read_until api newline)))))))"

text \<open>The interval and the count of pongs with which the client enters its loop.\<close>

definition keepalive_client_start :: "'i interval_api \<Rightarrow> nat \<Rightarrow> 'i \<times> usize" where
  "keepalive_client_start iv n = (iv_new iv KEEP_ALIVE_INTERVAL n, 0)"

definition run_keepalive_client_loop ::
  "'s io_api \<Rightarrow> 'i interval_api \<Rightarrow> ('s, error + unit) async" where
  "run_keepalive_client_loop api iv t =
     map_async Inr (loop_async (keepalive_client_step api iv) (keepalive_client_start iv (now t))) t"

text \<open>The server reads up to a newline or the end of the stream, one byte per call.\<close>

definition read_message_step ::
  "'s io_api \<Rightarrow> bytes \<Rightarrow> ('s, (bytes, error + bytes) ctl) async" where
  "read_message_step api buf =
     bind_async (await_io (io_read api 1)) (\<lambda>r.
     case r of
       Inl e \<Rightarrow> ret (Break (Inl e))
     | Inr byte \<Rightarrow>
         (case byte of
            [] \<Rightarrow> ret (Break (Inr buf))
          | b # _ \<Rightarrow>
              if b = newline then ret (Break (Inr (buf @ [b])))
              else ret (Continue (buf @ [b]))))"

definition read_message :: "'s io_api \<Rightarrow> ('s, error + bytes) async" where
  "read_message api = loop_async (read_message_step api) []"

text \<open>
  One iteration of the server's loop.  The state is the number of the iteration; the loop
  breaks with \<open>True\<close> when the token is to be cancelled behind the loop, and with \<open>False\<close> for
  the early return.
\<close>

definition control_channel_step ::
  "'s io_api \<Rightarrow> (nat \<Rightarrow> bool) \<Rightarrow> nat option \<Rightarrow> nat \<Rightarrow> ('s, (nat, bool) ctl) async" where
  "control_channel_step api bias cancelled n =
     bind_async (select_cancelled (bias n) cancelled
                   (timeout (KEEP_ALIVE_INTERVAL + READ_TIMEOUT) (read_message api))) (\<lambda>read_result.
     case read_result of
       None \<Rightarrow> ret (Break False)
     | Some timed \<Rightarrow>
         (case timed of
            None \<Rightarrow> ret (Break True)
          | Some x \<Rightarrow>
              (case x of
                 Inl e \<Rightarrow> ret (Break True)
               | Inr buf \<Rightarrow>
                   if buf = [] then ret (Break True)
                   else if buf = PING_MESSAGE then
                     bind_async (await (io_write_all api PONG_MESSAGE)) (\<lambda>r.
                     case r of Inl e \<Rightarrow> ret (Break True) | Inr _ \<Rightarrow>
                     bind_async (await (io_flush api)) (\<lambda>r.
                     case r of Inl e \<Rightarrow> ret (Break True) | Inr _ \<Rightarrow>
                     ret (Continue (Suc n))))
                   else if buf = CONNECTION_END_MESSAGE then ret (Break True)
                   else ret (Break True))))"

definition run_control_channel_loop ::
  "'s io_api \<Rightarrow> (nat \<Rightarrow> bool) \<Rightarrow> nat option \<Rightarrow> ('s, (error + unit) \<times> bool) async" where
  "run_control_channel_loop api bias cancelled =
     map_async (Pair (Inr ())) (loop_async (control_channel_step api bias cancelled) 0)"

subsection \<open>Specification\<close>

text \<open>The first line of a byte sequence with its newline, or all of it if there is none.\<close>

definition line_of :: "bytes \<Rightarrow> bytes" where
  "line_of b = takeWhile (\<lambda>c. c \<noteq> newline) b @ (if newline \<in> set b then [newline] else [])"

text \<open>What ends the client's loop: the stream is closed, or the next line is not \<open>PONG\<close>.\<close>

fun no_pong :: "bytes list \<Rightarrow> bool" where
  "no_pong [] = True"
| "no_pong (c # cs) =
     (c \<noteq> [] \<and> last c = newline \<and> newline \<notin> set (butlast c) \<and> c \<noteq> PONG_MESSAGE \<and>
      length c \<le> buf_reader_capacity)"

text \<open>tokio documents that the first tick is at once and that later ones are a period apart.\<close>

locale tick_source =
  fixes iv :: "'i interval_api" and due :: "'i \<Rightarrow> nat" and period :: "'i \<Rightarrow> nat"
  assumes new_due: "due (iv_new iv p n) = n" and new_period: "period (iv_new iv p n) = p"
    and tick_wait: "fst (iv_tick iv n i) = due i - n"
    and tick_due: "due (snd (iv_tick iv n i)) = due i + period i"
    and tick_period: "period (snd (iv_tick iv n i)) = period i"

definition burst_interval :: "(nat \<times> nat) interval_api" where
  "burst_interval =
     \<lparr>iv_new = (\<lambda>p n. (n, p)), iv_tick = (\<lambda>n i. (fst i - n, (fst i + snd i, snd i)))\<rparr>"

interpretation burst: tick_source burst_interval fst snd
  by unfold_locales (simp_all add: burst_interval_def)

subsection \<open>Lines\<close>

lemma line_of_simps [simp]:
  "line_of [] = []" "line_of (newline # b) = [newline]"
  "c \<noteq> newline \<Longrightarrow> line_of (c # b) = c # line_of b"
  by (auto simp: line_of_def)

lemma line_of_line: "newline \<notin> set l \<Longrightarrow> line_of (l @ newline # b) = l @ [newline]"
  by (simp add: line_of_def takeWhile_no_split)

lemma line_of_empty_iff [simp]: "line_of b = [] \<longleftrightarrow> b = []"
  by (cases b) (auto simp: line_of_def)

lemma line_of_prefix: "\<exists>r. b = line_of b @ r"
proof (induction b)
  case (Cons c b)
  then show ?case by (cases "c = newline") auto
qed simp

lemma line_of_PING: "line_of (PING_MESSAGE @ b) = PING_MESSAGE"
  using line_of_line [of "''PING''" b] by (simp add: PING_MESSAGE_def)

lemma line_of_eq_PING_iff: "line_of b = PING_MESSAGE \<longleftrightarrow> starts_with b PING_MESSAGE"
proof
  assume "line_of b = PING_MESSAGE"
  then show "starts_with b PING_MESSAGE" using line_of_prefix [of b] by (auto simp: starts_with_iff)
next
  assume "starts_with b PING_MESSAGE"
  then show "line_of b = PING_MESSAGE" using line_of_PING by (auto simp: starts_with_iff)
qed

lemma length_PING [simp]: "length PING_MESSAGE = 5"
  by (simp add: PING_MESSAGE_def)

subsection \<open>Reading a message\<close>

context swift_stream
begin

lemma read_message_run:
  assumes "[] \<notin> set (rx (strm t))" "concat (rx (strm t)) = b"
    and "room t ((length (line_of b) + 1) * lag)"
  shows "\<exists>t'. loop_async (read_message_step api) buf t = Some (Fin (Inr (buf @ line_of b)) t') \<and>
    deadline t' = deadline t \<and> now t \<le> now t' \<and>
    now t' \<le> now t + (length (line_of b) + 1) * lag \<and>
    [] \<notin> set (rx (strm t')) \<and> concat (rx (strm t')) = drop (length (line_of b)) b \<and>
    tx (strm t') = tx (strm t)"
  using assms
proof (induction b arbitrary: t buf)
  case Nil
  then have rx: "rx (strm t) = []" by (cases "rx (strm t)") auto
  have "room t lag" using Nil.prems(3) by simp
  then obtain t' where t': "await (io_read api 1) t = Some (Fin (Inr []) t')"
    "deadline t' = deadline t" "now t \<le> now t'" "now t' \<le> now t + lag" "rx (strm t') = []"
    "tx (strm t') = tx (strm t)"
    using swift_eof_step [OF _ rx] by blast
  have "read_message_step api buf t = Some (Fin (Break (Inr buf)) t')"
    by (simp add: read_message_step_def bind_async_apply await_io_ok [OF t'(1), simplified] ret_def)
  from loop_async_Break [of "read_message_step api", OF this] t' show ?case by auto
next
  case (Cons c b)
  have "room t lag" by (rule room_mono [OF Cons.prems(3)]) simp
  then obtain t1 where t1: "await (io_read api 1) t = Some (Fin (Inr [c]) t1)"
    "deadline t1 = deadline t" "now t \<le> now t1" "now t1 \<le> now t + lag"
    "[] \<notin> set (rx (strm t1))" "concat (rx (strm t1)) = b" "tx (strm t1) = tx (strm t)"
    using swift_byte_step [OF _ Cons.prems(1,2)] by blast
  note step = bind_async_apply await_io_ok [OF t1(1), simplified]
  show ?case
  proof (cases "c = newline")
    case True
    then have "read_message_step api buf t = Some (Fin (Break (Inr (buf @ [newline]))) t1)"
      by (simp add: read_message_step_def step ret_def)
    from loop_async_Break [of "read_message_step api", OF this] t1 True show ?thesis by auto
  next
    case False
    then have "read_message_step api buf t = Some (Fin (Continue (buf @ [c])) t1)"
      by (simp add: read_message_step_def step ret_def)
    note cont = loop_async_Continue [of "read_message_step api", OF this]
    have "room t (lag + (length (line_of b) + 1) * lag)"
      using Cons.prems(3) False by (simp add: algebra_simps)
    then have "room t1 ((length (line_of b) + 1) * lag)"
      using t1(2,4) by (rule room_later)
    from Cons.IH [OF t1(5,6) this, of "buf @ [c]"] cont t1 False
    show ?thesis by (auto simp: algebra_simps)
  qed
qed

text \<open>One iteration of the server, when nobody else cancels the token.\<close>

lemma control_message_run:
  assumes t: "deadline t = None" "[] \<notin> set (rx (strm t))" and b: "concat (rx (strm t)) = b"
    and fast: "(length (line_of b) + 1) * lag \<le> KEEP_ALIVE_INTERVAL + READ_TIMEOUT"
  shows "\<exists>t'. select_cancelled \<beta> None
        (timeout (KEEP_ALIVE_INTERVAL + READ_TIMEOUT) (read_message api)) t =
      Some (Fin (Some (Some (Inr (line_of b)))) t') \<and> deadline t' = None \<and>
    [] \<notin> set (rx (strm t')) \<and> concat (rx (strm t')) = drop (length (line_of b)) b \<and>
    tx (strm t') = tx (strm t)"
proof -
  let ?d = "KEEP_ALIVE_INTERVAL + READ_TIMEOUT"
  let ?t = "t\<lparr>deadline := Some (now t + ?d)\<rparr>"
  have "[] \<notin> set (rx (strm ?t))" "concat (rx (strm ?t)) = b"
    "room ?t ((length (line_of b) + 1) * lag)"
    using t b fast by (simp_all add: room_def)
  from read_message_run [OF this, of "[]"] obtain t' where
    t': "read_message api ?t = Some (Fin (Inr (line_of b)) t')"
    "[] \<notin> set (rx (strm t'))" "concat (rx (strm t')) = drop (length (line_of b)) b"
    "tx (strm t') = tx (strm t)"
    by (auto simp: read_message_def)
  from timeout_free_Fin [of _ "read_message api", OF t(1) t'(1)] t'(2-4) show ?thesis
    by (auto simp: select_never_cancelled map_async_Fin)
qed

lemma control_ping_step:
  assumes t: "deadline t = None" "[] \<notin> set (rx (strm t))"
    and b: "concat (rx (strm t)) = PING_MESSAGE @ b"
    and fast: "6 * lag \<le> KEEP_ALIVE_INTERVAL + READ_TIMEOUT"
  shows "\<exists>t'. control_channel_step api bias None n t = Some (Fin (Continue (Suc n)) t') \<and>
    deadline t' = None \<and> [] \<notin> set (rx (strm t')) \<and> concat (rx (strm t')) = b \<and>
    tx (strm t') = tx (strm t) @ PONG_MESSAGE"
proof -
  obtain t1 where t1: "select_cancelled (bias n) None
        (timeout (KEEP_ALIVE_INTERVAL + READ_TIMEOUT) (read_message api)) t =
      Some (Fin (Some (Some (Inr PING_MESSAGE))) t1)" "deadline t1 = None"
    "[] \<notin> set (rx (strm t1))" "concat (rx (strm t1)) = b" "tx (strm t1) = tx (strm t)"
    using control_message_run [OF t b, of "bias n"] fast by (auto simp: line_of_PING)
  obtain t2 where t2: "await (io_write_all api PONG_MESSAGE) t1 = Some (Fin (Inr ()) t2)"
    "deadline t2 = None" "rx (strm t2) = rx (strm t1)" "tx (strm t2) = tx (strm t1) @ PONG_MESSAGE"
    using write_step [OF t1(2)] by blast
  obtain t3 where t3: "await (io_flush api) t2 = Some (Fin (Inr ()) t3)"
    "deadline t3 = None" "rx (strm t3) = rx (strm t2)" "tx (strm t3) = tx (strm t2)"
    using flush_step [OF t2(2)] by blast
  have "control_channel_step api bias None n t = Some (Fin (Continue (Suc n)) t3)"
    unfolding control_channel_step_def
    by (simp add: bind_async_apply t1(1) t2(1) t3(1) ret_def PING_MESSAGE_def)
  with t1 t2 t3 show ?thesis by auto
qed

lemma control_end_step:
  assumes t: "deadline t = None" "[] \<notin> set (rx (strm t))" and b: "concat (rx (strm t)) = b"
    and no_ping: "\<not> starts_with b PING_MESSAGE"
    and fast: "(length (line_of b) + 1) * lag \<le> KEEP_ALIVE_INTERVAL + READ_TIMEOUT"
  shows "\<exists>t'. control_channel_step api bias None n t = Some (Fin (Break True) t') \<and>
    tx (strm t') = tx (strm t)"
proof -
  obtain t1 where t1: "select_cancelled (bias n) None
        (timeout (KEEP_ALIVE_INTERVAL + READ_TIMEOUT) (read_message api)) t =
      Some (Fin (Some (Some (Inr (line_of b)))) t1)" "tx (strm t1) = tx (strm t)"
    using control_message_run [OF t b fast, of "bias n"] by auto
  have "control_channel_step api bias None n t = Some (Fin (Break True) t1)"
    unfolding control_channel_step_def using no_ping
    by (simp add: bind_async_apply t1(1) ret_def line_of_eq_PING_iff)
  with t1(2) show ?thesis by auto
qed

lemma control_loop_run:
  assumes "deadline t = None" "[] \<notin> set (rx (strm t))"
    and "concat (rx (strm t)) = concat (replicate k PING_MESSAGE) @ rest"
    and "\<not> starts_with rest PING_MESSAGE"
    and "(max 5 (length (line_of rest)) + 1) * lag \<le> KEEP_ALIVE_INTERVAL + READ_TIMEOUT"
  shows "\<exists>t'. loop_async (control_channel_step api bias None) n t = Some (Fin True t') \<and>
    tx (strm t') = tx (strm t) @ concat (replicate k PONG_MESSAGE)"
  using assms(1-3)
proof (induction k arbitrary: t n)
  case 0
  have "(length (line_of rest) + 1) * lag \<le> (max 5 (length (line_of rest)) + 1) * lag"
    by (rule mult_right_mono) simp_all
  with assms(5) have fast: "(length (line_of rest) + 1) * lag \<le> KEEP_ALIVE_INTERVAL + READ_TIMEOUT"
    by linarith
  have "concat (rx (strm t)) = rest" using 0(3) by simp
  from control_end_step [OF 0(1,2) this assms(4) fast] obtain t' where
    "control_channel_step api bias None n t = Some (Fin (Break True) t')"
    "tx (strm t') = tx (strm t)" by blast
  with loop_async_Break [of "control_channel_step api bias None"] show ?case by fastforce
next
  case (Suc k)
  have "6 * lag \<le> (max 5 (length (line_of rest)) + 1) * lag"
    by (rule mult_right_mono) simp_all
  with assms(5) have fast: "6 * lag \<le> KEEP_ALIVE_INTERVAL + READ_TIMEOUT" by linarith
  have "concat (rx (strm t)) = PING_MESSAGE @ concat (replicate k PING_MESSAGE) @ rest"
    using Suc.prems(3) by simp
  from control_ping_step [OF Suc.prems(1,2) this fast] obtain t1 where t1:
    "control_channel_step api bias None n t = Some (Fin (Continue (Suc n)) t1)"
    "deadline t1 = None" "[] \<notin> set (rx (strm t1))"
    "concat (rx (strm t1)) = concat (replicate k PING_MESSAGE) @ rest"
    "tx (strm t1) = tx (strm t) @ PONG_MESSAGE" by blast
  from Suc.IH [OF t1(2-4), of "Suc n"] t1(5)
    loop_async_Continue [of "control_channel_step api bias None", OF t1(1)]
  show ?case by auto
qed

end

subsection \<open>Timing\<close>

lemma timely_tick [timely_intros]: "timely (tick iv i)"
proof -
  have "timely (\<lambda>t. await (\<lambda>s. (Ready_in (fst (iv_tick iv (now t) i)) (snd (iv_tick iv (now t) i)), s)) t)"
    by (rule timelyI)
      (auto dest: timely_FinD [OF timely_await] timely_CutD [OF timely_await])
  then show ?thesis by (simp add: tick_def [abs_def] case_prod_unfold)
qed

lemma timely_keepalive_client_step [timely_intros]: "timely (keepalive_client_step api iv st)"
  unfolding keepalive_client_step_def
  by (cases st) (simp, intro timely_intros)

lemma timely_run_keepalive_client_loop [timely_intros]:
  "timely (run_keepalive_client_loop api iv)"
proof -
  have "timely (map_async Inr (loop_async (keepalive_client_step api iv) st))" for st
    by (intro timely_intros)
  then show ?thesis
    by (intro timelyI)
      (auto simp: run_keepalive_client_loop_def keepalive_client_start_def dest: timely_FinD timely_CutD)
qed

lemma timely_read_message [timely_intros]: "timely (read_message api)"
  unfolding read_message_def read_message_step_def by (intro timely_intros)

lemma timely_control_channel_step [timely_intros]:
  "timely (control_channel_step api bias c n)"
  unfolding control_channel_step_def by (intro timely_intros)

lemma timely_run_control_channel_loop [timely_intros]:
  "timely (run_control_channel_loop api bias c)"
  unfolding run_control_channel_loop_def by (intro timely_intros)

subsection \<open>The token\<close>

lemma control_step_early_return:
  assumes t: "in_time t" and run: "control_channel_step api bias c n t = Some (Fin (Break False) t')"
  shows "\<exists>C. c = Some C \<and> C \<le> now t'"
proof -
  let ?m = "timeout (KEEP_ALIVE_INTERVAL + READ_TIMEOUT) (read_message api)"
  from run obtain x t1 where x: "select_cancelled (bias n) c ?m t = Some (Fin x t1)"
    and rest: "(case x of
       None \<Rightarrow> ret (Break False)
     | Some timed \<Rightarrow>
         (case timed of
            None \<Rightarrow> ret (Break True)
          | Some x \<Rightarrow>
              (case x of
                 Inl e \<Rightarrow> ret (Break True)
               | Inr buf \<Rightarrow>
                   if buf = [] then ret (Break True)
                   else if buf = PING_MESSAGE then
                     bind_async (await (io_write_all api PONG_MESSAGE)) (\<lambda>r.
                     case r of Inl e \<Rightarrow> ret (Break True) | Inr _ \<Rightarrow>
                     bind_async (await (io_flush api)) (\<lambda>r.
                     case r of Inl e \<Rightarrow> ret (Break True) | Inr _ \<Rightarrow>
                     ret (Continue (Suc n))))
                   else if buf = CONNECTION_END_MESSAGE then ret (Break True)
                   else ret (Break True)))) t1 = Some (Fin (Break False) t')"
    unfolding control_channel_step_def by (rule bind_async_FinE)
  have "x = None \<and> t1 = t'"
    using rest
    by (auto simp: ret_def elim!: bind_async_FinE split: option.splits sum.splits if_splits)
  moreover have "timely ?m" by (intro timely_intros)
  ultimately show ?thesis using select_None_cancelled [OF _ t] x by blast
qed

lemma control_loop_token:
  assumes t: "in_time t" and run: "loop_async (control_channel_step api bias c) n t = Some (Fin f t')"
  shows "f \<or> (\<exists>C. c = Some C \<and> C \<le> now t')"
proof -
  have "case Fin f t' of Fin f t' \<Rightarrow> f \<or> (\<exists>C. c = Some C \<and> C \<le> now t') | Cut _ \<Rightarrow> True"
    using run
  proof (rule loop_async_rule [where I = "\<lambda>_ t. in_time t"])
    fix n1 t1 n2 t2
    assume "in_time t1" "control_channel_step api bias c n1 t1 = Some (Fin (Continue n2) t2)"
    then show "in_time t2"
      using timely_FinD [OF timely_control_channel_step] by blast
  next
    fix n1 t1 f t2
    assume "in_time t1" "control_channel_step api bias c n1 t1 = Some (Fin (Break f) t2)"
    then show "case Fin f t2 of Fin f t' \<Rightarrow> f \<or> (\<exists>C. c = Some C \<and> C \<le> now t') | Cut _ \<Rightarrow> True"
      using control_step_early_return by (cases f) auto
  qed (use t in simp_all)
  then show ?thesis by simp
qed

subsection \<open>Silence and cancellation\<close>

lemma read_message_silent:
  assumes "io_read api 1 (strm t) = (Never, s)" "deadline t = Some D"
  shows "read_message api t = Some (Cut (t\<lparr>now := D\<rparr>))"
proof -
  have "await_io (io_read api 1) t = Some (Cut (t\<lparr>now := D\<rparr>))"
    using assms by (simp add: await_io_def map_async_def bind_async_apply await_def)
  then have "read_message_step api [] t = Some (Cut (t\<lparr>now := D\<rparr>))"
    by (simp add: read_message_step_def bind_async_apply)
  then show ?thesis
    unfolding read_message_def by (rule loop_async_Cut [of "read_message_step api"])
qed

lemma control_step_silent:
  assumes t: "deadline t = None" and silent: "io_read api 1 (strm t) = (Never, s)"
    and c: "c \<noteq> Some (now t + (KEEP_ALIVE_INTERVAL + READ_TIMEOUT))"
  shows "\<exists>t'. control_channel_step api bias c n t = Some (Fin (Break
        (case c of None \<Rightarrow> True | Some C \<Rightarrow> now t + (KEEP_ALIVE_INTERVAL + READ_TIMEOUT) < C)) t') \<and>
    now t' = (case c of None \<Rightarrow> now t + (KEEP_ALIVE_INTERVAL + READ_TIMEOUT)
              | Some C \<Rightarrow> min (max C (now t)) (now t + (KEEP_ALIVE_INTERVAL + READ_TIMEOUT)))"
proof -
  let ?d = "KEEP_ALIVE_INTERVAL + READ_TIMEOUT"
  have d: "0 < ?d"
    by (simp add: KEEP_ALIVE_INTERVAL_def CONNECTION_KEEPALIVE_INTERVAL_def from_secs_def)
  have cut: "read_message api (t\<lparr>deadline := Some D\<rparr>) =
      Some (Cut (t\<lparr>deadline := Some D, now := D\<rparr>))" for D
    using read_message_silent [of api "t\<lparr>deadline := Some D\<rparr>"] silent by simp
  show ?thesis
  proof (cases c)
    case None
    have "select_cancelled (bias n) c (timeout ?d (read_message api)) t =
        Some (Fin (Some None) (t\<lparr>now := now t + ?d\<rparr>))"
      using t None timeout_free_Cut [of t "read_message api", OF t cut]
      by (simp add: select_never_cancelled map_async_Fin)
    with None show ?thesis
      by (simp add: control_channel_step_def bind_async_apply ret_def)
  next
    case (Some C)
    have "select_cancelled (bias n) c (timeout ?d (read_message api)) t =
        Some (Fin (if now t + ?d < C then Some None else None)
          (t\<lparr>now := min (max C (now t)) (now t + ?d)\<rparr>))"
      using t c d Some cut [of "min (now t + ?d) (max C (now t))"]
      by (auto simp: select_cancelled_def until_def timeout_def bind_async_apply min_def max_def
          split: if_splits)
    with Some show ?thesis
      by (simp add: control_channel_step_def bind_async_apply ret_def)
  qed
qed

subsection \<open>The client\<close>

lemma tick_step:
  assumes "tick_source iv due period" "deadline t = None"
  shows "\<exists>i' t'. tick iv i t = Some (Fin i' t') \<and> deadline t' = None \<and> strm t' = strm t \<and>
    due i \<le> now t' \<and> due i' = due i + period i \<and> period i' = period i"
  using tick_source.tick_wait [OF assms(1), of "now t" i]
    tick_source.tick_due [OF assms(1), of "now t" i]
    tick_source.tick_period [OF assms(1), of "now t" i] assms(2)
  by (auto simp: tick_def await_free split: prod.splits)

context swift_stream
begin

text \<open>Waiting for the line, with the time limit of the client.\<close>

lemma pong_read_run:
  assumes t: "deadline t = None" and fast: "lag \<le> READ_TIMEOUT"
    and rx: "rx (strm t) = l # cs" "l \<noteq> []" "last l = newline" "newline \<notin> set (butlast l)"
      "length l \<le> buf_reader_capacity"
  shows "\<exists>t'. timeout READ_TIMEOUT (await (io_read_until api newline)) t =
      Some (Fin (Some (Inr l)) t') \<and> deadline t' = None \<and> now t \<le> now t' \<and>
    rx (strm t') = cs \<and> tx (strm t') = tx (strm t)"
proof -
  let ?t = "t\<lparr>deadline := Some (now t + READ_TIMEOUT)\<rparr>"
  have l: "butlast l @ [newline] = l" using rx(2,3) by (metis append_butlast_last_id)
  have "length (butlast l) < length l" using rx(2) by (cases l rule: rev_cases) auto
  then have "length (butlast l) < buf_reader_capacity" using rx(5) by simp
  moreover have "room ?t lag" "rx (strm ?t) = (butlast l @ [newline]) # cs"
    using fast rx(1) l by (simp_all add: room_def)
  ultimately obtain t' where "await (io_read_until api newline) ?t = Some (Fin (Inr l) t')"
    "now t \<le> now t'" "rx (strm t') = cs" "tx (strm t') = tx (strm t)"
    using swift_line_step [of ?t "butlast l" newline cs] rx(4) l by auto
  with timeout_free_Fin [of t "await (io_read_until api newline)", OF t] show ?thesis by auto
qed

lemma eof_read_run:
  assumes t: "deadline t = None" and fast: "lag \<le> READ_TIMEOUT" and rx: "rx (strm t) = []"
  shows "\<exists>t'. timeout READ_TIMEOUT (await (io_read_until api newline)) t =
      Some (Fin (Some (Inr [])) t') \<and> now t \<le> now t' \<and> tx (strm t') = tx (strm t)"
proof -
  let ?t = "t\<lparr>deadline := Some (now t + READ_TIMEOUT)\<rparr>"
  have "room ?t lag" "rx (strm ?t) = []" using fast rx by (simp_all add: room_def)
  then obtain t' where "await (io_read_until api newline) ?t = Some (Fin (Inr []) t')"
    "now t \<le> now t'" "tx (strm t') = tx (strm t)"
    using swift_until_closed_step [of ?t newline] by auto
  with timeout_free_Fin [of t "await (io_read_until api newline)", OF t] show ?thesis by auto
qed

text \<open>The part of an iteration before the answer: tick, write, flush.\<close>

lemma ping_run:
  assumes iv: "tick_source iv due period" and t: "deadline t = None"
  shows "\<exists>i' t'. keepalive_client_step api iv (i, n) t =
      map_async (pong_received i' n) (timeout READ_TIMEOUT (await (io_read_until api newline))) t' \<and>
    deadline t' = None \<and> due i \<le> now t' \<and> rx (strm t') = rx (strm t) \<and>
    tx (strm t') = tx (strm t) @ PING_MESSAGE \<and> due i' = due i + period i \<and> period i' = period i"
proof -
  obtain i' t1 where t1: "tick iv i t = Some (Fin i' t1)" "deadline t1 = None" "strm t1 = strm t"
    "due i \<le> now t1" "due i' = due i + period i" "period i' = period i"
    using tick_step [OF iv t] by blast
  obtain t2 where t2: "await (io_write_all api PING_MESSAGE) t1 = Some (Fin (Inr ()) t2)"
    "deadline t2 = None" "now t1 \<le> now t2" "rx (strm t2) = rx (strm t1)"
    "tx (strm t2) = tx (strm t1) @ PING_MESSAGE"
    using swift_write_step [of t1 PING_MESSAGE] t1(2) by auto
  obtain t3 where t3: "await (io_flush api) t2 = Some (Fin (Inr ()) t3)" "deadline t3 = None"
    "now t2 \<le> now t3" "rx (strm t3) = rx (strm t2)" "tx (strm t3) = tx (strm t2)"
    using swift_flush_step [of t2] t2(2) by auto
  have "keepalive_client_step api iv (i, n) t =
      map_async (pong_received i' n) (timeout READ_TIMEOUT (await (io_read_until api newline))) t3"
    unfolding keepalive_client_step_def
    by (simp add: bind_async_apply [of "tick iv i"] t1(1)
        bind_async_apply [of "await (io_write_all api PING_MESSAGE)"] t2(1)
        bind_async_apply [of "await (io_flush api)"] t3(1))
  with t1 t2 t3 show ?thesis by (intro exI [of _ i'] exI [of _ t3]) simp
qed

lemma client_pong_step:
  assumes iv: "tick_source iv due period" and t: "deadline t = None" and fast: "lag \<le> READ_TIMEOUT"
    and rx: "rx (strm t) = PONG_MESSAGE # cs"
  shows "\<exists>i' t'. keepalive_client_step api iv (i, n) t = Some (Fin (Continue (i', n + 1)) t') \<and>
    deadline t' = None \<and> rx (strm t') = cs \<and> tx (strm t') = tx (strm t) @ PING_MESSAGE \<and>
    due i' = due i + period i \<and> period i' = period i"
proof -
  obtain i' t1 where t1: "keepalive_client_step api iv (i, n) t =
      map_async (pong_received i' n) (timeout READ_TIMEOUT (await (io_read_until api newline))) t1"
    "deadline t1 = None" "rx (strm t1) = rx (strm t)" "tx (strm t1) = tx (strm t) @ PING_MESSAGE"
    "due i' = due i + period i" "period i' = period i"
    using ping_run [OF iv t, of i n] by blast
  have "last PONG_MESSAGE = newline" "newline \<notin> set (butlast PONG_MESSAGE)"
    "PONG_MESSAGE \<noteq> []" "length PONG_MESSAGE \<le> buf_reader_capacity"
    by (simp_all add: PONG_MESSAGE_def buf_reader_capacity_def)
  with pong_read_run [OF t1(2) fast, of PONG_MESSAGE cs] t1(3) rx obtain t2 where
    "timeout READ_TIMEOUT (await (io_read_until api newline)) t1 =
      Some (Fin (Some (Inr PONG_MESSAGE)) t2)" "deadline t2 = None" "rx (strm t2) = cs"
    "tx (strm t2) = tx (strm t1)"
    by auto
  with t1 show ?thesis
    by (intro exI [of _ i'] exI [of _ t2]) (simp add: map_async_Fin pong_received_def PONG_MESSAGE_def)
qed

lemma client_end_step:
  assumes iv: "tick_source iv due period" and t: "deadline t = None" and fast: "lag \<le> READ_TIMEOUT"
    and rx: "no_pong (rx (strm t))"
  shows "\<exists>t'. keepalive_client_step api iv (i, n) t = Some (Fin (Break ()) t') \<and>
    due i \<le> now t' \<and> tx (strm t') = tx (strm t) @ PING_MESSAGE"
proof -
  obtain i' t1 where t1: "keepalive_client_step api iv (i, n) t =
      map_async (pong_received i' n) (timeout READ_TIMEOUT (await (io_read_until api newline))) t1"
    "deadline t1 = None" "due i \<le> now t1" "rx (strm t1) = rx (strm t)"
    "tx (strm t1) = tx (strm t) @ PING_MESSAGE"
    using ping_run [OF iv t, of i n] by blast
  obtain l t2 where "timeout READ_TIMEOUT (await (io_read_until api newline)) t1 =
      Some (Fin (Some (Inr l)) t2)" "l \<noteq> PONG_MESSAGE" "now t1 \<le> now t2"
    "tx (strm t2) = tx (strm t1)"
  proof (cases "rx (strm t1)")
    case Nil
    from eof_read_run [OF t1(2) fast Nil] that [of "[]"] show thesis
      by (auto simp: PONG_MESSAGE_def)
  next
    case (Cons l cs)
    then have "no_pong (l # cs)" using rx t1(4) by simp
    with pong_read_run [OF t1(2) fast Cons] that [of l] show thesis by auto
  qed
  with t1 show ?thesis by (intro exI [of _ t2]) (simp add: map_async_Fin pong_received_def)
qed

lemma client_loop_run:
  assumes iv: "tick_source iv due period" and fast: "lag \<le> READ_TIMEOUT"
    and "deadline t = None" "rx (strm t) = replicate k PONG_MESSAGE @ tail" "no_pong tail"
  shows "\<exists>t'. loop_async (keepalive_client_step api iv) (i, n) t = Some (Fin () t') \<and>
    tx (strm t') = tx (strm t) @ concat (replicate (Suc k) PING_MESSAGE) \<and>
    due i + k * period i \<le> now t'"
  using assms(3-5)
proof (induction k arbitrary: t i n)
  case 0
  from client_end_step [OF iv 0(1) fast, of i n] 0(2,3) obtain t' where
    "keepalive_client_step api iv (i, n) t = Some (Fin (Break ()) t')" "due i \<le> now t'"
    "tx (strm t') = tx (strm t) @ PING_MESSAGE" by auto
  with loop_async_Break [of "keepalive_client_step api iv"] show ?case by fastforce
next
  case (Suc k)
  from client_pong_step [OF iv Suc.prems(1) fast, of _ i n] Suc.prems(2) obtain i' t1 where t1:
    "keepalive_client_step api iv (i, n) t = Some (Fin (Continue (i', n + 1)) t1)"
    "deadline t1 = None" "rx (strm t1) = replicate k PONG_MESSAGE @ tail"
    "tx (strm t1) = tx (strm t) @ PING_MESSAGE" "due i' = due i + period i" "period i' = period i"
    by auto
  from Suc.IH [OF t1(2,3) Suc.prems(3), of i' "n + 1"] t1(4-6)
    loop_async_Continue [of "keepalive_client_step api iv", OF t1(1)]
  show ?case by (auto simp: algebra_simps)
qed

end

lemma client_silent_step:
  assumes iv: "tick_source iv due period" and t: "deadline t = None"
    and w: "io_write_all api PING_MESSAGE (strm t) = (Ready_in d1 (Inr ()), s1)"
    and f: "io_flush api s1 = (Ready_in d2 (Inr ()), s2)"
    and silent: "io_read_until api newline s2 = (Never, s3)"
  shows "\<exists>t'. keepalive_client_step api iv (i, n) t = Some (Fin (Break ()) t') \<and>
    now t' = max (now t) (due i) + d1 + d2 + READ_TIMEOUT"
proof -
  have tick: "tick iv i t = Some (Fin (snd (iv_tick iv (now t) i)) (t\<lparr>now := max (now t) (due i)\<rparr>))"
    using tick_source.tick_wait [OF iv, of "now t" i] t
    by (auto simp: tick_def await_free split: prod.splits)
  let ?t3 = "t\<lparr>now := max (now t) (due i) + d1 + d2, strm := s2\<rparr>"
  have "timeout READ_TIMEOUT (await (io_read_until api newline)) ?t3 =
      Some (Fin None (t\<lparr>now := max (now t) (due i) + d1 + d2 + READ_TIMEOUT, strm := s2\<rparr>))"
    using timeout_free_Cut [of ?t3 "await (io_read_until api newline)"] t silent
    by (simp add: await_def)
  then show ?thesis
    using t w f
    by (simp add: keepalive_client_step_def bind_async_apply tick await_free map_async_def
        pong_received_def ret_def)
qed

lemma silent_client_returns:
  assumes "tick_source iv due period" "deadline t = None"
    and "io_write_all api PING_MESSAGE (strm t) = (Ready_in d1 (Inr ()), s1)"
    and "io_flush api s1 = (Ready_in d2 (Inr ()), s2)"
    and "io_read_until api newline s2 = (Never, s3)"
  shows "\<exists>t'. run_keepalive_client_loop api iv t = Some (Fin (Inr ()) t') \<and>
    now t' = now t + d1 + d2 + from_secs 30"
proof -
  let ?i = "iv_new iv KEEP_ALIVE_INTERVAL (now t)"
  from client_silent_step [OF assms, of ?i 0] obtain t' where
    step: "keepalive_client_step api iv (?i, 0) t = Some (Fin (Break ()) t')"
    and "now t' = now t + d1 + d2 + READ_TIMEOUT"
    using tick_source.new_due [OF assms(1)] by auto
  with loop_async_Break [of "keepalive_client_step api iv", OF step] show ?thesis
    by (simp add: run_keepalive_client_loop_def keepalive_client_start_def map_async_Fin READ_TIMEOUT_def
        CONNECTION_KEEPALIVE_READ_TIMEOUT_def)
qed

subsection \<open>A peer that never answers\<close>

text \<open>The stream of the module's tests that never returns data and accepts every write.\<close>

definition NeverRead_poll_read :: "'cx \<Rightarrow> nat \<Rightarrow> unit \<Rightarrow> (io_error + bytes) poll \<times> unit" where
  "NeverRead_poll_read cx buf s = (Pending, s)"

definition NeverRead_poll_write :: "'cx \<Rightarrow> bytes \<Rightarrow> unit \<Rightarrow> (io_error + nat) poll \<times> unit" where
  "NeverRead_poll_write cx buf s = (Ready (Inr (length buf)), s)"

definition NeverRead_poll_flush :: "'cx \<Rightarrow> unit \<Rightarrow> (io_error + unit) poll \<times> unit" where
  "NeverRead_poll_flush cx s = (Ready (Inr ()), s)"

definition NeverRead_poll_shutdown :: "'cx \<Rightarrow> unit \<Rightarrow> (io_error + unit) poll \<times> unit" where
  "NeverRead_poll_shutdown cx s = (Ready (Inr ()), s)"

text \<open>A call whose poll is pending and never woken waits forever.\<close>

definition poll_ready :: "('a \<Rightarrow> 'b) \<Rightarrow> 'a poll \<times> 's \<Rightarrow> 'b ready \<times> 's" where
  "poll_ready g x = (case x of (Ready a, s) \<Rightarrow> (Ready_in 0 (g a), s) | (Pending, s) \<Rightarrow> (Never, s))"

definition NeverRead_api :: "unit io_api" where
  "NeverRead_api =
     \<lparr>io_read = (\<lambda>n s. poll_ready id (NeverRead_poll_read () n s)),
      io_read_exact = (\<lambda>n s. poll_ready id (NeverRead_poll_read () n s)),
      io_read_until = (\<lambda>b s. poll_ready id (NeverRead_poll_read () buf_reader_capacity s)),
      io_write_all = (\<lambda>b s. poll_ready (map_sum id (\<lambda>_. ())) (NeverRead_poll_write () b s)),
      io_flush = (\<lambda>s. poll_ready id (NeverRead_poll_flush () s))\<rparr>"

lemma NeverRead_calls [simp]:
  "io_read NeverRead_api n s = (Never, s)"
  "io_read_until NeverRead_api b s = (Never, s)"
  "io_write_all NeverRead_api bs s = (Ready_in 0 (Inr ()), s)"
  "io_flush NeverRead_api s = (Ready_in 0 (Inr ()), s)"
  by (simp_all add: NeverRead_api_def NeverRead_poll_read_def NeverRead_poll_write_def
      NeverRead_poll_flush_def poll_ready_def)

text \<open>The runs of the two loops, for the properties.\<close>

lemma client_pings_run:
  assumes "swift_stream api rx tx lag" "lag \<le> READ_TIMEOUT" and "tick_source iv due period"
    and "deadline t = None" "rx (strm t) = replicate k PONG_MESSAGE @ tail" "no_pong tail"
  shows "\<exists>t'. run_keepalive_client_loop api iv t = Some (Fin (Inr ()) t') \<and>
    tx (strm t') = tx (strm t) @ concat (replicate (Suc k) PING_MESSAGE) \<and>
    now t + k * from_secs 30 \<le> now t'"
proof -
  let ?i = "iv_new iv KEEP_ALIVE_INTERVAL (now t)"
  have "due ?i = now t" "period ?i = from_secs 30"
    using tick_source.new_due [OF assms(3)] tick_source.new_period [OF assms(3)]
    by (simp_all add: KEEP_ALIVE_INTERVAL_def CONNECTION_KEEPALIVE_INTERVAL_def)
  with swift_stream.client_loop_run [OF assms(1,3,2,4-6), of ?i 0] show ?thesis
    by (auto simp: run_keepalive_client_loop_def keepalive_client_start_def map_async_Fin)
qed

lemma control_channel_run:
  assumes "swift_stream api rx tx lag" and "deadline t = None" "[] \<notin> set (rx (strm t))"
    and "concat (rx (strm t)) = concat (replicate k PING_MESSAGE) @ rest"
    and "\<not> starts_with rest PING_MESSAGE"
    and "(max 5 (length (line_of rest)) + 1) * lag \<le> KEEP_ALIVE_INTERVAL + READ_TIMEOUT"
  shows "\<exists>t'. run_control_channel_loop api bias None t = Some (Fin (Inr (), True) t') \<and>
    tx (strm t') = tx (strm t) @ concat (replicate k PONG_MESSAGE)"
  using swift_stream.control_loop_run [OF assms, of bias 0]
  by (auto simp: run_control_channel_loop_def map_async_Fin)

subsection \<open>Properties\<close>

text \<open>
  C13: whatever the client sends, in whatever splitting, the server answers each leading
  \<open>PING\<close> line with one \<open>PONG\<close>, ends at the first line that is none (\<open>BYE\<close>, an unknown message,
  or the end of the stream), sends nothing for it, and has then cancelled the token.  The only
  condition is that the lines arrive within the minute the server waits.
\<close>

theorem control_channel_answers_pings:
  assumes "swift_stream api rx tx lag" and "deadline t = None" "[] \<notin> set (rx (strm t))"
    and "concat (rx (strm t)) = concat (replicate k PING_MESSAGE) @ rest"
    and "\<not> starts_with rest PING_MESSAGE"
    and "(max 5 (length (line_of rest)) + 1) * lag \<le> KEEP_ALIVE_INTERVAL + READ_TIMEOUT"
  shows "\<exists>t'. run_control_channel_loop api bias None t = Some (Fin (Inr (), True) t') \<and>
    tx (strm t') = tx (strm t) @ concat (replicate k PONG_MESSAGE)"
  using assms by (rule control_channel_run)

theorem control_channel_answers_pings_witness:
  "\<exists>t'. run_control_channel_loop pipe_api (\<lambda>_. True) None
      (pipe_task [''PIN'', ''G'' @ [newline] @ ''PING'', [newline] @ ''BYE'' @ [newline] @ ''PING'']) =
      Some (Fin (Inr (), True) t') \<and>
    pipe_tx (strm t') = concat (replicate 2 PONG_MESSAGE)"
  using control_channel_answers_pings [OF pipe_swift_stream, where k = 2
      and rest = "''BYE'' @ [newline] @ ''PING''" and bias = "\<lambda>_. True"
      and t = "pipe_task [''PIN'', ''G'' @ [newline] @ ''PING'', [newline] @ ''BYE'' @ [newline] @ ''PING'']"]
  by (simp add: numeral_2_eq_2 PING_MESSAGE_def)

text \<open>
  On any stream, the control loop never returns an error, and whenever it returns, the
  token is cancelled: by the loop itself, or it had been cancelled before.  So the listener
  that shares the token always gets the signal.
\<close>

lemma control_channel_cancels_token:
  assumes "in_time t" "run_control_channel_loop api bias cancelled t = Some (Fin (r, by_us) t')"
  shows "r = Inr () \<and> (by_us \<or> (\<exists>C. cancelled = Some C \<and> C \<le> now t'))"
proof -
  from assms(2) obtain f where "loop_async (control_channel_step api bias cancelled) 0 t = Some (Fin f t')"
    "(r, by_us) = (Inr (), f)"
    unfolding run_control_channel_loop_def by (rule map_async_FinE)
  with control_loop_token [OF assms(1)] show ?thesis by auto
qed

text \<open>
  A silent peer does not hold the server: the loop returns after 60 seconds and cancels the
  token, or, when the token is cancelled earlier, at that instant.
\<close>

lemma control_channel_silence:
  assumes "deadline t = None" "io_read api 1 (strm t) = (Never, s)"
    and "cancelled \<noteq> Some (now t + from_secs 60)"
  shows "\<exists>t'. run_control_channel_loop api bias cancelled t = Some (Fin (Inr (),
        case cancelled of None \<Rightarrow> True | Some C \<Rightarrow> now t + from_secs 60 < C) t') \<and>
    now t' = (case cancelled of None \<Rightarrow> now t + from_secs 60
              | Some C \<Rightarrow> min (max C (now t)) (now t + from_secs 60))"
proof -
  have minute: "KEEP_ALIVE_INTERVAL + READ_TIMEOUT = from_secs 60"
    by (simp add: KEEP_ALIVE_INTERVAL_def READ_TIMEOUT_def CONNECTION_KEEPALIVE_INTERVAL_def
        CONNECTION_KEEPALIVE_READ_TIMEOUT_def from_secs_def)
  from control_step_silent [OF assms(1,2), of cancelled bias 0, unfolded minute] assms(3)
  obtain t' where
    step: "control_channel_step api bias cancelled 0 t = Some (Fin (Break
      (case cancelled of None \<Rightarrow> True | Some C \<Rightarrow> now t + from_secs 60 < C)) t')"
    and "now t' = (case cancelled of None \<Rightarrow> now t + from_secs 60
              | Some C \<Rightarrow> min (max C (now t)) (now t + from_secs 60))"
    by auto
  with loop_async_Break [of "control_channel_step api bias cancelled", OF step]
  show ?thesis by (simp add: run_control_channel_loop_def map_async_Fin)
qed

text \<open>
  Against a server that answers \<open>k\<close> times and then closes or sends another line, the client
  sends \<open>k + 1\<close> pings, returns \<open>Ok\<close>, and not before \<open>k\<close> intervals of 30 seconds have passed.
\<close>

lemma keepalive_client_pings:
  assumes "swift_stream api rx tx lag" "lag \<le> READ_TIMEOUT" and "tick_source iv due period"
    and "deadline t = None" "rx (strm t) = replicate k PONG_MESSAGE @ tail" "no_pong tail"
  shows "\<exists>t'. run_keepalive_client_loop api iv t = Some (Fin (Inr ()) t') \<and>
    tx (strm t') = tx (strm t) @ concat (replicate (Suc k) PING_MESSAGE) \<and>
    now t + k * from_secs 30 \<le> now t'"
  using assms by (rule client_pings_run)

text \<open>
  A server that never answers is noticed: after sending one ping the client waits exactly
  the read timeout of 30 seconds and then returns \<open>Ok\<close>.
\<close>

lemma keepalive_client_detects_silence:
  assumes "tick_source iv due period" "deadline t = None"
    and "io_write_all api PING_MESSAGE (strm t) = (Ready_in d1 (Inr ()), s1)"
    and "io_flush api s1 = (Ready_in d2 (Inr ()), s2)"
    and "io_read_until api newline s2 = (Never, s3)"
  shows "\<exists>t'. run_keepalive_client_loop api iv t = Some (Fin (Inr ()) t') \<and>
    now t' = now t + d1 + d2 + from_secs 30"
  using assms by (rule silent_client_returns)

end
