(* ===== verification/Server_Handler.thy ===== *)
theory Server_Handler
  imports App_Data Quic_Cert Protocol_Auth Protocol_Control Protocol_Keepalive
begin

section \<open>The server's client handler (\<open>src/server/auth.rs\<close>, \<open>src/server/client_handler.rs\<close>)\<close>

text \<open>
  One QUIC client connection from its acceptance to its end: authentication, configuration, the
  check of the port, binding the TCP listener, the control channel, the shutdown.  The
  connection, the sockets and the listener task are the parameter record \<open>server_env\<close>.  The
  model records the effects of the handler that others see, with their instants: closing the
  connection with a reason, and listening on an address.

  The function is split where the code starts to serve: \<open>prepare_client\<close> is everything up to the
  listener, \<open>serve_client\<close> the rest.
\<close>

subsection \<open>Model\<close>

datatype handler_effect = Close string | Listening string

record 'q server_world =
  sw_conn :: 'q
  sw_effects :: "(nat \<times> handler_effect) list"

text \<open>
  \<open>open_bi\<close> is \<open>Connection::open_bi\<close> with the send and the receive half, \<open>tcp_bind\<close> is
  \<open>TcpListener::bind\<close>.  \<open>join_listener\<close> is waiting for the spawned listener task, given the
  instant at which its token is cancelled: an error of the join, or the result of the task.
\<close>

record ('q, 'r, 'w, 'l) server_env =
  peer_text :: string
  open_bi :: "'q \<Rightarrow> (string + 'w \<times> 'r) ready \<times> 'q"
  stream_id :: "'r \<Rightarrow> string"
  recv_calls :: "'r reader_api"
  send_calls :: "'w writer_api"
  server_crypto :: crypto
  system_time :: SystemTime
  tcp_bind :: "string \<Rightarrow> 'q \<Rightarrow> (io_error + 'l) ready \<times> 'q"
  join_listener :: "'l \<Rightarrow> nat \<Rightarrow> 'q \<Rightarrow> (error + (error + unit)) ready \<times> 'q"

abbreviation control_api :: "('q, 'r, 'w, 'l) server_env \<Rightarrow> ('r, 'w) BiStream io_api" where
  "control_api env \<equiv> BiStream_api (recv_calls env) (send_calls env)"

definition on_conn :: "('q \<Rightarrow> 'p \<times> 'q) \<Rightarrow> 'q server_world \<Rightarrow> 'p \<times> 'q server_world" where
  "on_conn op w = (case op (sw_conn w) of (p, c) \<Rightarrow> (p, w\<lparr>sw_conn := c\<rparr>))"

definition emit :: "handler_effect \<Rightarrow> ('q server_world, unit) async" where
  "emit e = modify_at (\<lambda>n w. w\<lparr>sw_effects := sw_effects w @ [(n, e)]\<rparr>)"

definition authenticate_quic_client ::
  "('q, 'r, 'w, 'l) server_env \<Rightarrow> ('addr, ServerAppData) ServerConfig \<Rightarrow>
   ('q server_world, error + ('r, 'w) BiStream) async" where
  "authenticate_quic_client env config =
     bind_async (await (on_conn (open_bi env))) (\<lambda>opened.
     case opened of
       Inl e \<Rightarrow> ret (Inl (Msg (''failed to open AUTH stream: '' @ e)))
     | Inr halves \<Rightarrow>
         (case halves of (send, recv) \<Rightarrow>
            bind_async
              (with_stream (BiStream_new recv send (stream_id env recv))
                 (server_authenticate (control_api env) (server_crypto env)
                    (s_connection_auth_psk (app_data config))
                    (SystemTimeProvider_now (system_time env)))) (\<lambda>r.
            case r of (result, control_channel) \<Rightarrow>
              (case result of
                 Inr _ \<Rightarrow> ret (Inr control_channel)
               | Inl e \<Rightarrow> ret (Inl e)))))"

text \<open>Closing the connection and returning an error.\<close>

definition close_with :: "string \<Rightarrow> error \<Rightarrow> ('q server_world, error + 'a) async" where
  "close_with reason err = bind_async (emit (Close reason)) (\<lambda>_. ret (Inl err))"

definition listen_addr :: "ServerAppData \<Rightarrow> u16 \<Rightarrow> string" where
  "listen_addr d p = s_local_bind_ip d @ '':'' @ to_dec (unat p)"

text \<open>Step 3: bind the listener.\<close>

definition bind_listener ::
  "('q, 'r, 'w, 'l) server_env \<Rightarrow> string \<Rightarrow> ('q server_world, error + 'l) async" where
  "bind_listener env tcp_addr =
     bind_async (await (on_conn (tcp_bind env tcp_addr))) (\<lambda>bound.
     case bound of
       Inl err \<Rightarrow>
         close_with ''ERR failed binding tcp listener''
           (Context (''Failed to bind TCP listener to '' @ tcp_addr) (FromIo err))
     | Inr listener \<Rightarrow>
         bind_async (emit (Listening tcp_addr)) (\<lambda>_. ret (Inr listener)))"

text \<open>Step 2, the check of the requested port, and step 3.\<close>

definition configure_and_bind ::
  "('q, 'r, 'w, 'l) server_env \<Rightarrow> ('addr, ServerAppData) ServerConfig \<Rightarrow> ('r, 'w) BiStream \<Rightarrow>
   ('q server_world, error + 'l \<times> ('r, 'w) BiStream \<times> u16) async" where
  "configure_and_bind env config control_stream =
     bind_async (timeout CONFIGURATION_TIMEOUT
         (with_stream control_stream (configure_quic_client (recv_calls env)))) (\<lambda>conf.
     case conf of
       None \<Rightarrow>
         close_with ''ERR configuration timed out''
           (Context (''configuration timeout from '' @ peer_text env) (Msg ''configuration timed out''))
     | Some conf_result \<Rightarrow>
     (case conf_result of (result, control_stream) \<Rightarrow>
     (case result of
       Inl err \<Rightarrow>
         close_with ''ERR failed configuration''
           (Context (''failed to receive configuration from '' @ peer_text env) err)
     | Inr requested_client_config \<Rightarrow>
         if \<not> AllowedPorts_allows (s_local_bind_ports (app_data config)) (port requested_client_config)
         then close_with ''ERR port not allowed''
                (Msg (''requested port '' @ to_dec (unat (port requested_client_config)) @
                      '' is not allowed''))
         else
           try_async (bind_listener env
               (listen_addr (app_data config) (port requested_client_config))) (\<lambda>listener.
           ret (Inr (listener, control_stream, port requested_client_config))))))"

text \<open>Step 1, and the steps above.\<close>

definition prepare_client ::
  "('q, 'r, 'w, 'l) server_env \<Rightarrow> ('addr, ServerAppData) ServerConfig \<Rightarrow>
   ('q server_world, error + 'l \<times> ('r, 'w) BiStream \<times> u16) async" where
  "prepare_client env config =
     bind_async (timeout AUTHENTICATION_TIMEOUT (authenticate_quic_client env config)) (\<lambda>auth.
     case auth of
       None \<Rightarrow>
         close_with ''ERR authentication timed out''
           (Context (''authentication timeout for PR QUIC client from '' @ peer_text env)
              (Msg ''authentication timed out''))
     | Some auth_result \<Rightarrow>
     (case auth_result of
       Inl err \<Rightarrow>
         close_with ''ERR failed authentication''
           (Context (''failed to authenticate PR QUIC client from '' @ peer_text env) err)
     | Inr control_stream \<Rightarrow> configure_and_bind env config control_stream))"

text \<open>
  Step 4.  Nobody but the control loop cancels the token, and it does so before it returns; the
  connection is closed before the listener task is awaited.
\<close>

definition serve_client ::
  "('q, 'r, 'w, 'l) server_env \<Rightarrow> (nat \<Rightarrow> bool) \<Rightarrow> 'l \<Rightarrow> ('r, 'w) BiStream \<Rightarrow>
   ('q server_world, error + unit) async" where
  "serve_client env bias listener control_stream =
     bind_async (with_stream control_stream (run_control_channel_loop (control_api env) bias None)) (\<lambda>r.
     case r of ((control_channel_result, _), _) \<Rightarrow>
     at_now (\<lambda>cancelled_at.
     bind_async (emit (Close ''OK normal shutdown'')) (\<lambda>_.
     bind_async (await (on_conn (join_listener env listener cancelled_at))) (\<lambda>joined.
     case joined of
       Inl e \<Rightarrow> ret (Inl e)
     | Inr task_result \<Rightarrow>
         (case task_result of Inl e \<Rightarrow> ret (Inl e) | Inr _ \<Rightarrow> ret control_channel_result)))))"

definition handle_quic_client_connection ::
  "('q, 'r, 'w, 'l) server_env \<Rightarrow> ('addr, ServerAppData) ServerConfig \<Rightarrow> (nat \<Rightarrow> bool) \<Rightarrow>
   ('q server_world, error + unit) async" where
  "handle_quic_client_connection env config bias =
     try_async (prepare_client env config) (\<lambda>prepared.
     case prepared of (listener, control_stream, _) \<Rightarrow>
       serve_client env bias listener control_stream)"

subsection \<open>Timing\<close>

lemma timely_emit [timely_intros]: "timely (emit e)"
  unfolding emit_def by (intro timely_intros)

lemma prompt_emit [returns_intros]: "prompt (emit e)"
  unfolding emit_def by (intro returns_intros)

lemma timely_authenticate [timely_intros]: "timely (authenticate_quic_client env config)"
  unfolding authenticate_quic_client_def by (intro timely_intros)

lemma prompt_authenticate [returns_intros]: "prompt (authenticate_quic_client env config)"
  unfolding authenticate_quic_client_def by (intro returns_intros timely_intros)

lemma timely_close_with [timely_intros]: "timely (close_with reason err)"
  unfolding close_with_def by (intro timely_intros)

lemma timely_bind_listener [timely_intros]: "timely (bind_listener env addr)"
  unfolding bind_listener_def by (intro timely_intros)

lemma timely_configure_and_bind [timely_intros]: "timely (configure_and_bind env config s)"
  unfolding configure_and_bind_def by (intro timely_intros)

lemma timely_prepare [timely_intros]: "timely (prepare_client env config)"
  unfolding prepare_client_def by (intro timely_intros)

lemma timely_serve [timely_intros]: "timely (serve_client env bias l s)"
  unfolding serve_client_def by (intro timely_intros)

subsection \<open>Effects\<close>

lemma emit_apply:
  "emit e t = Some (Fin () (t\<lparr>strm := (strm t)\<lparr>sw_effects := sw_effects (strm t) @ [(now t, e)]\<rparr>\<rparr>))"
  by (simp add: emit_def modify_at_def modify_def)

lemma close_with_apply:
  "close_with reason err t = Some (Fin (Inl err)
     (t\<lparr>strm := (strm t)\<lparr>sw_effects := sw_effects (strm t) @ [(now t, Close reason)]\<rparr>\<rparr>))"
  by (simp add: close_with_def bind_async_apply emit_apply ret_def)

text \<open>Computations that have no visible effect.\<close>

definition silent :: "('q server_world, 'a) async \<Rightarrow> bool" where
  "silent m \<longleftrightarrow>
     (\<forall>t r. m t = Some r \<longrightarrow>
        (case r of Fin a t' \<Rightarrow> sw_effects (strm t') = sw_effects (strm t)
         | Cut t' \<Rightarrow> sw_effects (strm t') = sw_effects (strm t)))"

lemma silentD:
  "silent m \<Longrightarrow> m t = Some (Fin a t') \<Longrightarrow> sw_effects (strm t') = sw_effects (strm t)"
  "silent m \<Longrightarrow> m t = Some (Cut t') \<Longrightarrow> sw_effects (strm t') = sw_effects (strm t)"
  unfolding silent_def by fastforce+

lemma silentI:
  assumes "\<And>t a t'. m t = Some (Fin a t') \<Longrightarrow> sw_effects (strm t') = sw_effects (strm t)"
    and "\<And>t t'. m t = Some (Cut t') \<Longrightarrow> sw_effects (strm t') = sw_effects (strm t)"
  shows "silent m"
  using assms unfolding silent_def by (auto split: outcome.split)

lemma silent_ret: "silent (ret a)"
  by (rule silentI) (auto simp: ret_def)

lemma silent_await: "silent (await (on_conn op))"
  by (rule silentI)
    (auto simp: await_def on_conn_def split: prod.splits ready.splits option.splits if_splits)

lemma silent_with_stream: "silent (with_stream u m)"
  by (rule silentI) (auto simp: with_stream_def split: Option.bind_splits outcome.splits)

lemma silent_bind:
  assumes "silent m" "\<And>a. silent (f a)"
  shows "silent (bind_async m f)"
proof (rule silentI)
  fix t b t''
  assume "bind_async m f t = Some (Fin b t'')"
  then obtain a t' where "m t = Some (Fin a t')" "f a t' = Some (Fin b t'')"
    by (rule bind_async_FinE)
  with silentD(1) [OF assms(1)] silentD(1) [OF assms(2)]
  show "sw_effects (strm t'') = sw_effects (strm t)" by fastforce
next
  fix t t''
  assume "bind_async m f t = Some (Cut t'')"
  then show "sw_effects (strm t'') = sw_effects (strm t)"
  proof (cases rule: bind_async_SomeE)
    case (fin a t')
    with silentD(1) [OF assms(1)] silentD(2) [OF assms(2)] show ?thesis by fastforce
  next
    case (cut t')
    with silentD(2) [OF assms(1)] show ?thesis by fastforce
  qed
qed

lemma silent_authenticate: "silent (authenticate_quic_client env config)"
  unfolding authenticate_quic_client_def
  by (intro silent_bind silent_await)
    (auto intro!: silent_bind silent_with_stream silent_ret split: sum.split prod.split)

lemma silent_timeout_free:
  assumes "silent m" "timeout d m t = Some (Fin x t')" "deadline t = None"
  shows "sw_effects (strm t') = sw_effects (strm t)"
  using assms(2,3)
proof (cases rule: timeout_FinE)
  case (elapsed t1)
  with silentD(2) [OF assms(1) elapsed(1)] show ?thesis by simp
next
  case (returned a t1)
  with silentD(1) [OF assms(1) returned(1)] show ?thesis by simp
qed

subsection \<open>The ways the preparation ends\<close>

text \<open>Which close reason goes with which error.\<close>

definition failure_matches ::
  "('q, 'r, 'w, 'l) server_env \<Rightarrow> ServerAppData \<Rightarrow> string \<Rightarrow> error \<Rightarrow> bool" where
  "failure_matches env d reason e \<longleftrightarrow>
     (reason = ''ERR failed authentication'' \<and>
        (\<exists>x. e = Context (''failed to authenticate PR QUIC client from '' @ peer_text env) x)) \<or>
     (reason = ''ERR authentication timed out'' \<and>
        e = Context (''authentication timeout for PR QUIC client from '' @ peer_text env)
              (Msg ''authentication timed out'')) \<or>
     (reason = ''ERR failed configuration'' \<and>
        (\<exists>x. e = Context (''failed to receive configuration from '' @ peer_text env) x)) \<or>
     (reason = ''ERR configuration timed out'' \<and>
        e = Context (''configuration timeout from '' @ peer_text env) (Msg ''configuration timed out'')) \<or>
     (reason = ''ERR port not allowed'' \<and>
        (\<exists>p. \<not> AllowedPorts_allows (s_local_bind_ports d) p \<and>
           e = Msg (''requested port '' @ to_dec (unat p) @ '' is not allowed''))) \<or>
     (reason = ''ERR failed binding tcp listener'' \<and>
        (\<exists>p x. AllowedPorts_allows (s_local_bind_ports d) p \<and>
           e = Context (''Failed to bind TCP listener to '' @ listen_addr d p) (FromIo x)))"

definition closed_as ::
  "('q, 'r, 'w, 'l) server_env \<Rightarrow> ServerAppData \<Rightarrow> error \<Rightarrow>
   'q server_world task \<Rightarrow> 'q server_world task \<Rightarrow> bool" where
  "closed_as env d e t t' \<longleftrightarrow>
     (\<exists>reason. failure_matches env d reason e \<and>
        sw_effects (strm t') = sw_effects (strm t) @ [(now t', Close reason)])"

lemma close_with_closed_as:
  assumes "close_with reason e t1 = Some (Fin x t')" "sw_effects (strm t1) = sw_effects (strm t)"
    "failure_matches env d reason e"
  shows "x = Inl e \<and> closed_as env d e t t'"
  using assms by (auto simp: close_with_apply closed_as_def)

lemma bind_listener_outcome:
  assumes run: "bind_listener env (listen_addr d p) t = Some (Fin x t')"
    and ok: "AllowedPorts_allows (s_local_bind_ports d) p"
  shows "(\<exists>e. x = Inl e \<and> closed_as env d e t t') \<or>
    (\<exists>l dl q. x = Inr l \<and>
      tcp_bind env (listen_addr d p) (sw_conn (strm t)) = (Ready_in dl (Inr l), q) \<and>
      sw_effects (strm t') = sw_effects (strm t) @ [(now t', Listening (listen_addr d p))])"
proof -
  from run obtain b t1 where b: "await (on_conn (tcp_bind env (listen_addr d p))) t = Some (Fin b t1)"
    and rest: "(case b of
       Inl err \<Rightarrow>
         close_with ''ERR failed binding tcp listener''
           (Context (''Failed to bind TCP listener to '' @ listen_addr d p) (FromIo err))
     | Inr listener \<Rightarrow>
         bind_async (emit (Listening (listen_addr d p))) (\<lambda>_. ret (Inr listener))) t1 = Some (Fin x t')"
    unfolding bind_listener_def by (rule bind_async_FinE)
  note fx = silentD(1) [OF silent_await b]
  show ?thesis
  proof (cases b)
    case (Inl err)
    with rest have "close_with ''ERR failed binding tcp listener''
        (Context (''Failed to bind TCP listener to '' @ listen_addr d p) (FromIo err)) t1 = Some (Fin x t')"
      by simp
    from close_with_closed_as [OF this fx] ok show ?thesis by (auto simp: failure_matches_def)
  next
    case (Inr l)
    have "sw_effects (strm t') = sw_effects (strm t) @ [(now t', Listening (listen_addr d p))]" "x = Inr l"
      using rest Inr fx by (auto simp: bind_async_apply emit_apply ret_def)
    moreover obtain dl q where
      "tcp_bind env (listen_addr d p) (sw_conn (strm t)) = (Ready_in dl (Inr l), q)"
      using b Inr by (auto elim!: await_FinE simp: on_conn_def split: prod.splits)
    ultimately show ?thesis by blast
  qed
qed

lemma configure_and_bind_outcome:
  assumes run: "configure_and_bind env config cs t = Some (Fin x t')" and t: "deadline t = None"
  shows "(\<exists>e. x = Inl e \<and> closed_as env (app_data config) e t t') \<or>
    (\<exists>l s p t1 t2 c dl q. x = Inr (l, s, p) \<and>
      AllowedPorts_allows (s_local_bind_ports (app_data config)) p \<and>
      configure_quic_client (recv_calls env) t1 = Some (Fin (Inr \<lparr>port = p\<rparr>) t2) \<and>
      strm t1 = cs \<and> strm t2 = s \<and>
      tcp_bind env (listen_addr (app_data config) p) c = (Ready_in dl (Inr l), q) \<and>
      sw_effects (strm t') =
        sw_effects (strm t) @ [(now t', Listening (listen_addr (app_data config) p))])"
proof -
  let ?d = "app_data config"
  let ?conf = "with_stream cs (configure_quic_client (recv_calls env))"
  from run obtain conf t1 where conf: "timeout CONFIGURATION_TIMEOUT ?conf t = Some (Fin conf t1)"
    and rest: "(case conf of
       None \<Rightarrow>
         close_with ''ERR configuration timed out''
           (Context (''configuration timeout from '' @ peer_text env) (Msg ''configuration timed out''))
     | Some conf_result \<Rightarrow>
     (case conf_result of (result, control_stream) \<Rightarrow>
     (case result of
       Inl err \<Rightarrow>
         close_with ''ERR failed configuration''
           (Context (''failed to receive configuration from '' @ peer_text env) err)
     | Inr requested_client_config \<Rightarrow>
         if \<not> AllowedPorts_allows (s_local_bind_ports ?d) (port requested_client_config)
         then close_with ''ERR port not allowed''
                (Msg (''requested port '' @ to_dec (unat (port requested_client_config)) @
                      '' is not allowed''))
         else
           try_async (bind_listener env
               (listen_addr ?d (port requested_client_config))) (\<lambda>listener.
           ret (Inr (listener, control_stream, port requested_client_config)))))) t1 = Some (Fin x t')"
    unfolding configure_and_bind_def by (rule bind_async_FinE)
  note fx = silent_timeout_free [OF silent_with_stream conf t]
  show ?thesis
  proof (cases conf)
    case None
    with rest have "close_with ''ERR configuration timed out''
        (Context (''configuration timeout from '' @ peer_text env) (Msg ''configuration timed out'')) t1 =
        Some (Fin x t')" by simp
    from close_with_closed_as [OF this fx] show ?thesis by (auto simp: failure_matches_def)
  next
    case (Some cr)
    obtain result s where cr: "cr = (result, s)" by (cases cr)
    show ?thesis
    proof (cases result)
      case (Inl err)
      with rest Some cr have "close_with ''ERR failed configuration''
          (Context (''failed to receive configuration from '' @ peer_text env) err) t1 = Some (Fin x t')"
        by simp
      from close_with_closed_as [OF this fx] show ?thesis by (auto simp: failure_matches_def)
    next
      case (Inr rcc)
      obtain p where p: "rcc = \<lparr>port = p\<rparr>" by (cases rcc)
      show ?thesis
      proof (cases "AllowedPorts_allows (s_local_bind_ports ?d) p")
        case False
        with rest Some cr Inr p have "close_with ''ERR port not allowed''
            (Msg (''requested port '' @ to_dec (unat p) @ '' is not allowed'')) t1 = Some (Fin x t')"
          by simp
        from close_with_closed_as [OF this fx] False show ?thesis by (auto simp: failure_matches_def)
      next
        case True
        with rest Some cr Inr p have bl: "try_async (bind_listener env (listen_addr ?d p)) (\<lambda>listener.
            ret (Inr (listener, s, p))) t1 = Some (Fin x t')" by simp
        from conf t Some cr Inr p obtain t2 t3 where
          "configure_quic_client (recv_calls env) t2 = Some (Fin (Inr \<lparr>port = p\<rparr>) t3)"
          "strm t2 = cs" "strm t3 = s"
          by (auto elim!: timeout_FinE with_stream_FinE)
        moreover from bl show ?thesis
        proof (cases rule: try_async_FinE)
          case (err e)
          from bind_listener_outcome [OF err(1) True] err(2) fx show ?thesis
            by (auto simp: closed_as_def)
        next
          case (ok l t4)
          from bind_listener_outcome [OF ok(1) True] ok(2) fx True calculation show ?thesis
            by (auto simp: ret_def)
        qed
      qed
    qed
  qed
qed

lemma authenticate_inv:
  assumes "authenticate_quic_client env config t = Some (Fin (Inr cs) t')"
  shows "\<exists>d send recv q t1 t2. open_bi env (sw_conn (strm t)) = (Ready_in d (Inr (send, recv)), q) \<and>
    strm t1 = BiStream_new recv send (stream_id env recv) \<and>
    server_authenticate (control_api env) (server_crypto env)
      (s_connection_auth_psk (app_data config)) (SystemTimeProvider_now (system_time env)) t1 =
      Some (Fin (Inr ()) t2) \<and> strm t2 = cs"
proof -
  from assms obtain opened t1 where o: "await (on_conn (open_bi env)) t = Some (Fin opened t1)"
    and rest: "(case opened of
       Inl e \<Rightarrow> ret (Inl (Msg (''failed to open AUTH stream: '' @ e)))
     | Inr halves \<Rightarrow>
         (case halves of (send, recv) \<Rightarrow>
            bind_async
              (with_stream (BiStream_new recv send (stream_id env recv))
                 (server_authenticate (control_api env) (server_crypto env)
                    (s_connection_auth_psk (app_data config))
                    (SystemTimeProvider_now (system_time env)))) (\<lambda>r.
            case r of (result, control_channel) \<Rightarrow>
              (case result of
                 Inr _ \<Rightarrow> ret (Inr control_channel)
               | Inl e \<Rightarrow> ret (Inl e))))) t1 = Some (Fin (Inr cs) t')"
    unfolding authenticate_quic_client_def by (rule bind_async_FinE)
  from rest obtain send recv where opened: "opened = Inr (send, recv)"
    by (auto simp: ret_def split: sum.splits prod.splits)
  with o obtain d q where "open_bi env (sw_conn (strm t)) = (Ready_in d (Inr (send, recv)), q)"
    by (auto elim!: await_FinE simp: on_conn_def split: prod.splits)
  moreover from rest opened obtain x t2 where
    x: "with_stream (BiStream_new recv send (stream_id env recv))
        (server_authenticate (control_api env) (server_crypto env)
          (s_connection_auth_psk (app_data config)) (SystemTimeProvider_now (system_time env))) t1 =
        Some (Fin x t2)"
    and y: "(case x of (result, control_channel) \<Rightarrow>
        (case result of Inr _ \<Rightarrow> ret (Inr control_channel) | Inl e \<Rightarrow> ret (Inl e))) t2 =
        Some (Fin (Inr cs) t')"
    by (auto elim: bind_async_FinE)
  from y have "\<exists>u. x = (Inr u, cs)" by (auto simp: ret_def split: prod.splits sum.splits)
  then have "x = (Inr (), cs)" by simp
  with x obtain t3 where "server_authenticate (control_api env) (server_crypto env)
      (s_connection_auth_psk (app_data config)) (SystemTimeProvider_now (system_time env))
      \<lparr>now = now t1, deadline = deadline t1,
       strm = BiStream_new recv send (stream_id env recv)\<rparr> = Some (Fin (Inr ()) t3)" "strm t3 = cs"
    by (auto elim: with_stream_FinE)
  moreover have "strm \<lparr>now = now t1, deadline = deadline t1,
       strm = BiStream_new recv send (stream_id env recv)\<rparr> = BiStream_new recv send (stream_id env recv)"
    by simp
  ultimately show ?thesis by blast
qed

lemma prepare_outcome:
  assumes run: "prepare_client env config t = Some (Fin x t')" and t: "deadline t = None"
  shows "(\<exists>e. x = Inl e \<and> closed_as env (app_data config) e t t') \<or>
    (\<exists>l s p cs t1 t2 c dl q t0. x = Inr (l, s, p) \<and>
      authenticate_quic_client env config (t\<lparr>deadline := Some (now t + AUTHENTICATION_TIMEOUT)\<rparr>) =
        Some (Fin (Inr cs) t0) \<and>
      AllowedPorts_allows (s_local_bind_ports (app_data config)) p \<and>
      configure_quic_client (recv_calls env) t1 = Some (Fin (Inr \<lparr>port = p\<rparr>) t2) \<and>
      strm t1 = cs \<and> strm t2 = s \<and>
      tcp_bind env (listen_addr (app_data config) p) c = (Ready_in dl (Inr l), q) \<and>
      sw_effects (strm t') =
        sw_effects (strm t) @ [(now t', Listening (listen_addr (app_data config) p))])"
proof -
  from run obtain auth t1 where
    auth: "timeout AUTHENTICATION_TIMEOUT (authenticate_quic_client env config) t = Some (Fin auth t1)"
    and rest: "(case auth of
       None \<Rightarrow>
         close_with ''ERR authentication timed out''
           (Context (''authentication timeout for PR QUIC client from '' @ peer_text env)
              (Msg ''authentication timed out''))
     | Some auth_result \<Rightarrow>
     (case auth_result of
       Inl err \<Rightarrow>
         close_with ''ERR failed authentication''
           (Context (''failed to authenticate PR QUIC client from '' @ peer_text env) err)
     | Inr control_stream \<Rightarrow> configure_and_bind env config control_stream)) t1 = Some (Fin x t')"
    unfolding prepare_client_def by (rule bind_async_FinE)
  note fx = silent_timeout_free [OF silent_authenticate auth t]
  have t1: "deadline t1 = None" using auth t by (auto elim!: timeout_FinE)
  consider (timeout) "auth = None" | (failed) err where "auth = Some (Inl err)"
    | (ok) cs where "auth = Some (Inr cs)"
    by (metis obj_sumE option.exhaust)
  then show ?thesis
  proof cases
    case timeout
    with rest have "close_with ''ERR authentication timed out''
        (Context (''authentication timeout for PR QUIC client from '' @ peer_text env)
           (Msg ''authentication timed out'')) t1 = Some (Fin x t')" by simp
    from close_with_closed_as [OF this fx] show ?thesis by (auto simp: failure_matches_def)
  next
    case failed
    with rest have "close_with ''ERR failed authentication''
        (Context (''failed to authenticate PR QUIC client from '' @ peer_text env) err) t1 =
        Some (Fin x t')" by simp
    from close_with_closed_as [OF this fx] show ?thesis by (auto simp: failure_matches_def)
  next
    case (ok cs)
    then obtain t0 where a: "authenticate_quic_client env config
        (t\<lparr>deadline := Some (now t + AUTHENTICATION_TIMEOUT)\<rparr>) = Some (Fin (Inr cs) t0)"
      using auth t by (auto elim!: timeout_FinE)
    from rest ok have "configure_and_bind env config cs t1 = Some (Fin x t')" by simp
    from configure_and_bind_outcome [OF this t1] fx a show ?thesis
      by (fastforce simp: closed_as_def)
  qed
qed

subsection \<open>The preparation returns in time\<close>

lemma close_with_returns:
  "deadline t = None \<Longrightarrow> \<exists>x t'. close_with reason err t = Some (Fin x t') \<and> now t' = now t"
  by (simp add: close_with_apply)

lemma bind_listener_returns:
  assumes t: "deadline t = None"
    and bind: "\<And>a q. \<exists>d x q'. tcp_bind env a q = (Ready_in d x, q') \<and> d \<le> B"
  shows "\<exists>x t'. bind_listener env addr t = Some (Fin x t') \<and> now t' \<le> now t + B"
proof -
  obtain d x q where "tcp_bind env addr (sw_conn (strm t)) = (Ready_in d x, q)" "d \<le> B"
    using bind by blast
  with t show ?thesis
    by (cases x) (auto simp: bind_listener_def bind_async_apply await_free on_conn_def
        close_with_apply emit_apply ret_def)
qed

lemma configure_and_bind_returns:
  assumes t: "deadline t = None"
    and bind: "\<And>a q. \<exists>d x q'. tcp_bind env a q = (Ready_in d x, q') \<and> d \<le> B"
  shows "\<exists>x t'. configure_and_bind env config cs t = Some (Fin x t') \<and>
    now t' \<le> now t + CONFIGURATION_TIMEOUT + B"
proof -
  let ?conf = "with_stream cs (configure_quic_client (recv_calls env))"
  have m: "timely ?conf" "prompt ?conf" by (intro timely_intros returns_intros)+
  obtain conf t1 where c: "timeout CONFIGURATION_TIMEOUT ?conf t = Some (Fin conf t1)"
    "deadline t1 = None" "now t1 \<le> now t + CONFIGURATION_TIMEOUT"
    using timeout_free_returns [OF m t] by blast
  have tail: "\<exists>x t'. try_async (bind_listener env addr) (\<lambda>l. ret (Inr (l, s, p))) t1 =
      Some (Fin x t') \<and> now t' \<le> now t1 + B" for addr s p
    using bind_listener_returns [OF c(2) bind, of addr]
    by (auto simp: try_async_apply ret_def split: sum.splits)
  have close: "\<exists>x t'. close_with reason err t1 = Some (Fin x t') \<and> now t' \<le> now t1 + B"
    for reason err by (simp add: close_with_apply)
  have "\<exists>x t'. configure_and_bind env config cs t = Some (Fin x t') \<and> now t' \<le> now t1 + B"
    using tail close
    by (auto simp: configure_and_bind_def bind_async_apply [of "timeout CONFIGURATION_TIMEOUT ?conf"]
        c(1) split: option.split prod.split sum.split)
  with c(3) show ?thesis by fastforce
qed

lemma prepare_returns:
  assumes t: "deadline t = None"
    and bind: "\<And>a q. \<exists>d x q'. tcp_bind env a q = (Ready_in d x, q') \<and> d \<le> B"
  shows "\<exists>x t'. prepare_client env config t = Some (Fin x t') \<and>
    now t' \<le> now t + AUTHENTICATION_TIMEOUT + CONFIGURATION_TIMEOUT + B"
proof -
  let ?auth = "authenticate_quic_client env config"
  have m: "timely ?auth" "prompt ?auth" by (intro timely_intros returns_intros)+
  obtain auth t1 where a: "timeout AUTHENTICATION_TIMEOUT ?auth t = Some (Fin auth t1)"
    "deadline t1 = None" "now t1 \<le> now t + AUTHENTICATION_TIMEOUT"
    using timeout_free_returns [OF m t] by blast
  have close: "\<exists>x t'. close_with reason err t1 = Some (Fin x t') \<and>
      now t' \<le> now t1 + CONFIGURATION_TIMEOUT + B"
    for reason err by (simp add: close_with_apply)
  have "\<exists>x t'. prepare_client env config t = Some (Fin x t') \<and>
      now t' \<le> now t1 + CONFIGURATION_TIMEOUT + B"
    using configure_and_bind_returns [OF a(2) bind, of config] close
    by (auto simp: prepare_client_def bind_async_apply [of "timeout AUTHENTICATION_TIMEOUT ?auth"]
        a(1) split: option.split sum.split)
  with a(3) show ?thesis by fastforce
qed

subsection \<open>Serving\<close>

lemma serve_effects:
  assumes "serve_client env bias l s t = Some (Fin r t')"
  shows "\<exists>n. sw_effects (strm t') = sw_effects (strm t) @ [(n, Close ''OK normal shutdown'')]"
proof -
  from assms obtain x t1 where x: "with_stream s (run_control_channel_loop (control_api env) bias None) t =
      Some (Fin x t1)"
    and rest: "(case x of ((control_channel_result, _), _) \<Rightarrow>
     at_now (\<lambda>cancelled_at.
     bind_async (emit (Close ''OK normal shutdown'')) (\<lambda>_.
     bind_async (await (on_conn (join_listener env l cancelled_at))) (\<lambda>joined.
     case joined of
       Inl e \<Rightarrow> ret (Inl e)
     | Inr task_result \<Rightarrow>
         (case task_result of Inl e \<Rightarrow> ret (Inl e) | Inr _ \<Rightarrow> ret control_channel_result))))) t1 =
      Some (Fin r t')"
    unfolding serve_client_def by (rule bind_async_FinE)
  obtain a b c where abc: "x = ((a, b), c)" by (metis surj_pair)
  let ?t = "t1\<lparr>strm := (strm t1)\<lparr>sw_effects := sw_effects (strm t1) @
      [(now t1, Close ''OK normal shutdown'')]\<rparr>\<rparr>"
  let ?k = "\<lambda>joined. case joined of
       Inl e \<Rightarrow> ret (Inl e)
     | Inr task_result \<Rightarrow> (case task_result of Inl e \<Rightarrow> ret (Inl e) | Inr _ \<Rightarrow> ret a)"
  have "bind_async (await (on_conn (join_listener env l (now t1)))) ?k ?t = Some (Fin r t')"
    using rest abc by (simp add: at_now_def bind_async_apply [of "emit (Close ''OK normal shutdown'')"]
        emit_apply)
  moreover have "silent (bind_async (await (on_conn (join_listener env l (now t1)))) ?k)"
    by (intro silent_bind silent_await) (auto intro: silent_ret split: sum.split)
  ultimately have "sw_effects (strm t') = sw_effects (strm ?t)" by (blast dest: silentD(1))
  with silentD(1) [OF silent_with_stream x] show ?thesis by auto
qed

lemma serve_result:
  assumes t: "deadline t = None"
    and loop: "run_control_channel_loop (control_api env) bias None
      \<lparr>now = now t, deadline = None, strm = s\<rparr> = Some (Fin (Inr (), by_us) t1)"
    and join: "\<And>q. \<exists>d q'. join_listener env l (now t1) q = (Ready_in d (Inr r), q')"
  shows "\<exists>t'. serve_client env bias l s t = Some (Fin r t')"
proof -
  have "in_time \<lparr>now = now t, deadline = None, strm = s\<rparr>" by (simp add: in_time_def)
  from timely_FinD [OF timely_run_control_channel_loop this loop] have d: "deadline t1 = None" by simp
  have ws: "with_stream s (run_control_channel_loop (control_api env) bias None) t =
      Some (Fin ((Inr (), by_us), strm t1) (t\<lparr>now := now t1\<rparr>))"
    using t loop d by (simp add: with_stream_def)
  obtain dj q' where "join_listener env l (now t1) (sw_conn (strm t)) = (Ready_in dj (Inr r), q')"
    using join by blast
  then show ?thesis
    using t
    by (cases r) (auto simp: serve_client_def bind_async_apply ws at_now_def emit_apply await_free
        on_conn_def ret_def)
qed

subsection \<open>A client that does everything right\<close>

lemma authenticate_run:
  assumes halves: "bi_halves (recv_calls env) chunks (send_calls env) written"
    and cr: "crypto_ok (server_crypto env)" "getrandom_fill (server_crypto env) 32 = Inr rnd"
    and op: "open_bi env (sw_conn (strm t)) = (Ready_in d0 (Inr (send, recv)), q)"
    and ch: "ch = server_challenge (server_crypto env) rnd (SystemTimeProvider_now (system_time env))"
    and resp: "resp = auth_response (server_crypto env) ch (s_connection_auth_psk (app_data config))"
    and rx: "[] \<notin> set (chunks recv)" "concat (chunks recv) = resp @ [newline] @ rest"
    and t: "deadline t = None"
    and swift: "swift_calls (control_api env) lag"
  shows "\<exists>cs t'. authenticate_quic_client env config t = Some (Fin (Inr cs) t') \<and>
    deadline t' = None \<and> now t' \<le> now t + d0 + 5 * lag \<and> sw_conn (strm t') = q \<and>
    [] \<notin> set (chunks (bi_read cs)) \<and> concat (chunks (bi_read cs)) = rest \<and>
    written (bi_write cs) = written send @ request_text ch @ ''HAPPY'' @ [newline]"
proof -
  let ?api = "control_api env" and ?cr = "server_crypto env"
  let ?psk = "s_connection_auth_psk (app_data config)" and ?tp = "SystemTimeProvider_now (system_time env)"
  let ?s = "BiStream_new recv send (stream_id env recv)"
  let ?t1 = "\<lparr>now = now t + d0, deadline = None, strm = ?s\<rparr>"
  have C: "chunk_stream ?api (\<lambda>b. chunks (bi_read b)) (\<lambda>b. written (bi_write b))"
    using halves by (rule bi_halves.stream_contract)
  note rtext = auth_response_text [OF cr(1), of ch ?psk, folded resp]
  have len: "length (resp @ [newline]) = 129" using rtext(1) by simp
  have take: "take 129 (concat (chunks recv)) = resp @ [newline]"
    using rx(2) len by (metis append_assoc append_eq_conv_conj)
  have dec: "from_utf8 (resp @ [newline]) = Some (resp @ [newline])"
    using hex_text(1) [OF rtext(2)] by (intro from_utf8_ascii) simp
  have trim: "trim_end (resp @ [newline]) = auth_response ?cr ch ?psk"
    using trim_end_response [OF cr(1), of ch ?psk] resp by simp
  obtain t2 where run: "server_authenticate ?api ?cr ?psk ?tp ?t1 = Some (Fin (Inr ()) t2)"
    and t2: "deadline t2 = None" "chunks (bi_read (strm t2)) = drop_chunks 129 (chunks recv)"
      "written (bi_write (strm t2)) = written send @ request_text ch @ ''HAPPY'' @ [newline]"
    using chunk_stream.server_authenticate_run [OF C cr, of ?t1 "resp @ [newline]" True ?tp ?psk]
      rx len take dec trim ch by (auto simp: BiStream_new_def)
  have "now t2 \<le> now t + d0 + 5 * lag"
    using withinD [OF within_server_authenticate [OF swift cr] run] by simp
  moreover have "authenticate_quic_client env config t =
      Some (Fin (Inr (strm t2)) (t\<lparr>now := now t2, strm := (strm t)\<lparr>sw_conn := q\<rparr>\<rparr>))"
    using op t run t2(1)
    by (simp add: authenticate_quic_client_def bind_async_apply await_free on_conn_def
        with_stream_def ret_def)
  moreover have "concat (chunks (bi_read (strm t2))) = rest"
    using t2(2) rx(2) len by (metis append_assoc append_eq_conv_conj concat_drop_chunks)
  ultimately show ?thesis
    using t t2 rx(1) by (auto simp: drop_chunks_nonempty)
qed

lemma patient_authenticate [patient_intros]: "patient (authenticate_quic_client env config)"
  unfolding authenticate_quic_client_def by (intro patient_intros timely_intros)

lemma configure_and_bind_run:
  fixes env :: "('q, 'r, 'w, 'l) server_env"
  assumes halves: "bi_halves (recv_calls env) chunks (send_calls env) written"
    and swift: "swift_calls (control_api env) lag" and fast: "2 * lag \<le> CONFIGURATION_TIMEOUT"
    and rx: "[] \<notin> set (chunks (bi_read cs))"
      "concat (chunks (bi_read cs)) = listenport_message p @ rest"
    and allowed: "AllowedPorts_allows (s_local_bind_ports (app_data config)) p"
    and bind: "tcp_bind env (listen_addr (app_data config) p) (sw_conn (strm t)) = (Ready_in db (Inr l), q)"
    and t: "deadline t = None"
  shows "\<exists>s t'. configure_and_bind env config cs t = Some (Fin (Inr (l, s, p)) t') \<and>
    deadline t' = None \<and> [] \<notin> set (chunks (bi_read s)) \<and> concat (chunks (bi_read s)) = rest \<and>
    written (bi_write s) = written (bi_write cs) \<and>
    sw_effects (strm t') = sw_effects (strm t) @ [(now t', Listening (listen_addr (app_data config) p))]"
proof -
  let ?m = "configure_quic_client (recv_calls env)"
  let ?t = "\<lparr>now = now t, deadline = None, strm = cs\<rparr>"
  have "[] \<notin> set (chunks (bi_read (strm ?t)))" using rx(1) by simp
  from bi_halves.configure_run [OF halves, of ?t, OF _ this] rx(2)
  obtain t1 where run: "?m ?t = Some (Fin (Inr \<lparr>port = p\<rparr>) t1)"
    and t1: "chunks (bi_read (strm t1)) = drop_chunks 12 (chunks (bi_read cs))"
      "written (bi_write (strm t1)) = written (bi_write cs)"
    by (auto simp: configured_as_message)
  have "in_time ?t" by (simp add: in_time_def)
  from timely_FinD [OF timely_configure this run] have d1: "deadline t1 = None" by simp
  have ws: "with_stream cs ?m t = Some (Fin (Inr \<lparr>port = p\<rparr>, strm t1) (t\<lparr>now := now t1\<rparr>))"
    using run t d1 by (simp add: with_stream_def)
  have "now t1 \<le> now t + 2 * lag" using withinD [OF within_configure [OF swift] run] by simp
  then have "timeout CONFIGURATION_TIMEOUT (with_stream cs ?m) t =
      Some (Fin (Some (Inr \<lparr>port = p\<rparr>, strm t1)) (t\<lparr>now := now t1\<rparr>))"
    using t fast ws
    by (intro timeout_patient) (auto intro!: patient_intros timely_intros)
  then have "configure_and_bind env config cs t = Some (Fin (Inr (l, strm t1, p))
      (t\<lparr>now := now t1 + db, strm := \<lparr>sw_conn = q, sw_effects = sw_effects (strm t) @
        [(now t1 + db, Listening (listen_addr (app_data config) p))]\<rparr>\<rparr>))"
    using bind t allowed
    by (cases "strm t")
      (simp add: configure_and_bind_def bind_async_apply try_async_apply bind_listener_def await_free
        on_conn_def emit_apply ret_def)
  moreover have "concat (chunks (bi_read (strm t1))) = rest"
    using t1(1) rx(2) listenport_message_facts(1) [of p] by simp
  ultimately show ?thesis using t rx(1) t1 by (simp add: drop_chunks_nonempty)
qed

lemma prepare_run:
  fixes env :: "('q, 'r, 'w, 'l) server_env"
  assumes halves: "bi_halves (recv_calls env) chunks (send_calls env) written"
    and cr: "crypto_ok (server_crypto env)" "getrandom_fill (server_crypto env) 32 = Inr rnd"
    and op: "open_bi env (sw_conn (strm t)) = (Ready_in d0 (Inr (send, recv)), q)"
    and ch: "ch = server_challenge (server_crypto env) rnd (SystemTimeProvider_now (system_time env))"
    and resp: "resp = auth_response (server_crypto env) ch (s_connection_auth_psk (app_data config))"
    and rx: "[] \<notin> set (chunks recv)"
      "concat (chunks recv) = resp @ [newline] @ listenport_message p @ rest"
    and t: "deadline t = None"
    and swift: "swift_calls (control_api env) lag"
    and fast: "d0 + 5 * lag \<le> AUTHENTICATION_TIMEOUT" "2 * lag \<le> CONFIGURATION_TIMEOUT"
    and allowed: "AllowedPorts_allows (s_local_bind_ports (app_data config)) p"
    and bind: "tcp_bind env (listen_addr (app_data config) p) q = (Ready_in db (Inr l), q')"
  shows "\<exists>s t'. prepare_client env config t = Some (Fin (Inr (l, s, p)) t') \<and>
    deadline t' = None \<and> [] \<notin> set (chunks (bi_read s)) \<and> concat (chunks (bi_read s)) = rest \<and>
    written (bi_write s) = written send @ request_text ch @ ''HAPPY'' @ [newline] \<and>
    sw_effects (strm t') = sw_effects (strm t) @ [(now t', Listening (listen_addr (app_data config) p))]"
proof -
  from authenticate_run [OF halves cr op ch resp rx t swift] obtain cs t1 where
    auth: "authenticate_quic_client env config t = Some (Fin (Inr cs) t1)"
    and t1: "deadline t1 = None" "now t1 \<le> now t + d0 + 5 * lag" "sw_conn (strm t1) = q"
    and cs: "[] \<notin> set (chunks (bi_read cs))"
      "concat (chunks (bi_read cs)) = listenport_message p @ rest"
      "written (bi_write cs) = written send @ request_text ch @ ''HAPPY'' @ [newline]"
    by blast
  have "timeout AUTHENTICATION_TIMEOUT (authenticate_quic_client env config) t =
      Some (Fin (Some (Inr cs)) t1)"
    using t auth t1(2) fast(1)
    by (intro timeout_patient patient_intros timely_intros) auto
  then have "prepare_client env config t = configure_and_bind env config cs t1"
    by (simp add: prepare_client_def bind_async_apply)
  moreover have "sw_effects (strm t1) = sw_effects (strm t)"
    using silentD(1) [OF silent_authenticate auth] .
  moreover have "tcp_bind env (listen_addr (app_data config) p) (sw_conn (strm t1)) =
      (Ready_in db (Inr l), q')"
    using bind t1(3) by simp
  ultimately show ?thesis
    using configure_and_bind_run [OF halves swift fast(2) cs(1,2) allowed _ t1(1)] cs(3) by auto
qed

lemma serve_run:
  fixes env :: "('q, 'r, 'w, 'l) server_env"
  assumes halves: "bi_halves (recv_calls env) chunks (send_calls env) written"
    and swift: "swift_calls (control_api env) lag"
    and rx: "[] \<notin> set (chunks (bi_read s))"
      "concat (chunks (bi_read s)) = concat (replicate k PING_MESSAGE) @ rest"
      "\<not> starts_with rest PING_MESSAGE"
    and fast: "(max 5 (length (line_of rest)) + 1) * lag \<le> KEEP_ALIVE_INTERVAL + READ_TIMEOUT"
    and t: "deadline t = None"
    and join: "\<And>n q. \<exists>d q'. join_listener env l n q = (Ready_in d (Inr (Inr ())), q')"
  shows "\<exists>t' t1. serve_client env bias l s t = Some (Fin (Inr ()) t') \<and>
    run_control_channel_loop (control_api env) bias None \<lparr>now = now t, deadline = None, strm = s\<rparr> =
      Some (Fin (Inr (), True) t1) \<and>
    written (bi_write (strm t1)) = written (bi_write s) @ concat (replicate k PONG_MESSAGE)"
proof -
  have "swift_stream (control_api env) (\<lambda>b. chunks (bi_read b)) (\<lambda>b. written (bi_write b)) lag"
    using bi_halves.stream_contract [OF halves] swift
    by (intro swift_stream.intro swift_stream_axioms.intro)
  from swift_stream.control_loop_run [OF this, of "\<lparr>now = now t, deadline = None, strm = s\<rparr>" k rest bias 0]
    rx fast obtain t1 where
    loop: "run_control_channel_loop (control_api env) bias None
      \<lparr>now = now t, deadline = None, strm = s\<rparr> = Some (Fin (Inr (), True) t1)"
    and w: "written (bi_write (strm t1)) = written (bi_write s) @ concat (replicate k PONG_MESSAGE)"
    by (auto simp: run_control_channel_loop_def map_async_Fin)
  from serve_result [OF t loop] join obtain t' where
    "serve_client env bias l s t = Some (Fin (Inr ()) t')" by blast
  with loop w show ?thesis by blast
qed

subsection \<open>A concrete environment\<close>

text \<open>
  Streams are pipes: the peer has already sent \<open>cs\<close>, everything is ready at once, binding
  succeeds and the listener ends when it is told to.
\<close>

definition pipe_env :: "bytes list \<Rightarrow> (unit, bytes list, bytes, unit) server_env" where
  "pipe_env cs =
     \<lparr>peer_text = ''127.0.0.1:9000'', open_bi = (\<lambda>q. (Ready_in 0 (Inr ([], cs)), q)),
      stream_id = (\<lambda>_. ''server bidirectional stream 0''),
      recv_calls = pipe_reader, send_calls = pipe_writer,
      server_crypto = sample_crypto, system_time = 0,
      tcp_bind = (\<lambda>a q. (Ready_in 0 (Inr ()), q)),
      join_listener = (\<lambda>l n q. (Ready_in 0 (Inr (Inr ())), q))\<rparr>"

definition sample_config :: "(unit, ServerAppData) ServerConfig" where
  "sample_config = ServerConfig_create_default_config ''/etc/pr'' ''localhost'' () None
     (ServerAppData_new ''key'' ''0.0.0.0'' [Range 8000 9000])"

abbreviation sample_challenge :: string where
  "sample_challenge \<equiv> server_challenge sample_crypto (replicate 32 (CHR 0x2A)) (SystemTimeProvider_now 0)"

definition sample_answer :: bytes where
  "sample_answer = auth_response sample_crypto sample_challenge ''key'' @ [newline]"

definition fresh_task :: "unit server_world task" where
  "fresh_task = \<lparr>now = 0, deadline = None, strm = \<lparr>sw_conn = (), sw_effects = []\<rparr>\<rparr>"

lemma pipe_env_simps [simp]:
  "recv_calls (pipe_env cs) = pipe_reader" "send_calls (pipe_env cs) = pipe_writer"
  "server_crypto (pipe_env cs) = sample_crypto" "system_time (pipe_env cs) = 0"
  "open_bi (pipe_env cs) q = (Ready_in 0 (Inr ([], cs)), q)"
  "tcp_bind (pipe_env cs) a q = (Ready_in 0 (Inr ()), q)"
  "join_listener (pipe_env cs) l n q = (Ready_in 0 (Inr (Inr ())), q)"
  by (simp_all add: pipe_env_def)

lemma fresh_task_simps [simp]:
  "deadline fresh_task = None" "now fresh_task = 0"
  "sw_effects (strm fresh_task) = []"
  by (simp_all add: fresh_task_def)

lemma sample_config_simps [simp]:
  "s_connection_auth_psk (app_data sample_config) = ''key''"
  "s_local_bind_ip (app_data sample_config) = ''0.0.0.0''"
  "s_local_bind_ports (app_data sample_config) = [Range 8000 9000]"
  by (simp_all add: sample_config_def ServerConfig_create_default_config_def ServerAppData_new_def)

lemma pipe_env_facts:
  "bi_halves (recv_calls (pipe_env cs)) (\<lambda>c. c) (send_calls (pipe_env cs)) (\<lambda>w. w)"
  "swift_calls (control_api (pipe_env cs)) 0"
  "crypto_ok (server_crypto (pipe_env cs))"
  "getrandom_fill (server_crypto (pipe_env cs)) 32 = Inr (replicate 32 (CHR 0x2A))"
  using pipe.bi_halves_axioms pipe_swift_calls sample_crypto_ok
  by (simp_all add: pipe_api_def sample_crypto_def)

lemma sample_answer_ne [simp]: "sample_answer \<noteq> []"
  by (simp add: sample_answer_def)

lemma sample_addr: "listen_addr (app_data sample_config) 8080 = ''0.0.0.0:8080''"
  by (simp add: listen_addr_def to_dec.simps digit_char_def char_of_def bit_Suc_0_iff)

lemma sample_prepared:
  "\<exists>s t'. prepare_client (pipe_env [sample_answer, listenport_message 8080, ''BYE'' @ [newline]])
      sample_config fresh_task = Some (Fin (Inr ((), s, 8080)) t') \<and>
    sw_effects (strm t') = [(now t', Listening ''0.0.0.0:8080'')]"
proof -
  let ?cs = "[sample_answer, listenport_message 8080, ''BYE'' @ [newline]]"
  have ne: "listenport_message 8080 \<noteq> []" by (simp add: listenport_message_def)
  have "AllowedPorts_allows (s_local_bind_ports (app_data sample_config)) 8080"
    by (simp add: AllowedPorts_allows_def)
  then show ?thesis
    using prepare_run [OF pipe_env_facts(1,3,4), of ?cs fresh_task 0 "[]" ?cs "()", OF _ refl refl,
        of sample_config 8080 "''BYE'' @ [newline]" 0 0 "()" "()"] ne pipe_env_facts(2) [of ?cs]
    by (auto simp: sample_answer_def sample_addr)
qed

text \<open>
  Whatever the peer does, the server starts to listen only after the peer has answered the
  challenge of this connection with the hash that only the key gives, and has then sent
  \<open>LISTENPORT\<close> with a port that is on the list of allowed ports; the address is the configured
  one with that port.
\<close>

lemma listens_only_for_authenticated_and_allowed:
  assumes "prepare_client env config t = Some (Fin x t')" "deadline t = None"
    and "sw_effects (strm t) = []" "(n, Listening addr) \<in> set (sw_effects (strm t'))"
  shows "\<exists>p send recv d q rnd buf s1 s2 s3 d1 d2 d3 t1 t2 s4 d4.
    AllowedPorts_allows (s_local_bind_ports (app_data config)) p \<and>
    addr = listen_addr (app_data config) p \<and>
    open_bi env (sw_conn (strm t)) = (Ready_in d (Inr (send, recv)), q) \<and>
    getrandom_fill (server_crypto env) 32 = Inr rnd \<and>
    io_write_all (control_api env) (request_text (server_challenge (server_crypto env) rnd
      (SystemTimeProvider_now (system_time env)))) (BiStream_new recv send (stream_id env recv)) =
      (Ready_in d1 (Inr ()), s1) \<and>
    io_flush (control_api env) s1 = (Ready_in d2 (Inr ()), s2) \<and>
    io_read_exact (control_api env) 129 s2 = (Ready_in d3 (Inr buf), s3) \<and>
    trim_end buf = auth_response (server_crypto env) (server_challenge (server_crypto env) rnd
      (SystemTimeProvider_now (system_time env))) (s_connection_auth_psk (app_data config)) \<and>
    strm t1 = BiStream_new recv send (stream_id env recv) \<and>
    server_authenticate (control_api env) (server_crypto env)
      (s_connection_auth_psk (app_data config)) (SystemTimeProvider_now (system_time env)) t1 =
      Some (Fin (Inr ()) t2) \<and>
    on_read (rd_read_exact (recv_calls env) 10) (strm t2) = (Ready_in d4 (Inr ''LISTENPORT''), s4)"
proof -
  from prepare_outcome [OF assms(1,2)] assms(3,4) obtain l s p cs t1 t2 t0 where
    auth: "authenticate_quic_client env config
        (t\<lparr>deadline := Some (now t + AUTHENTICATION_TIMEOUT)\<rparr>) = Some (Fin (Inr cs) t0)"
    and port: "AllowedPorts_allows (s_local_bind_ports (app_data config)) p"
      "addr = listen_addr (app_data config) p"
    and conf: "configure_quic_client (recv_calls env) t1 = Some (Fin (Inr \<lparr>port = p\<rparr>) t2)" "strm t1 = cs"
    by (auto simp: closed_as_def)
  from authenticate_inv [OF auth] obtain d send recv q t3 t4 where
    op: "open_bi env (sw_conn (strm t)) = (Ready_in d (Inr (send, recv)), q)"
    and t3: "strm t3 = BiStream_new recv send (stream_id env recv)"
    and sa: "server_authenticate (control_api env) (server_crypto env)
      (s_connection_auth_psk (app_data config)) (SystemTimeProvider_now (system_time env)) t3 =
      Some (Fin (Inr ()) t4)" "strm t4 = cs"
    by auto
  from configure_accept_inv [OF conf(1)] conf(2) sa(2) obtain d4 s4 where
    lp: "on_read (rd_read_exact (recv_calls env) 10) (strm t4) = (Ready_in d4 (Inr ''LISTENPORT''), s4)"
    by auto
  from server_accept_inv [OF sa(1)] t3 obtain rnd buf s1 s2 s3 d1 d2 d3 where
    "getrandom_fill (server_crypto env) 32 = Inr rnd"
    "io_write_all (control_api env) (request_text (server_challenge (server_crypto env) rnd
      (SystemTimeProvider_now (system_time env)))) (BiStream_new recv send (stream_id env recv)) =
      (Ready_in d1 (Inr ()), s1)"
    "io_flush (control_api env) s1 = (Ready_in d2 (Inr ()), s2)"
    "io_read_exact (control_api env) 129 s2 = (Ready_in d3 (Inr buf), s3)"
    "trim_end buf = auth_response (server_crypto env) (server_challenge (server_crypto env) rnd
      (SystemTimeProvider_now (system_time env))) (s_connection_auth_psk (app_data config))"
    by auto
  with op port t3 sa(1) lp show ?thesis by blast
qed

subsection \<open>Properties\<close>

text \<open>
  C4: the whole life of a well-behaved client: with the right key, an allowed port, \<open>k\<close> pings
  and then \<open>BYE\<close> (or any other end), the server listens on the requested address, answers each
  ping on the control channel after \<open>HAPPY\<close>, closes the connection with \<open>OK normal shutdown\<close>,
  and returns \<open>Ok\<close>.
\<close>

theorem well_behaved_client_is_served:
  fixes env :: "('q, 'r, 'w, 'l) server_env"
  assumes "bi_halves (recv_calls env) chunks (send_calls env) written"
    and "crypto_ok (server_crypto env)" "getrandom_fill (server_crypto env) 32 = Inr rnd"
    and "open_bi env (sw_conn (strm t)) = (Ready_in d0 (Inr (send, recv)), q)"
    and "ch = server_challenge (server_crypto env) rnd (SystemTimeProvider_now (system_time env))"
    and "resp = auth_response (server_crypto env) ch (s_connection_auth_psk (app_data config))"
    and "[] \<notin> set (chunks recv)"
      "concat (chunks recv) =
        resp @ [newline] @ listenport_message p @ concat (replicate k PING_MESSAGE) @ rest"
      "\<not> starts_with rest PING_MESSAGE"
    and "deadline t = None"
    and "swift_calls (control_api env) lag"
    and "d0 + 5 * lag \<le> AUTHENTICATION_TIMEOUT" "2 * lag \<le> CONFIGURATION_TIMEOUT"
      "(max 5 (length (line_of rest)) + 1) * lag \<le> KEEP_ALIVE_INTERVAL + READ_TIMEOUT"
    and "AllowedPorts_allows (s_local_bind_ports (app_data config)) p"
    and "tcp_bind env (listen_addr (app_data config) p) q = (Ready_in db (Inr l), q')"
    and "\<And>n q. \<exists>d q'. join_listener env l n q = (Ready_in d (Inr (Inr ())), q')"
  shows "\<exists>t' s t1 t2 n1 n2.
    handle_quic_client_connection env config bias t = Some (Fin (Inr ()) t') \<and>
    sw_effects (strm t') = sw_effects (strm t) @
      [(n1, Listening (listen_addr (app_data config) p)), (n2, Close ''OK normal shutdown'')] \<and>
    prepare_client env config t = Some (Fin (Inr (l, s, p)) t1) \<and>
    run_control_channel_loop (control_api env) bias None
      \<lparr>now = now t1, deadline = None, strm = s\<rparr> = Some (Fin (Inr (), True) t2) \<and>
    written (bi_write (strm t2)) = written send @ request_text ch @ ''HAPPY'' @ [newline] @
      concat (replicate k PONG_MESSAGE)"
proof -
  from prepare_run [OF assms(1-8,10-13,15,16)] obtain s t1 where
    prep: "prepare_client env config t = Some (Fin (Inr (l, s, p)) t1)" "deadline t1 = None"
    and s: "[] \<notin> set (chunks (bi_read s))"
      "concat (chunks (bi_read s)) = concat (replicate k PING_MESSAGE) @ rest"
      "written (bi_write s) = written send @ request_text ch @ ''HAPPY'' @ [newline]"
    and fx: "sw_effects (strm t1) =
      sw_effects (strm t) @ [(now t1, Listening (listen_addr (app_data config) p))]"
    by blast
  from serve_run [OF assms(1,11) s(1,2) assms(9,14) prep(2) assms(17), of bias] obtain t' t2 where
    serve: "serve_client env bias l s t1 = Some (Fin (Inr ()) t')"
    and loop: "run_control_channel_loop (control_api env) bias None
      \<lparr>now = now t1, deadline = None, strm = s\<rparr> = Some (Fin (Inr (), True) t2)"
      "written (bi_write (strm t2)) = written (bi_write s) @ concat (replicate k PONG_MESSAGE)"
    by blast
  have "handle_quic_client_connection env config bias t = Some (Fin (Inr ()) t')"
    using prep(1) serve by (simp add: handle_quic_client_connection_def try_async_apply)
  with prep(1) serve_effects [OF serve] fx loop s(3) show ?thesis by fastforce
qed

theorem well_behaved_client_is_served_witness:
  "\<exists>t' n1 n2. handle_quic_client_connection
      (pipe_env [sample_answer, listenport_message 8080, PING_MESSAGE @ ''BYE'' @ [newline]])
      sample_config (\<lambda>_. True) fresh_task = Some (Fin (Inr ()) t') \<and>
    sw_effects (strm t') = [(n1, Listening ''0.0.0.0:8080''), (n2, Close ''OK normal shutdown'')]"
proof -
  let ?cs = "[sample_answer, listenport_message 8080, PING_MESSAGE @ ''BYE'' @ [newline]]"
  have ne: "listenport_message 8080 \<noteq> []" by (simp add: listenport_message_def)
  have "AllowedPorts_allows (s_local_bind_ports (app_data sample_config)) 8080"
    by (simp add: AllowedPorts_allows_def)
  then show ?thesis
    using well_behaved_client_is_served [OF pipe_env_facts(1,3,4), of ?cs fresh_task 0 "[]" ?cs "()",
        OF _ refl refl, of sample_config 8080 1 "''BYE'' @ [newline]" 0 0 "()" "()" "\<lambda>_. True"]
      ne pipe_env_facts(2) [of ?cs]
    by (auto simp: sample_answer_def sample_addr PING_MESSAGE_def)
qed

text \<open>
  C17: no peer can hold an unauthenticated or unconfigured connection for long: whatever its
  streams do, including never answering, the preparation returns within 20 seconds and the time
  \<open>B\<close> that binding takes.
\<close>

theorem preparation_is_bounded:
  assumes "deadline t = None"
    and "\<And>a q. \<exists>d x q'. tcp_bind env a q = (Ready_in d x, q') \<and> d \<le> B"
  shows "\<exists>x t'. prepare_client env config t = Some (Fin x t') \<and> now t' \<le> now t + from_secs 20 + B"
proof -
  have "AUTHENTICATION_TIMEOUT + CONFIGURATION_TIMEOUT = from_secs 20"
    by (simp add: AUTHENTICATION_TIMEOUT_def CONFIGURATION_TIMEOUT_def from_secs_def)
  with prepare_returns [OF assms, of config] show ?thesis by (metis add.assoc)
qed

theorem preparation_is_bounded_witness:
  "\<exists>x t'. prepare_client ((pipe_env [])\<lparr>open_bi := (\<lambda>q. (Never, q))\<rparr>) sample_config fresh_task =
      Some (Fin x t') \<and> now t' \<le> from_secs 20"
proof -
  have "\<exists>d x q'. tcp_bind ((pipe_env [])\<lparr>open_bi := (\<lambda>q. (Never, q))\<rparr>) a q = (Ready_in d x, q') \<and> d \<le> 0"
    for a q by (simp add: pipe_env_def)
  from preparation_is_bounded [OF fresh_task_simps(1) this, of sample_config] show ?thesis by simp
qed

text \<open>
  C16: every return of the handler has closed the connection exactly once, as its last effect:
  with the reason that belongs to the error and without ever having listened, or, after having
  listened, with the normal shutdown.
\<close>

theorem handler_closes_exactly_once:
  assumes "handle_quic_client_connection env config bias t = Some (Fin r t')" "deadline t = None"
  shows "(\<exists>e n reason. r = Inl e \<and> failure_matches env (app_data config) reason e \<and>
      sw_effects (strm t') = sw_effects (strm t) @ [(n, Close reason)]) \<or>
    (\<exists>p n1 n2. AllowedPorts_allows (s_local_bind_ports (app_data config)) p \<and>
      sw_effects (strm t') = sw_effects (strm t) @
        [(n1, Listening (listen_addr (app_data config) p)), (n2, Close ''OK normal shutdown'')])"
  using assms(1) unfolding handle_quic_client_connection_def
proof (cases rule: try_async_FinE)
  case (err e)
  from prepare_outcome [OF err(1) assms(2)] err(2) show ?thesis by (auto simp: closed_as_def)
next
  case (ok x t1)
  obtain l s p where x: "x = (l, s, p)" by (cases x)
  from prepare_outcome [OF ok(1) assms(2)] x
  have p: "AllowedPorts_allows (s_local_bind_ports (app_data config)) p"
    "sw_effects (strm t1) = sw_effects (strm t) @ [(now t1, Listening (listen_addr (app_data config) p))]"
    by auto
  from ok(2) x have "serve_client env bias l s t1 = Some (Fin r t')" by simp
  from serve_effects [OF this] p show ?thesis by auto
qed

theorem handler_closes_exactly_once_witness:
  "\<exists>t' e. handle_quic_client_connection ((pipe_env [])\<lparr>open_bi := (\<lambda>q. (Ready_in 3 (Inl ''lost''), q))\<rparr>)
      sample_config (\<lambda>_. True) fresh_task = Some (Fin (Inl e) t') \<and>
    (\<exists>n reason. sw_effects (strm t') = [(n, Close reason)])"
proof -
  let ?env = "(pipe_env [])\<lparr>open_bi := (\<lambda>q. (Ready_in 3 (Inl ''lost''), q))\<rparr>"
  obtain t' e where run: "handle_quic_client_connection ?env sample_config (\<lambda>_. True) fresh_task =
      Some (Fin (Inl e) t')"
    by (simp add: handle_quic_client_connection_def prepare_client_def try_async_apply
        bind_async_apply authenticate_quic_client_def timeout_def until_def await_def on_conn_def
        close_with_apply ret_def fresh_task_def AUTHENTICATION_TIMEOUT_def from_secs_def)
  have "\<nexists>p n1 n2. sw_effects (strm t') = [(n1, Listening (listen_addr (app_data sample_config) p)),
      (n2, Close ''OK normal shutdown'')]"
    using run
    by (auto simp: handle_quic_client_connection_def prepare_client_def try_async_apply
        bind_async_apply authenticate_quic_client_def timeout_def until_def await_def on_conn_def
        close_with_apply ret_def fresh_task_def AUTHENTICATION_TIMEOUT_def from_secs_def)
  with handler_closes_exactly_once [OF run] run show ?thesis by auto
qed

text \<open>
  An authenticated client whose first ten bytes take longer than ten seconds, or never
  come, loses its connection with \<open>ERR configuration timed out\<close>.
\<close>

lemma slow_configuration_is_cut_off:
  assumes auth: "timeout AUTHENTICATION_TIMEOUT (authenticate_quic_client env config) t =
      Some (Fin (Some (Inr cs)) t1)" and t: "deadline t = None"
    and slow: "case fst (on_read (rd_read_exact (recv_calls env) 10) cs) of
      Never \<Rightarrow> True | Ready_in d _ \<Rightarrow> from_secs 10 < d"
  shows "\<exists>t'. handle_quic_client_connection env config bias t =
      Some (Fin (Inl (Context (''configuration timeout from '' @ peer_text env)
        (Msg ''configuration timed out''))) t') \<and>
    sw_effects (strm t') = sw_effects (strm t) @
      [(now t1 + from_secs 10, Close ''ERR configuration timed out'')]"
proof -
  let ?m = "with_stream cs (configure_quic_client (recv_calls env))"
  let ?t = "\<lparr>now = now t1, deadline = Some (now t1 + CONFIGURATION_TIMEOUT), strm = cs\<rparr>"
  have ten: "CONFIGURATION_TIMEOUT = from_secs 10" by (simp add: CONFIGURATION_TIMEOUT_def)
  have t1: "deadline t1 = None" using auth t by (auto elim!: timeout_FinE)
  have fx: "sw_effects (strm t1) = sw_effects (strm t)"
    using silent_timeout_free [OF silent_authenticate auth t] .
  have "await_io (on_read (rd_read_exact (recv_calls env) 10)) ?t =
      Some (Cut (?t\<lparr>now := now t1 + CONFIGURATION_TIMEOUT\<rparr>))"
    using slow ten
    by (auto simp: await_io_def map_async_def bind_async_apply await_def
        split: prod.splits ready.splits)
  then have "configure_quic_client (recv_calls env) ?t =
      Some (Cut (?t\<lparr>now := now t1 + CONFIGURATION_TIMEOUT\<rparr>))"
    by (simp add: configure_quic_client_def try_async_apply context_async_def map_async_def
        bind_async_apply)
  then have "?m (t1\<lparr>deadline := Some (now t1 + CONFIGURATION_TIMEOUT)\<rparr>) =
      Some (Cut (t1\<lparr>now := now t1 + CONFIGURATION_TIMEOUT,
        deadline := Some (now t1 + CONFIGURATION_TIMEOUT)\<rparr>))"
    by (simp add: with_stream_def)
  from timeout_free_Cut [of t1 ?m, OF t1 this] auth
  have "prepare_client env config t = Some (Fin (Inl (Context (''configuration timeout from '' @
        peer_text env) (Msg ''configuration timed out'')))
      (t1\<lparr>now := now t1 + CONFIGURATION_TIMEOUT, strm := (strm t1)\<lparr>sw_effects := sw_effects (strm t1) @
        [(now t1 + CONFIGURATION_TIMEOUT, Close ''ERR configuration timed out'')]\<rparr>\<rparr>))"
    using t1
    by (simp add: prepare_client_def configure_and_bind_def bind_async_apply close_with_apply)
  then show ?thesis
    using fx ten by (simp add: handle_quic_client_connection_def try_async_apply)
qed

text \<open>
  A client that sends its pings 30 seconds apart after the handshake: ten bytes are there only
  with the second one.
\<close>

definition pinging_env :: "bytes list \<Rightarrow> (unit, bytes list, bytes, unit) server_env" where
  "pinging_env cs = (pipe_env cs)\<lparr>recv_calls := pipe_reader\<lparr>rd_read_exact := (\<lambda>n s.
     apfst (delay_ready (if n = 10 then KEEP_ALIVE_INTERVAL else 0)) (rd_read_exact pipe_reader n s))\<rparr>\<rparr>"

lemma pinging_env_authenticate:
  "authenticate_quic_client (pinging_env cs) config = authenticate_quic_client (pipe_env cs) config"
proof -
  have d0: "apfst (delay_ready 0) x = x" for x :: "'x ready \<times> 'y"
    by (cases x) (auto simp: delay_ready_def split: ready.splits)
  have "io_read_exact (control_api (pinging_env cs)) 129 = io_read_exact (control_api (pipe_env cs)) 129"
    "io_write_all (control_api (pinging_env cs)) = io_write_all (control_api (pipe_env cs))"
    "io_flush (control_api (pinging_env cs)) = io_flush (control_api (pipe_env cs))"
    by (simp_all add: pinging_env_def BiStream_api_def d0)
  then have auth: "server_authenticate (control_api (pinging_env cs)) =
      server_authenticate (control_api (pipe_env cs))"
    by (rule server_authenticate_cong)
  have "open_bi (pinging_env cs) = open_bi (pipe_env cs)" "stream_id (pinging_env cs) = stream_id (pipe_env cs)"
    "server_crypto (pinging_env cs) = server_crypto (pipe_env cs)"
    "system_time (pinging_env cs) = system_time (pipe_env cs)"
    by (simp_all add: pinging_env_def fun_eq_iff)
  with auth show ?thesis unfolding authenticate_quic_client_def by (simp only:)
qed

text \<open>The shipped client is cut off in this way: it sends pings only.\<close>

lemma pinging_client_is_cut_off:
  "\<exists>t' n. handle_quic_client_connection (pinging_env [sample_answer, PING_MESSAGE, PING_MESSAGE])
      sample_config (\<lambda>_. True) fresh_task =
      Some (Fin (Inl (Context (''configuration timeout from '' @ ''127.0.0.1:9000'')
        (Msg ''configuration timed out''))) t') \<and>
    sw_effects (strm t') = [(n, Close ''ERR configuration timed out'')]"
proof -
  let ?cs = "[sample_answer, PING_MESSAGE, PING_MESSAGE]"
  have ne: "PING_MESSAGE \<noteq> []" by (simp add: PING_MESSAGE_def)
  obtain cs t1 where auth: "authenticate_quic_client (pipe_env ?cs) sample_config fresh_task =
      Some (Fin (Inr cs) t1)" "now t1 \<le> 0" "concat (bi_read cs) = PING_MESSAGE @ PING_MESSAGE"
      "[] \<notin> set (bi_read cs)"
    using authenticate_run [OF pipe_env_facts(1,3,4), of ?cs fresh_task 0 "[]" ?cs "()", OF _ refl refl,
        of sample_config "PING_MESSAGE @ PING_MESSAGE" 0] ne pipe_env_facts(2) [of ?cs]
    by (auto simp: sample_answer_def)
  have "timeout AUTHENTICATION_TIMEOUT (authenticate_quic_client (pinging_env ?cs) sample_config) fresh_task =
      Some (Fin (Some (Inr cs)) t1)"
    unfolding pinging_env_authenticate
    by (rule timeout_patient) (use auth in \<open>auto intro: patient_intros timely_intros\<close>)
  moreover obtain x s where "rd_read_exact pipe_reader 10 (bi_read cs) = (Ready_in 0 x, s)"
    by (cases "pull 10 pipe_poll 10 (bi_read cs)") (auto simp: pipe_reader_def ready_reader_def)
  then have "case fst (on_read (rd_read_exact (recv_calls (pinging_env ?cs)) 10) cs) of
      Never \<Rightarrow> True | Ready_in d _ \<Rightarrow> from_secs 10 < d"
    by (simp add: pinging_env_def on_read_def delay_ready_def KEEP_ALIVE_INTERVAL_def
        CONNECTION_KEEPALIVE_INTERVAL_def from_secs_def)
  moreover have "peer_text (pinging_env ?cs) = ''127.0.0.1:9000''"
    by (simp add: pinging_env_def pipe_env_def)
  ultimately show ?thesis
    using slow_configuration_is_cut_off [of "pinging_env ?cs" sample_config fresh_task cs t1 "\<lambda>_. True"]
    by fastforce
qed

end
