(* ===== verification/Quic_Endpoints.thy ===== *)
theory Quic_Endpoints
  imports Quic_Cert
begin

section \<open>QUIC endpoints (\<open>src/quic/server.rs\<close>, \<open>src/quic/client.rs\<close>)\<close>

text \<open>
  \<open>run_quic_server\<close> with its accept loop and \<open>run_quic_client\<close>.  rustls and quinn are
  parameters, collected in one record per side.  What \<open>endpoint.accept()\<close> yields until the
  endpoint is closed is a list of incoming connections, each with what the loop asks it about;
  \<open>open_connections\<close> is the number of open connections when the loop looks at it.  The model
  records what the loop does with each incoming connection; a handler that is started runs as
  a task of its own and its result is only logged.
\<close>

subsection \<open>The server\<close>

record ('addr, 'conn) incoming =
  remote_address :: 'addr
  remote_address_validated :: bool
  open_connections :: nat
  retry :: "string + unit"
  handshake :: "error + 'conn"

datatype 'conn admission =
    Refused
  | Retried
  | Failed error
  | Handled 'conn

text \<open>The body of the accept loop; \<open>None\<close> is the panic of \<open>conn.retry().unwrap()\<close>.\<close>

definition admit ::
  "('addr, 'app) ServerConfig \<Rightarrow> ('addr, 'conn) incoming \<Rightarrow> 'conn admission option" where
  "admit config conn =
     (if (case connection_limit config of None \<Rightarrow> False | Some n \<Rightarrow> open_connections conn \<ge> n)
      then Some Refused
      else if stateless_retry config \<and> \<not> remote_address_validated conn
      then (case retry conn of Inl e \<Rightarrow> None | Inr _ \<Rightarrow> Some Retried)
      else
        (case context_res ''accepting incoming quic client connection'' (handshake conn) of
           Inl e \<Rightarrow> Some (Failed e)
         | Inr c \<Rightarrow> Some (Handled c)))"

text \<open>The loop: the outcomes in order, and whether it ran to the end.\<close>

fun accept_loop ::
  "('addr, 'app) ServerConfig \<Rightarrow> ('addr, 'conn) incoming list \<Rightarrow> 'conn admission list \<times> bool" where
  "accept_loop config [] = ([], True)"
| "accept_loop config (conn # conns) =
     (case admit config conn of
        None \<Rightarrow> ([], False)
      | Some a \<Rightarrow> (case accept_loop config conns of (as, fin) \<Rightarrow> (a # as, fin)))"

record rustls_ServerConfig =
  tls_chain :: "CertificateDer list"
  tls_key :: PrivateKeyDer
  alpn_protocols :: "bytes list"

record ('addr, 'conn, 'q) quic_server_env =
  with_single_cert :: "CertificateDer list \<Rightarrow> PrivateKeyDer \<Rightarrow> error + rustls_ServerConfig"
  server_try_from :: "rustls_ServerConfig \<Rightarrow> error + 'q"
  default_transport :: TransportConfig
  endpoint_server :: "'q \<Rightarrow> TransportConfig \<Rightarrow> 'addr \<Rightarrow> io_error + ('addr, 'conn) incoming list"

text \<open>
  The set-up, up to \<open>Endpoint::server\<close>: \<open>None\<close> is the panic of the certificate's generation, and
  the result is the endpoint with what it will yield.
\<close>

definition open_endpoint ::
  "cert_tools \<Rightarrow> ('addr, 'conn, 'q) quic_server_env \<Rightarrow> ('addr, 'app) ServerConfig \<Rightarrow> file_system \<Rightarrow>
   (error + ('addr, 'conn) incoming list) option \<times> file_system" where
  "open_endpoint ct env config fs =
     (case load_or_generate_quic_cert ct (cert_hostname config) (key_file config)
             (cert_file config) fs of
        (None, fs') \<Rightarrow> (None, fs')
      | (Some cert_result, fs') \<Rightarrow>
          (Some (bind_res (context_res ''loading or generating cert'' cert_result) (\<lambda>ident.
             bind_res (context_res ''rustls ServerConfig builder''
                         (with_single_cert env (fst ident) (snd ident))) (\<lambda>server_crypto.
             bind_res (server_try_from env
                         (server_crypto\<lparr>alpn_protocols := ALPN_QUIC_PORTREDIRECT\<rparr>)) (\<lambda>server_config.
             map_err FromIo
               (endpoint_server env server_config
                  (configure_transport_config (default_transport env)) (listen config)))))),
           fs'))"

definition run_quic_server ::
  "cert_tools \<Rightarrow> ('addr, 'conn, 'q) quic_server_env \<Rightarrow> ('addr, 'app) ServerConfig \<Rightarrow> file_system \<Rightarrow>
   (error + unit) option \<times> 'conn admission list \<times> file_system" where
  "run_quic_server ct env config fs =
     (case open_endpoint ct env config fs of
        (None, fs') \<Rightarrow> (None, [], fs')
      | (Some (Inl e), fs') \<Rightarrow> (Some (Inl e), [], fs')
      | (Some (Inr incoming_conns), fs') \<Rightarrow>
          (case accept_loop config incoming_conns of
             (as, fin) \<Rightarrow> (if fin then Some (Inr ()) else None, as, fs')))"

subsection \<open>The client\<close>

record ('addr, 'app) ClientConfig =
  remote_hostname_match :: "string option"
  ca_path :: "string option"
  client_cert_file :: string
  local_socket :: 'addr
  remote_socket :: 'addr
  client_connection_limit :: "nat option"
  client_app_data :: 'app

definition ClientConfig_create_default_config ::
  "string \<Rightarrow> 'addr \<Rightarrow> 'addr \<Rightarrow> string option \<Rightarrow> nat option \<Rightarrow> 'app \<Rightarrow> ('addr, 'app) ClientConfig" where
  "ClientConfig_create_default_config config_dir local_socket' remote_socket' remote_hostname_match'
     connection_limit' app_data' =
     \<lparr>remote_hostname_match = remote_hostname_match', ca_path = None,
      client_cert_file = path_push config_dir ''cert.der'', local_socket = local_socket',
      remote_socket = remote_socket', client_connection_limit = connection_limit',
      client_app_data = app_data'\<rparr>"

record rustls_ClientConfig =
  root_certificates :: "CertificateDer list"
  client_alpn_protocols :: "bytes list"

text \<open>
  \<open>roots_add\<close> is \<open>RootCertStore::add\<close>, \<open>connect_result\<close> the outcome of \<open>Endpoint::connect\<close>: an
  error at once, or the outcome of waiting for the connection.
\<close>

record ('addr, 'conn, 'q, 'ep) quic_client_env =
  roots_add :: "CertificateDer \<Rightarrow> CertificateDer list \<Rightarrow> error + CertificateDer list"
  ip_text :: "'addr \<Rightarrow> string"
  client_try_from :: "rustls_ClientConfig \<Rightarrow> error + 'q"
  endpoint_client :: "'addr \<Rightarrow> io_error + 'ep"
  connect_result :: "'ep \<Rightarrow> 'q \<Rightarrow> 'addr \<Rightarrow> string \<Rightarrow> error + (string + 'conn)"
  join_error :: error

definition client_roots ::
  "('addr, 'conn, 'q, 'ep) quic_client_env \<Rightarrow> ('addr, 'app) ClientConfig \<Rightarrow> file_system \<Rightarrow>
   error + CertificateDer list" where
  "client_roots env config fs =
     (case ca_path config of
        Some ca_path' \<Rightarrow>
          bind_res (map_err FromIo (fs_read fs ca_path')) (\<lambda>ca. roots_add env ca [])
      | None \<Rightarrow>
          (case fs_read fs (client_cert_file config) of
             Inr cert \<Rightarrow> roots_add env cert []
           | Inl e \<Rightarrow> if io_kind e = NotFound then Inr [] else Inr []))"

text \<open>How a run ends: with a result, with a panic, or not at all.\<close>

datatype run_end = Returned "error + unit" | Panicked | Unfinished

text \<open>
  The handler runs in a task whose error is logged and whose panic makes \<open>task.await?\<close> fail.
\<close>

definition run_quic_client ::
  "('addr, 'conn, 'q, 'ep) quic_client_env \<Rightarrow> ('addr, 'app) ClientConfig \<Rightarrow>
   (('addr, 'app) ClientConfig \<Rightarrow> 'conn \<Rightarrow> run_end) \<Rightarrow> file_system \<Rightarrow> run_end" where
  "run_quic_client env config handle_incoming fs =
     (case
        bind_res (client_roots env config fs) (\<lambda>roots.
        let client_crypto = \<lparr>root_certificates = roots, client_alpn_protocols = ALPN_QUIC_PORTREDIRECT\<rparr>;
            server_name_match =
              (case remote_hostname_match config of
                 Some name \<Rightarrow> name
               | None \<Rightarrow> ip_text env (remote_socket config))
        in
        bind_res (client_try_from env client_crypto) (\<lambda>client_config.
        bind_res (map_err FromIo (endpoint_client env (local_socket config))) (\<lambda>endpoint.
        bind_res (connect_result env endpoint client_config (remote_socket config) server_name_match) (\<lambda>connecting.
        map_err (\<lambda>e. Msg (''failed to connect: '' @ e)) connecting)))) of
        Inl e \<Rightarrow> Returned (Inl e)
      | Inr connection \<Rightarrow>
          (case handle_incoming config connection of
             Returned _ \<Rightarrow> Returned (Inr ())
           | Panicked \<Rightarrow> Returned (Inl (join_error env))
           | Unfinished \<Rightarrow> Unfinished))"

subsection \<open>Lemmas\<close>

text \<open>quinn documents that \<open>retry\<close> fails only for an address that is already validated.\<close>

definition retry_contract :: "('addr, 'conn) incoming \<Rightarrow> bool" where
  "retry_contract conn \<longleftrightarrow> remote_address_validated conn \<or> retry conn = Inr ()"

lemma admit_total: "retry_contract conn \<Longrightarrow> admit config conn \<noteq> None"
  by (auto simp: admit_def retry_contract_def split: sum.splits)

lemma accept_loop_total:
  assumes "list_all retry_contract conns"
  shows "accept_loop config conns = (map (\<lambda>c. the (admit config c)) conns, True)"
  using assms
proof (induction conns)
  case (Cons conn conns)
  then show ?case using admit_total [of conn config] by auto
qed simp

lemma admit_Handled_iff:
  "admit config conn = Some (Handled c) \<longleftrightarrow>
     (case connection_limit config of None \<Rightarrow> True | Some n \<Rightarrow> open_connections conn < n) \<and>
     (stateless_retry config \<longrightarrow> remote_address_validated conn) \<and> handshake conn = Inr c"
  by (auto simp: admit_def context_res_def map_err_def split: option.splits sum.splits if_splits)

lemma accept_loop_Handled:
  "Handled c \<in> set (fst (accept_loop config conns)) \<Longrightarrow>
     \<exists>conn \<in> set conns. admit config conn = Some (Handled c)"
proof (induction conns)
  case (Cons conn conns)
  then show ?case by (auto split: option.splits prod.splits)
qed simp

text \<open>Opening the endpoint succeeds exactly when each of its steps does.\<close>

lemma open_endpoint_iff:
  "open_endpoint ct env config fs = (Some (Inr conns), fs') \<longleftrightarrow>
     (\<exists>ident tls q. load_or_generate_quic_cert ct (cert_hostname config) (key_file config)
         (cert_file config) fs = (Some (Inr ident), fs') \<and>
       with_single_cert env (fst ident) (snd ident) = Inr tls \<and>
       server_try_from env (tls\<lparr>alpn_protocols := ALPN_QUIC_PORTREDIRECT\<rparr>) = Inr q \<and>
       endpoint_server env q (configure_transport_config (default_transport env)) (listen config) =
         Inr conns)"
  by (auto simp: open_endpoint_def bind_res_def context_res_def map_err_def
      split: prod.splits option.splits sum.splits)

lemma run_quic_server_opened:
  "open_endpoint ct env config fs = (Some (Inr conns), fs') \<Longrightarrow>
     run_quic_server ct env config fs =
       (if snd (accept_loop config conns) then Some (Inr ()) else None,
        fst (accept_loop config conns), fs')"
  by (simp add: run_quic_server_def split: prod.split)

lemma run_quic_server_not_opened:
  assumes "\<nexists>conns. fst (open_endpoint ct env config fs) = Some (Inr conns)"
  shows "\<exists>r fs'. run_quic_server ct env config fs = (r, [], fs') \<and> (r = None \<or> (\<exists>e. r = Some (Inl e)))"
  using assms by (auto simp: run_quic_server_def split: prod.split option.split sum.split)

lemma run_quic_server_loop:
  assumes "run_quic_server ct env config fs = (r, acts, fs')" "acts \<noteq> []"
  shows "\<exists>ident tls q conns. load_or_generate_quic_cert ct (cert_hostname config) (key_file config)
      (cert_file config) fs = (Some (Inr ident), fs') \<and>
    with_single_cert env (fst ident) (snd ident) = Inr tls \<and>
    server_try_from env (tls\<lparr>alpn_protocols := ALPN_QUIC_PORTREDIRECT\<rparr>) = Inr q \<and>
    endpoint_server env q (configure_transport_config (default_transport env)) (listen config) =
      Inr conns \<and>
    acts = fst (accept_loop config conns)"
proof -
  from assms run_quic_server_not_opened [of ct env config fs] obtain conns fs1 where
    o: "open_endpoint ct env config fs = (Some (Inr conns), fs1)"
    by (cases "open_endpoint ct env config fs") fastforce
  with run_quic_server_opened [OF this] assms(1) have "fs1 = fs'" "acts = fst (accept_loop config conns)"
    by auto
  with o show ?thesis unfolding open_endpoint_iff by blast
qed

subsection \<open>Properties\<close>

text \<open>
  The admission policy: a connection is handed to the client handler exactly when the
  number of open connections is below the limit, its address is validated if the configuration
  asks for that, and its handshake succeeds; it is refused exactly when the limit is reached.
\<close>

lemma admission_policy:
  "(admit config conn = Some (Handled c) \<longleftrightarrow>
      (case connection_limit config of None \<Rightarrow> True | Some n \<Rightarrow> open_connections conn < n) \<and>
      (if stateless_retry config then remote_address_validated conn else True) \<and>
      handshake conn = Inr c) \<and>
   (admit config conn = Some Refused \<longleftrightarrow>
      (case connection_limit config of None \<Rightarrow> False | Some n \<Rightarrow> n \<le> open_connections conn))"
  using admit_Handled_iff [of config conn c]
  by (auto simp: admit_def split: option.splits sum.splits)

text \<open>
  C27: the accept loop survives every incoming connection: refused, retried and failed ones are
  each dealt with and the loop goes on, so all incoming connections get the outcome of the
  policy, in order, and none makes the server panic.
\<close>

theorem accept_loop_serves_all:
  assumes "list_all retry_contract conns"
  shows "accept_loop config conns = (map (\<lambda>conn. the (admit config conn)) conns, True) \<and>
    list_all (\<lambda>conn. admit config conn \<noteq> None) conns"
  using accept_loop_total [OF assms, of config] assms admit_total
  by (auto simp: list_all_iff)

theorem accept_loop_serves_all_witness:
  "accept_loop (ServerConfig_create_default_config ''d'' ''h'' (0 :: nat) (Some 3) ())
     [\<lparr>remote_address = 1 :: nat, remote_address_validated = False, open_connections = 0,
       retry = Inr (), handshake = Inr ''c1''\<rparr>,
      \<lparr>remote_address = 2, remote_address_validated = True, open_connections = 3,
       retry = Inl ''validated'', handshake = Inr ''c2''\<rparr>,
      \<lparr>remote_address = 3, remote_address_validated = True, open_connections = 2,
       retry = Inl ''validated'', handshake = Inr ''c3''\<rparr>] =
   ([Retried, Refused, Handled ''c3''], True)"
proof -
  let ?cfg = "ServerConfig_create_default_config ''d'' ''h'' (0 :: nat) (Some 3) ()"
  let ?conns = "[\<lparr>remote_address = 1 :: nat, remote_address_validated = False, open_connections = 0,
       retry = Inr (), handshake = Inr ''c1''\<rparr>,
      \<lparr>remote_address = 2, remote_address_validated = True, open_connections = 3,
       retry = Inl ''validated'', handshake = Inr ''c2''\<rparr>,
      \<lparr>remote_address = 3, remote_address_validated = True, open_connections = 2,
       retry = Inl ''validated'', handshake = Inr ''c3''\<rparr>]"
  have "list_all retry_contract ?conns" by (simp add: retry_contract_def)
  from accept_loop_serves_all [OF this, of ?cfg] show ?thesis
    by (simp add: admit_def ServerConfig_create_default_config_def)
qed

text \<open>
  C25: with the default configuration, a connection reaches the client handler only after the
  endpoint was set up with the certificate and key of the configuration directory, the protocol
  name \<open>pr-1\<close> and no streams for the client to open, and only from a validated address.
\<close>

theorem handled_connections_are_validated:
  assumes "config = ServerConfig_create_default_config dir name addr limit app"
    and "run_quic_server ct env config fs = (r, acts, fs')" "Handled c \<in> set acts"
  shows "\<exists>ident tls q tc conns conn.
    load_or_generate_quic_cert ct name (path_push dir ''key.der'') (path_push dir ''cert.der'') fs =
      (Some (Inr ident), fs') \<and>
    with_single_cert env (fst ident) (snd ident) = Inr tls \<and>
    server_try_from env (tls\<lparr>alpn_protocols := [''pr-1'']\<rparr>) = Inr q \<and>
    max_concurrent_bidi_streams tc = 0 \<and> max_concurrent_uni_streams tc = 0 \<and>
    endpoint_server env q tc addr = Inr conns \<and> conn \<in> set conns \<and>
    remote_address_validated conn \<and> handshake conn = Inr c"
proof -
  let ?tc = "configure_transport_config (default_transport env)"
  have tc: "max_concurrent_bidi_streams ?tc = 0" "max_concurrent_uni_streams ?tc = 0"
    by (simp_all add: configure_transport_config_def)
  have cfg: "cert_hostname config = name" "key_file config = path_push dir ''key.der''"
    "cert_file config = path_push dir ''cert.der''" "listen config = addr" "stateless_retry config"
    using assms(1) by (simp_all add: ServerConfig_create_default_config_def)
  have "acts \<noteq> []" using assms(3) by auto
  from run_quic_server_loop [OF assms(2) this] obtain ident tls q conns where
    run: "load_or_generate_quic_cert ct name (path_push dir ''key.der'') (path_push dir ''cert.der'') fs =
      (Some (Inr ident), fs')" "with_single_cert env (fst ident) (snd ident) = Inr tls"
    "server_try_from env (tls\<lparr>alpn_protocols := [''pr-1'']\<rparr>) = Inr q"
    "endpoint_server env q ?tc addr = Inr conns" and acts: "acts = fst (accept_loop config conns)"
    by (auto simp: cfg ALPN_QUIC_PORTREDIRECT_def)
  from accept_loop_Handled [of c config conns] assms(3) acts obtain conn where
    "conn \<in> set conns" "admit config conn = Some (Handled c)" by auto
  with cfg(5) run tc show ?thesis by (auto simp: admit_Handled_iff)
qed

definition sample_server_env :: "(nat, string, rustls_ServerConfig) quic_server_env" where
  "sample_server_env =
     \<lparr>with_single_cert = (\<lambda>c k. Inr \<lparr>tls_chain = c, tls_key = k, alpn_protocols = []\<rparr>),
      server_try_from = Inr,
      default_transport = \<lparr>send_fairness = True, max_concurrent_uni_streams = 100,
        max_concurrent_bidi_streams = 100, keep_alive_interval = None, crypto_buffer_size = 0,
        allow_spin = True\<rparr>,
      endpoint_server = (\<lambda>q tc a. Inr [\<lparr>remote_address = 7, remote_address_validated = True,
        open_connections = 0, retry = Inl ''validated'', handshake = Inr ''peer''\<rparr>])\<rparr>"

theorem handled_connections_are_validated_witness:
  "\<exists>ident tls. load_or_generate_quic_cert sample_tools ''h'' (path_push ''d'' ''key.der'')
      (path_push ''d'' ''cert.der'') empty_disk =
      (Some (Inr ident), snd (snd (run_quic_server sample_tools sample_server_env
        (ServerConfig_create_default_config ''d'' ''h'' 4433 None ()) empty_disk))) \<and>
    with_single_cert sample_server_env (fst ident) (snd ident) = Inr tls"
proof -
  let ?cfg = "ServerConfig_create_default_config ''d'' ''h'' (4433 :: nat) None ()"
  obtain r fs' where run: "run_quic_server sample_tools sample_server_env ?cfg empty_disk =
      (r, [Handled ''peer''], fs')"
    using der_paths(3) [of "''d''"]
    by (simp add: run_quic_server_def open_endpoint_def load_or_generate_quic_cert_def generate_quic_cert_def
        fs_exists_def fs_write_def sample_tools_def empty_disk_def sample_server_env_def admit_def
        ServerConfig_create_default_config_def)
  from handled_connections_are_validated [OF refl run, of "''peer''"] run show ?thesis by auto
qed

text \<open>
  C26: a client whose configuration directory holds a copy of the server's certificate file
  trusts exactly the chain the server presents.
\<close>

theorem client_trusts_server_chain:
  assumes server: "scfg = ServerConfig_create_default_config sdir name saddr slimit sapp"
      "load_or_generate_quic_cert ct (cert_hostname scfg) (key_file scfg) (cert_file scfg) sfs =
        (Some (Inr ident), sfs')"
      "unreadable sfs (key_file scfg) = None" "unreadable sfs (cert_file scfg) = None"
    and client: "ccfg = ClientConfig_create_default_config cdir local remote hostname climit capp"
      "unreadable cfs (client_cert_file ccfg) = None"
      "files cfs (client_cert_file ccfg) = files sfs' (cert_file scfg)"
    and add: "\<And>c. c \<in> set (fst ident) \<Longrightarrow> roots_add env c [] = Inr [c]"
  shows "client_roots env ccfg cfs = Inr (fst ident)"
proof -
  have paths: "key_file scfg = path_push sdir ''key.der''" "cert_file scfg = path_push sdir ''cert.der''"
    using server(1) by (simp_all add: ServerConfig_create_default_config_def)
  have "\<exists>c k. files sfs' (cert_file scfg) = Some c \<and> ident = ([c], Pkcs8 k)"
    using load_or_generate_again [OF _ _ _ server(2-4), of name] by (auto simp: paths der_paths)
  with client add show ?thesis
    by (auto simp: client_roots_def fs_read_def ClientConfig_create_default_config_def)
qed

definition sample_client_env :: "(nat, string, rustls_ClientConfig, unit) quic_client_env" where
  "sample_client_env =
     \<lparr>roots_add = (\<lambda>c rs. Inr (rs @ [c])), ip_text = (\<lambda>_. ''127.0.0.1''), client_try_from = Inr,
      endpoint_client = (\<lambda>_. Inr ()), connect_result = (\<lambda>_ _ _ _. Inr (Inr ''conn'')),
      join_error = Msg ''task panicked''\<rparr>"

theorem client_trusts_server_chain_witness:
  "client_roots sample_client_env (ClientConfig_create_default_config ''c'' (0 :: nat) 1 None None ())
     (empty_disk\<lparr>files := [path_push ''c'' ''cert.der'' \<mapsto> ''cert for h'']\<rparr>) = Inr [''cert for h'']"
proof -
  let ?scfg = "ServerConfig_create_default_config ''d'' ''h'' (4433 :: nat) None ()"
  let ?ccfg = "ClientConfig_create_default_config ''c'' (0 :: nat) 1 None None ()"
  let ?cfs = "empty_disk\<lparr>files := [path_push ''c'' ''cert.der'' \<mapsto> ''cert for h'']\<rparr>"
  let ?sfs = "empty_disk\<lparr>files := [path_push ''d'' ''cert.der'' \<mapsto> ''cert for h'',
      path_push ''d'' ''key.der'' \<mapsto> ''new key'']\<rparr>"
  have run: "load_or_generate_quic_cert sample_tools (cert_hostname ?scfg) (key_file ?scfg)
      (cert_file ?scfg) empty_disk = (Some (Inr ([''cert for h''], Pkcs8 ''new key'')), ?sfs)"
    by (simp add: load_or_generate_quic_cert_def generate_quic_cert_def fs_exists_def fs_write_def
        sample_tools_def empty_disk_def ServerConfig_create_default_config_def)
  have rd: "unreadable empty_disk p = None" for p by (simp add: empty_disk_def)
  have c: "unreadable ?cfs (client_cert_file ?ccfg) = None"
    "files ?cfs (client_cert_file ?ccfg) = files ?sfs (cert_file ?scfg)"
    using der_paths(3) [of "''d''"]
    by (simp_all add: rd ClientConfig_create_default_config_def
        ServerConfig_create_default_config_def)
  have "roots_add sample_client_env c [] = Inr [c]" for c
    by (simp add: sample_client_env_def)
  from client_trusts_server_chain [OF refl run rd rd refl c this] show ?thesis by simp
qed

text \<open>
  A client that ends without an error was connected, to the configured address and under the
  configured name or else the text of the address, trusting \<open>client_roots\<close> and nothing else.
\<close>

lemma run_quic_client_ok:
  assumes "run_quic_client env config handler fs = Returned (Inr ())"
  shows "\<exists>roots q ep conn r. client_roots env config fs = Inr roots \<and>
    client_try_from env \<lparr>root_certificates = roots, client_alpn_protocols = [''pr-1'']\<rparr> = Inr q \<and>
    endpoint_client env (local_socket config) = Inr ep \<and>
    connect_result env ep q (remote_socket config)
      (case remote_hostname_match config of Some name \<Rightarrow> name
       | None \<Rightarrow> ip_text env (remote_socket config)) = Inr (Inr conn) \<and>
    handler config conn = Returned r"
  using assms
  by (auto simp: run_quic_client_def bind_res_def map_err_def ALPN_QUIC_PORTREDIRECT_def Let_def
      split: sum.splits run_end.splits)

text \<open>
  Once the connection is established, the result of the client does not depend on whether
  its handler succeeds: it is \<open>Ok\<close> also when, say, authentication failed, and an error only
  when the handler panics.
\<close>

lemma client_result_ignores_handler_error:
  assumes "client_roots env config fs = Inr roots"
    and "client_try_from env \<lparr>root_certificates = roots,
      client_alpn_protocols = ALPN_QUIC_PORTREDIRECT\<rparr> = Inr q"
    and "endpoint_client env (local_socket config) = Inr ep"
    and "connect_result env ep q (remote_socket config)
      (case remote_hostname_match config of Some name \<Rightarrow> name
       | None \<Rightarrow> ip_text env (remote_socket config)) = Inr (Inr conn)"
  shows "run_quic_client env config handler fs =
    (case handler config conn of
       Returned _ \<Rightarrow> Returned (Inr ())
     | Panicked \<Rightarrow> Returned (Inl (join_error env))
     | Unfinished \<Rightarrow> Unfinished)"
  using assms by (simp add: run_quic_client_def split: option.splits)

end
