(* ===== verification/Metrics.thy ===== *)
theory Metrics
  imports Async_Model
begin

section \<open>Counters (\<open>src/metrics_helper.rs\<close>, \<open>src/server/metrics_counters.rs\<close>,
  \<open>src/client/metrics_counters.rs\<close>, \<open>src/client/metrics.rs\<close>)\<close>

text \<open>
  \<open>MetricsCounter\<close> is the locale \<open>metrics_counter\<close>: an operation \<open>inc_by\<close> and what reading the
  counter gives.  \<open>DummyCounter\<close> is the program's own implementation.  The Prometheus counters
  are global and belong to a third-party crate; the program only increments and prints them, so
  the model records the increments: a list of events over the counters' names, in the order
  the program makes them.  \<open>counted\<close> adds up what a list of events did to one counter.
\<close>

subsection \<open>The trait and the dummy counter\<close>

locale metrics_counter =
  fixes inc_by :: "u64 \<Rightarrow> 'c \<Rightarrow> 'c" and get :: "'c \<Rightarrow> u64"
  assumes get_inc_by: "get (inc_by n c) = get c + n"
begin

lemma get_fold: "get (fold inc_by ns c) = get c + sum_list ns"
  by (induction ns arbitrary: c) (simp_all add: get_inc_by algebra_simps)

text \<open>The order of increments does not matter, as for atomic additions.\<close>

lemma get_fold_rev: "get (fold inc_by (rev ns) c) = get (fold inc_by ns c)"
  by (simp add: get_fold)

end

datatype DummyCounter = DummyCounter u64

definition DummyCounter_new :: DummyCounter where
  "DummyCounter_new = DummyCounter 0"

fun DummyCounter_get :: "DummyCounter \<Rightarrow> u64" where
  "DummyCounter_get (DummyCounter n) = n"

text \<open>\<open>fetch_add\<close> wraps around at 64 bits.\<close>

fun DummyCounter_inc_by :: "u64 \<Rightarrow> DummyCounter \<Rightarrow> DummyCounter" where
  "DummyCounter_inc_by amount (DummyCounter n) = DummyCounter (n + amount)"

lemma DummyCounter_laws: "DummyCounter_get (DummyCounter_inc_by n c) = DummyCounter_get c + n"
  by (cases c) simp

interpretation dummy: metrics_counter DummyCounter_inc_by DummyCounter_get
  by unfold_locales (rule DummyCounter_laws)

subsection \<open>The global counters\<close>

datatype server_counter =
    TCP_CONNECTIONS_ACCEPTED
  | TCP_CONNECTIONS_FAILED_ACCEPTING
  | QUIC_DATA_STREAM_OPENING_ERRORS
  | BYTES_TRANSMITTED_A
  | BYTES_TRANSMITTED_B
  | TCP_QUIC_CONNECTIONS_CLOSED_ERROR
  | TCP_QUIC_CONNECTIONS_CLOSED_GRACEFUL
  | KEEPALIVE_ERRORS
  | SERVER_CONNECTIONS_OPENED_TOTAL
  | SERVER_CONNECTIONS_GRACEFULLY_CLOSED_TOTAL

datatype client_counter =
    CONNECTIONS_ACCEPTED
  | CLIENT_BYTES_TRANSMITTED_A
  | CLIENT_BYTES_TRANSMITTED_B
  | TCP_FORWARDING_ERRORS
  | CLIENT_KEEPALIVE_ERRORS
  | CLIENT_CONNECTIONS_OPENED_TOTAL
  | CLIENT_CONNECTIONS_GRACEFULLY_CLOSED_TOTAL

text \<open>The counters are finitely many, so snapshots of all of them can be compared.\<close>

instantiation server_counter :: enum
begin

definition enum_server_counter :: "server_counter list" where
  "enum_server_counter =
     [TCP_CONNECTIONS_ACCEPTED, TCP_CONNECTIONS_FAILED_ACCEPTING, QUIC_DATA_STREAM_OPENING_ERRORS,
      BYTES_TRANSMITTED_A, BYTES_TRANSMITTED_B, TCP_QUIC_CONNECTIONS_CLOSED_ERROR,
      TCP_QUIC_CONNECTIONS_CLOSED_GRACEFUL, KEEPALIVE_ERRORS, SERVER_CONNECTIONS_OPENED_TOTAL,
      SERVER_CONNECTIONS_GRACEFULLY_CLOSED_TOTAL]"

definition enum_all_server_counter :: "(server_counter \<Rightarrow> bool) \<Rightarrow> bool" where
  "enum_all_server_counter P = list_all P (enum_class.enum :: server_counter list)"

definition enum_ex_server_counter :: "(server_counter \<Rightarrow> bool) \<Rightarrow> bool" where
  "enum_ex_server_counter P = list_ex P (enum_class.enum :: server_counter list)"

instance
proof
  have all: "k \<in> set enum_class.enum" for k :: server_counter
    by (cases k) (simp_all add: enum_server_counter_def)
  then show "(UNIV :: server_counter set) = set enum_class.enum"
    by auto
  show "distinct (enum_class.enum :: server_counter list)"
    by (simp add: enum_server_counter_def)
  show "enum_class.enum_all P \<longleftrightarrow> Ball UNIV P" for P :: "server_counter \<Rightarrow> bool"
    using all by (auto simp: enum_all_server_counter_def list_all_iff)
  show "enum_class.enum_ex P \<longleftrightarrow> Bex UNIV P" for P :: "server_counter \<Rightarrow> bool"
    using all by (auto simp: enum_ex_server_counter_def list_ex_iff)
qed

end

text \<open>The names under which the counters are registered.\<close>

fun server_counter_name :: "server_counter \<Rightarrow> string" where
  "server_counter_name TCP_CONNECTIONS_ACCEPTED = ''tcp_connections_accepted_total''"
| "server_counter_name TCP_CONNECTIONS_FAILED_ACCEPTING = ''tcp_connections_failed_accepting_total''"
| "server_counter_name QUIC_DATA_STREAM_OPENING_ERRORS = ''quic_data_stream_opening_errors_total''"
| "server_counter_name BYTES_TRANSMITTED_A = ''bytes_transmitted_a_total''"
| "server_counter_name BYTES_TRANSMITTED_B = ''bytes_transmitted_b_total''"
| "server_counter_name TCP_QUIC_CONNECTIONS_CLOSED_ERROR = ''tcp_quic_connections_closed_error_total''"
| "server_counter_name TCP_QUIC_CONNECTIONS_CLOSED_GRACEFUL = ''tcp_quic_connections_closed_graceful_total''"
| "server_counter_name KEEPALIVE_ERRORS = ''keepalive_errors_total''"
| "server_counter_name SERVER_CONNECTIONS_OPENED_TOTAL = ''server_connections_opened_total''"
| "server_counter_name SERVER_CONNECTIONS_GRACEFULLY_CLOSED_TOTAL = ''server_connections_gracefully_closed_total''"

fun client_counter_name :: "client_counter \<Rightarrow> string" where
  "client_counter_name CONNECTIONS_ACCEPTED = ''connections_accepted_total''"
| "client_counter_name CLIENT_BYTES_TRANSMITTED_A = ''bytes_transmitted_a_total''"
| "client_counter_name CLIENT_BYTES_TRANSMITTED_B = ''bytes_transmitted_b_total''"
| "client_counter_name TCP_FORWARDING_ERRORS = ''tcp_forwarding_errors_total''"
| "client_counter_name CLIENT_KEEPALIVE_ERRORS = ''keepalive_errors_total''"
| "client_counter_name CLIENT_CONNECTIONS_OPENED_TOTAL = ''server_connections_opened_total''"
| "client_counter_name CLIENT_CONNECTIONS_GRACEFULLY_CLOSED_TOTAL = ''server_connections_gracefully_closed_total''"

text \<open>
  Registration fails, and \<open>expect\<close> panics, when a name is taken; each process uses its own
  list only.
\<close>

lemma inj_server_counter_name: "inj server_counter_name"
proof (rule injI)
  fix x y
  assume "server_counter_name x = server_counter_name y"
  then show "x = y" by (cases x; cases y; simp)
qed

lemma inj_client_counter_name: "inj client_counter_name"
proof (rule injI)
  fix x y
  assume "client_counter_name x = client_counter_name y"
  then show "x = y" by (cases x; cases y; simp)
qed

subsection \<open>Increments\<close>

type_synonym 'k increments = "('k \<times> u64) list"

definition inc :: "'k \<Rightarrow> 'k increments \<Rightarrow> 'k increments" where
  "inc k es = es @ [(k, 1)]"

definition IntCounter_inc_by :: "'k \<Rightarrow> u64 \<Rightarrow> 'k increments \<Rightarrow> 'k increments" where
  "IntCounter_inc_by k amount es = es @ [(k, amount)]"

definition counted :: "'k \<Rightarrow> 'k increments \<Rightarrow> u64" where
  "counted k es = (\<Sum>(k', n) \<leftarrow> es. if k' = k then n else 0)"

lemma counted_simps [simp]:
  "counted k [] = 0"
  "counted k ((k', n) # es) = (if k' = k then n else 0) + counted k es"
  "counted k (es @ es') = counted k es + counted k es'"
  by (simp_all add: counted_def)

lemma counted_replicate:
  "counted k (replicate n (k', 1)) = (if k' = k then word_of_nat n else 0)"
  by (induction n) simp_all

lemma counted_inc [simp]: "counted k (inc k' es) = counted k es + (if k' = k then 1 else 0)"
  by (simp add: inc_def)

lemma counted_inc_by [simp]:
  "counted k (IntCounter_inc_by k' n es) = counted k es + (if k' = k then n else 0)"
  by (simp add: IntCounter_inc_by_def)

interpretation int_counter: metrics_counter "IntCounter_inc_by k" "counted k"
  by unfold_locales simp

subsection \<open>References to counters\<close>

text \<open>\<open>impl MetricsCounter for &T\<close> forwards to the counter it refers to.\<close>

definition ref_inc_by :: "(u64 \<Rightarrow> 'c \<Rightarrow> 'c) \<Rightarrow> u64 \<Rightarrow> 'c \<Rightarrow> 'c" where
  "ref_inc_by inc_by' amount c = inc_by' amount c"

interpretation dummy_ref: metrics_counter "ref_inc_by DummyCounter_inc_by" DummyCounter_get
  by unfold_locales (simp add: ref_inc_by_def DummyCounter_laws)

interpretation int_counter_ref: metrics_counter "ref_inc_by (IntCounter_inc_by k)" "counted k"
  by unfold_locales (simp add: ref_inc_by_def)

end
