(* ===== verification/Forward.thy ===== *)
theory Forward
  imports Protocol_Base Bi_Stream Metrics
begin

section \<open>Forwarding between two streams (\<open>src/forward.rs\<close>)\<close>

text \<open>
  \<open>forward_bidirectional\<close> leaves the copying to tokio and turns its result into counter
  increments or an error.  tokio's \<open>copy_bidirectional_with_sizes\<close> is a parameter: given the two
  buffer sizes and the state of both streams, when it is ready and with how many bytes, or with
  which error.  The state of the task is that of the streams and of the counters.

  \<open>TestStream\<close>, \<open>FailingStream\<close> and \<open>GracefulStream\<close> are the streams of the module's tests, and
  \<open>test_copy\<close> copies between them until both are at their end or one fails.
\<close>

subsection \<open>Model\<close>

type_synonym 's copy_fun = "nat \<Rightarrow> nat \<Rightarrow> 's \<Rightarrow> (io_error + u64 \<times> u64) ready \<times> 's"

definition forward_bidirectional ::
  "'s copy_fun \<Rightarrow> (u64 \<Rightarrow> 'c \<Rightarrow> 'c) \<Rightarrow> (u64 \<Rightarrow> 'c \<Rightarrow> 'c) \<Rightarrow> ('s \<times> 'c, error + unit) async" where
  "forward_bidirectional copy_bidirectional_with_sizes stream_a_counter stream_b_counter =
     (let buf_size = QUIC_STREAM_READ_BUFFER_SIZE in
      bind_async (await (on_fst (copy_bidirectional_with_sizes buf_size buf_size))) (\<lambda>result.
      case result of
        Inr bytes \<Rightarrow>
          (case bytes of (bytes_a, bytes_b) \<Rightarrow>
             bind_async (modify (apsnd (stream_a_counter bytes_a))) (\<lambda>_.
             bind_async (modify (apsnd (stream_b_counter bytes_b))) (\<lambda>_.
             ret (Inr ()))))
      | Inl err \<Rightarrow>
          if contains (io_text err) ''error 0'' then ret (Inr ())
          else ret (Inl (Context ''Bidirectional copy failed'' (FromIo err)))))"

subsection \<open>The streams of the tests\<close>

record TestStream =
  read_data :: bytes
  write_data :: bytes
  pos :: nat

definition TestStream_new :: "bytes \<Rightarrow> TestStream" where
  "TestStream_new initial_data = \<lparr>read_data = initial_data, write_data = [], pos = 0\<rparr>"

definition TestStream_poll_read ::
  "'cx \<Rightarrow> nat \<Rightarrow> TestStream \<Rightarrow> (io_error + bytes) poll \<times> TestStream" where
  "TestStream_poll_read cx buf s =
     (let remaining = drop (pos s) (read_data s) in
      if remaining = [] then (Ready (Inr []), s)
      else let to_copy = min (length remaining) buf
           in (Ready (Inr (take to_copy remaining)), s\<lparr>pos := pos s + to_copy\<rparr>))"

definition TestStream_poll_write ::
  "'cx \<Rightarrow> bytes \<Rightarrow> TestStream \<Rightarrow> (io_error + nat) poll \<times> TestStream" where
  "TestStream_poll_write cx buf s =
     (Ready (Inr (length buf)), s\<lparr>write_data := write_data s @ buf\<rparr>)"

definition TestStream_poll_flush :: "'cx \<Rightarrow> TestStream \<Rightarrow> (io_error + unit) poll \<times> TestStream" where
  "TestStream_poll_flush cx s = (Ready (Inr ()), s)"

definition TestStream_poll_shutdown :: "'cx \<Rightarrow> TestStream \<Rightarrow> (io_error + unit) poll \<times> TestStream" where
  "TestStream_poll_shutdown cx s = (Ready (Inr ()), s)"

definition FailingStream_poll_read :: "'cx \<Rightarrow> nat \<Rightarrow> unit \<Rightarrow> (io_error + bytes) poll \<times> unit" where
  "FailingStream_poll_read cx buf s = (Ready (Inl (IoError OtherKind ''read failure'')), s)"

definition FailingStream_poll_write :: "'cx \<Rightarrow> bytes \<Rightarrow> unit \<Rightarrow> (io_error + nat) poll \<times> unit" where
  "FailingStream_poll_write cx buf s = (Ready (Inl (IoError OtherKind ''write failure'')), s)"

definition FailingStream_poll_flush :: "'cx \<Rightarrow> unit \<Rightarrow> (io_error + unit) poll \<times> unit" where
  "FailingStream_poll_flush cx s = (Ready (Inr ()), s)"

definition FailingStream_poll_shutdown :: "'cx \<Rightarrow> unit \<Rightarrow> (io_error + unit) poll \<times> unit" where
  "FailingStream_poll_shutdown cx s = (Ready (Inr ()), s)"

definition GracefulStream_poll_read :: "'cx \<Rightarrow> nat \<Rightarrow> unit \<Rightarrow> (io_error + bytes) poll \<times> unit" where
  "GracefulStream_poll_read cx buf s =
     (Ready (Inl (IoError OtherKind ''sending stopped by peer: error 0'')), s)"

definition GracefulStream_poll_write :: "'cx \<Rightarrow> bytes \<Rightarrow> unit \<Rightarrow> (io_error + nat) poll \<times> unit" where
  "GracefulStream_poll_write cx buf s =
     (Ready (Inl (IoError OtherKind ''sending stopped by peer: error 0'')), s)"

definition GracefulStream_poll_flush :: "'cx \<Rightarrow> unit \<Rightarrow> (io_error + unit) poll \<times> unit" where
  "GracefulStream_poll_flush cx s = (Ready (Inr ()), s)"

definition GracefulStream_poll_shutdown :: "'cx \<Rightarrow> unit \<Rightarrow> (io_error + unit) poll \<times> unit" where
  "GracefulStream_poll_shutdown cx s = (Ready (Inr ()), s)"

text \<open>
  Copying one direction with a buffer of \<open>n\<close> bytes: poll, write what came, until the end.  The
  fuel is the number of polls; every poll of a stream with data left gives at least one byte.
\<close>

fun drain ::
  "nat \<Rightarrow> nat \<Rightarrow> (nat \<Rightarrow> 'a \<Rightarrow> (io_error + bytes) poll \<times> 'a) \<Rightarrow>
   (bytes \<Rightarrow> 'b \<Rightarrow> (io_error + nat) poll \<times> 'b) \<Rightarrow> 'a \<Rightarrow> 'b \<Rightarrow> (io_error + nat) \<times> 'a \<times> 'b" where
  "drain 0 n rd wr a b = (Inr 0, a, b)"
| "drain (Suc k) n rd wr a b =
     (case rd n a of
        (Ready (Inr []), a') \<Rightarrow> (Inr 0, a', b)
      | (Ready (Inr bs), a') \<Rightarrow>
          (case wr bs b of
             (Ready (Inr _), b') \<Rightarrow>
               (case drain k n rd wr a' b' of
                  (Inr m, ab) \<Rightarrow> (Inr (length bs + m), ab)
                | (Inl e, ab) \<Rightarrow> (Inl e, ab))
           | (Ready (Inl e), b') \<Rightarrow> (Inl e, a', b')
           | (Pending, b') \<Rightarrow> (Inr 0, a', b'))
      | (Ready (Inl e), a') \<Rightarrow> (Inl e, a', b)
      | (Pending, a') \<Rightarrow> (Inr 0, a', b))"

definition test_copy :: "(TestStream \<times> TestStream) copy_fun" where
  "test_copy n m s =
     (case s of (a, b) \<Rightarrow>
        (case drain (Suc (length (read_data a))) n (TestStream_poll_read ())
                (TestStream_poll_write ()) a b of
           (Inl e, a', b') \<Rightarrow> (Ready_in 0 (Inl e), (a', b'))
         | (Inr x, a', b') \<Rightarrow>
             (case drain (Suc (length (read_data b'))) m (TestStream_poll_read ())
                     (TestStream_poll_write ()) b' a' of
                (Inl e, b'', a'') \<Rightarrow> (Ready_in 0 (Inl e), (a'', b''))
              | (Inr y, b'', a'') \<Rightarrow>
                  (Ready_in 0 (Inr (word_of_nat x, word_of_nat y)), (a'', b'')))))"

text \<open>A copy of which the first stream fails at once, as the two other streams do.\<close>

definition failing_copy :: "(nat \<Rightarrow> unit \<Rightarrow> (io_error + bytes) poll \<times> unit) \<Rightarrow> (unit \<times> TestStream) copy_fun" where
  "failing_copy rd n m s =
     (case rd n (fst s) of
        (Ready (Inl e), _) \<Rightarrow> (Ready_in 0 (Inl e), s)
      | _ \<Rightarrow> (Never, s))"

subsection \<open>Lemmas\<close>

lemma timely_forward [timely_intros]: "timely (forward_bidirectional cp ia ib)"
  unfolding forward_bidirectional_def Let_def
  by (intro timely_intros)

lemma forward_run:
  assumes "deadline t = None"
    and "cp QUIC_STREAM_READ_BUFFER_SIZE QUIC_STREAM_READ_BUFFER_SIZE (fst (strm t)) =
      (Ready_in d result, s)"
  shows "forward_bidirectional cp ia ib t =
    (case result of
       Inr (bytes_a, bytes_b) \<Rightarrow>
         Some (Fin (Inr ()) (t\<lparr>now := now t + d,
           strm := (s, ib bytes_b (ia bytes_a (snd (strm t))))\<rparr>))
     | Inl err \<Rightarrow>
         Some (Fin (if contains (io_text err) ''error 0'' then Inr ()
                    else Inl (Context ''Bidirectional copy failed'' (FromIo err)))
           (t\<lparr>now := now t + d, strm := (s, snd (strm t))\<rparr>)))"
  using assms
  by (auto simp: forward_bidirectional_def Let_def bind_async_apply await_free on_fst_def
      modify_def ret_def split: sum.splits)

text \<open>The polls of a test stream deliver everything that is left and nothing else.\<close>

lemma drain_TestStream:
  assumes "0 < n" "pos a \<le> length (read_data a)"
  shows "length (drop (pos a) (read_data a)) < k \<Longrightarrow>
    drain k n (TestStream_poll_read ()) (TestStream_poll_write ()) a b =
      (Inr (length (drop (pos a) (read_data a))), a\<lparr>pos := length (read_data a)\<rparr>,
       b\<lparr>write_data := write_data b @ drop (pos a) (read_data a)\<rparr>)"
  using assms
proof (induction k arbitrary: a b)
  case 0
  then show ?case by simp
next
  case (Suc k)
  let ?r = "drop (pos a) (read_data a)"
  show ?case
  proof (cases "?r = []")
    case True
    with Suc.prems(3) have "pos a = length (read_data a)" by simp
    with True show ?thesis by (simp add: TestStream_poll_read_def)
  next
    case False
    let ?m = "min (length ?r) n"
    let ?a = "a\<lparr>pos := pos a + ?m\<rparr>" and ?b = "b\<lparr>write_data := write_data b @ take ?m ?r\<rparr>"
    have m: "0 < ?m" using False Suc.prems(2) by simp
    have ne: "take ?m ?r \<noteq> []" using False m by auto
    have r: "drop (pos ?a) (read_data ?a) = drop ?m ?r" by (simp add: add.commute)
    have "length (drop (pos ?a) (read_data ?a)) < k"
      using Suc.prems(1) m by simp linarith
    moreover have "pos ?a \<le> length (read_data ?a)" using Suc.prems(3) by simp
    ultimately have IH: "drain k n (TestStream_poll_read ()) (TestStream_poll_write ()) ?a ?b =
      (Inr (length (drop ?m ?r)), ?a\<lparr>pos := length (read_data ?a)\<rparr>,
       ?b\<lparr>write_data := write_data ?b @ drop ?m ?r\<rparr>)"
      using Suc.IH [of ?a ?b] Suc.prems(2) r by (simp add: add.commute)
    obtain x xs where x: "take ?m ?r = x # xs" using ne by (cases "take ?m ?r") auto
    have len: "Suc (length xs) = ?m"
      using arg_cong [OF x, of length] by simp
    have split_r: "x # xs @ drop ?m ?r = ?r"
      using x append_take_drop_id [of ?m ?r] by (metis append_Cons)
    have rd: "TestStream_poll_read () n a = (Ready (Inr (x # xs)), ?a)"
      using False x by (simp add: TestStream_poll_read_def Let_def)
    have wr: "TestStream_poll_write () (x # xs) b = (Ready (Inr (Suc (length xs))), ?b)"
      using x by (simp add: TestStream_poll_write_def)
    have "Suc (length xs) + length (drop ?m ?r) = length ?r"
      using arg_cong [OF split_r, of length] by simp
    then show ?thesis
      using IH x split_r by (simp add: rd wr)
  qed
qed

lemma test_copy_run:
  assumes "0 < n" "0 < m"
  shows "test_copy n m (TestStream_new x, TestStream_new y) =
    (Ready_in 0 (Inr (word_of_nat (length x), word_of_nat (length y))),
     \<lparr>read_data = x, write_data = y, pos = length x\<rparr>,
     \<lparr>read_data = y, write_data = x, pos = length y\<rparr>)"
  using drain_TestStream [OF assms(1), of "TestStream_new x" "Suc (length x)" "TestStream_new y"]
    drain_TestStream [OF assms(2), of "\<lparr>read_data = y, write_data = x, pos = 0\<rparr>" "Suc (length y)"
      "\<lparr>read_data = x, write_data = [], pos = length x\<rparr>"]
  by (simp add: test_copy_def TestStream_new_def del: drain.simps)

subsection \<open>Properties\<close>

text \<open>
  C22: when the copy ends, the function returns \<open>Ok\<close> exactly for a completed copy or an error
  whose text contains \<open>error 0\<close>, keeps the error under its context otherwise, and touches the
  counters only for a completed copy, adding the bytes of each direction to its own counter.
\<close>

theorem forward_outcome_and_counters:
  assumes "deadline t = None" "ka \<noteq> kb"
    and "cp QUIC_STREAM_READ_BUFFER_SIZE QUIC_STREAM_READ_BUFFER_SIZE (fst (strm t)) =
      (Ready_in d result, s)"
  shows "\<exists>t' r. forward_bidirectional cp (IntCounter_inc_by ka) (IntCounter_inc_by kb) t = Some (Fin r t') \<and>
    (case result of
       Inr _ \<Rightarrow> r = Inr ()
     | Inl e \<Rightarrow>
         r = (if contains (io_text e) ''error 0'' then Inr ()
              else Inl (Context ''Bidirectional copy failed'' (FromIo e)))) \<and>
    counted k (snd (strm t')) = counted k (snd (strm t)) +
      (case result of
         Inl _ \<Rightarrow> 0
       | Inr (bytes_a, bytes_b) \<Rightarrow> if k = ka then bytes_a else if k = kb then bytes_b else 0)"
  using forward_run [of t cp, OF assms(1,3), of "IntCounter_inc_by ka" "IntCounter_inc_by kb"] assms(2)
  by (auto split: sum.splits prod.splits)

theorem forward_outcome_and_counters_witness:
  "\<exists>t'. forward_bidirectional (failing_copy (FailingStream_poll_read ()))
      (IntCounter_inc_by BYTES_TRANSMITTED_A) (IntCounter_inc_by BYTES_TRANSMITTED_B)
      \<lparr>now = 0, deadline = None, strm = (((), TestStream_new ''data''), [])\<rparr> =
      Some (Fin (Inl (Context ''Bidirectional copy failed''
        (FromIo (IoError OtherKind ''read failure'')))) t') \<and>
    counted BYTES_TRANSMITTED_A (snd (strm t')) = 0"
  using forward_outcome_and_counters [of
      "\<lparr>now = 0, deadline = None, strm = (((), TestStream_new ''data''), [])\<rparr>"
      BYTES_TRANSMITTED_A BYTES_TRANSMITTED_B "failing_copy (FailingStream_poll_read ())" 0
      "Inl (IoError OtherKind ''read failure'')" "((), TestStream_new ''data'')" BYTES_TRANSMITTED_A]
  by (auto simp: failing_copy_def FailingStream_poll_read_def)

text \<open>
  Between two in-memory streams everything arrives: each stream has received exactly the
  data of the other, whatever their lengths are compared with the buffer, and the counters have
  grown by these lengths, as 64-bit numbers.
\<close>

lemma forward_delivers_everything:
  "\<exists>t'. forward_bidirectional test_copy
      (\<lambda>n. apfst (DummyCounter_inc_by n)) (\<lambda>n. apsnd (DummyCounter_inc_by n))
      \<lparr>now = 0, deadline = None,
       strm = ((TestStream_new x, TestStream_new y), (DummyCounter_new, DummyCounter_new))\<rparr> =
      Some (Fin (Inr ()) t') \<and>
    write_data (fst (fst (strm t'))) = y \<and> write_data (snd (fst (strm t'))) = x \<and>
    DummyCounter_get (fst (snd (strm t'))) = word_of_nat (length x) \<and>
    DummyCounter_get (snd (snd (strm t'))) = word_of_nat (length y)"
proof -
  let ?t = "\<lparr>now = 0, deadline = None,
       strm = ((TestStream_new x, TestStream_new y), (DummyCounter_new, DummyCounter_new))\<rparr>"
  have "test_copy QUIC_STREAM_READ_BUFFER_SIZE QUIC_STREAM_READ_BUFFER_SIZE (fst (strm ?t)) =
    (Ready_in 0 (Inr (word_of_nat (length x), word_of_nat (length y))),
     \<lparr>read_data = x, write_data = y, pos = length x\<rparr>,
     \<lparr>read_data = y, write_data = x, pos = length y\<rparr>)"
    by (simp add: test_copy_run QUIC_STREAM_READ_BUFFER_SIZE_def)
  from forward_run [of ?t test_copy, OF _ this, of "\<lambda>n. apfst (DummyCounter_inc_by n)"
      "\<lambda>n. apsnd (DummyCounter_inc_by n)"]
  show ?thesis by (simp add: DummyCounter_laws DummyCounter_new_def)
qed

end
