(* ===== verification/Client_Handler.thy ===== *)
theory Client_Handler
  imports App_Data Quic_Endpoints Protocol_Auth Protocol_Keepalive Forward
begin

section \<open>The client's connection handler (\<open>src/client/auth.rs\<close>,
  \<open>src/client/server_handler.rs\<close>, \<open>src/client/tcp_forwarder.rs\<close>)\<close>

text \<open>
  The client accepts the control stream the server opens, authenticates on it, spawns the
  keepalive loop, and then accepts one QUIC stream per forwarded connection, spawning for each
  a task that connects to the destination and forwards.  The state is that of the connection,
  the increments of the counters and the spawned tasks.
\<close>

subsection \<open>Model\<close>

datatype ('r, 'w) client_task =
    Keepalive_task "('r, 'w) BiStream"
  | Forward_task "('r, 'w) BiStream"

record ('q, 'r, 'w) client_world =
  cw_conn :: 'q
  cw_metrics :: "client_counter increments"
  cw_tasks :: "('r, 'w) client_task list"

record ('q, 'r, 'w) client_env =
  accept_bi :: "'q \<Rightarrow> (string + 'w \<times> 'r) ready \<times> 'q"
  client_stream_id :: "'r \<Rightarrow> string"
  client_recv :: "'r reader_api"
  client_send :: "'w writer_api"
  client_crypto :: crypto

abbreviation client_api :: "('q, 'r, 'w) client_env \<Rightarrow> ('r, 'w) BiStream io_api" where
  "client_api env \<equiv> BiStream_api (client_recv env) (client_send env)"

definition on_quic ::
  "('q \<Rightarrow> 'p \<times> 'q) \<Rightarrow> ('q, 'r, 'w) client_world \<Rightarrow> 'p \<times> ('q, 'r, 'w) client_world" where
  "on_quic op w = (case op (cw_conn w) of (p, q) \<Rightarrow> (p, w\<lparr>cw_conn := q\<rparr>))"

definition client_count :: "client_counter \<Rightarrow> ('q, 'r, 'w) client_world \<Rightarrow> ('q, 'r, 'w) client_world" where
  "client_count k w = w\<lparr>cw_metrics := inc k (cw_metrics w)\<rparr>"

definition client_spawn ::
  "('r, 'w) client_task \<Rightarrow> ('q, 'r, 'w) client_world \<Rightarrow> ('q, 'r, 'w) client_world" where
  "client_spawn task w = w\<lparr>cw_tasks := cw_tasks w @ [task]\<rparr>"

definition handle_quic_auth_client_side ::
  "('q, 'r, 'w) client_env \<Rightarrow> ('addr, ('conn, 'dest) ClientAppData) ClientConfig \<Rightarrow>
   (('q, 'r, 'w) client_world, error + ('r, 'w) BiStream) async" where
  "handle_quic_auth_client_side env config =
     bind_async (await (on_quic (accept_bi env))) (\<lambda>accepted.
     case accepted of
       Inr halves \<Rightarrow>
         (case halves of (send, recv) \<Rightarrow>
            bind_async
              (with_stream (BiStream_new recv send (client_stream_id env recv))
                 (client_authenticate (client_api env) (client_crypto env)
                    (c_connection_auth_psk (client_app_data config)))) (\<lambda>r.
            case r of (result, bi_stream) \<Rightarrow>
              (case result of
                 Inr _ \<Rightarrow> ret (Inr bi_stream)
               | Inl e \<Rightarrow> ret (Inl (Msg ''failed to authenticate against PR QUIC server'')))))
     | Inl _ \<Rightarrow> ret (Inl (Msg ''failed to accept bidi AUTH connection'')))"

text \<open>One turn of \<open>while let Ok(..) = conn.accept_bi().await\<close>.\<close>

definition accept_streams_step ::
  "('q, 'r, 'w) client_env \<Rightarrow> unit \<Rightarrow> (('q, 'r, 'w) client_world, (unit, unit) ctl) async" where
  "accept_streams_step env _ =
     bind_async (await (on_quic (accept_bi env))) (\<lambda>accepted.
     case accepted of
       Inl _ \<Rightarrow> ret (Break ())
     | Inr halves \<Rightarrow>
         (case halves of (send, recv) \<Rightarrow>
            bind_async (modify (client_count CONNECTIONS_ACCEPTED)) (\<lambda>_.
            bind_async (modify (client_spawn (Forward_task
                (BiStream_new recv send (client_stream_id env recv))))) (\<lambda>_.
            ret (Continue ())))))"

definition handle_quic_server_connection ::
  "('q, 'r, 'w) client_env \<Rightarrow> ('addr, ('conn, 'dest) ClientAppData) ClientConfig \<Rightarrow>
   (('q, 'r, 'w) client_world, error + unit) async" where
  "handle_quic_server_connection env config =
     bind_async (modify (client_count CLIENT_CONNECTIONS_OPENED_TOTAL)) (\<lambda>_.
     try_async (map_async (context_res ''failed to authenticate against PR QUIC server'')
                  (handle_quic_auth_client_side env config)) (\<lambda>auth_stream.
     bind_async (modify (client_spawn (Keepalive_task auth_stream))) (\<lambda>_.
     bind_async (loop_async (accept_streams_step env) ()) (\<lambda>_.
     bind_async (modify (client_count CLIENT_CONNECTIONS_GRACEFULLY_CLOSED_TOTAL)) (\<lambda>_.
     ret (Inr ()))))))"

text \<open>The keepalive task; its state is the stream and the counters.\<close>

definition keepalive_task ::
  "'s io_api \<Rightarrow> 'i interval_api \<Rightarrow> 's \<Rightarrow> (client_counter increments, unit) async" where
  "keepalive_task api iv auth_stream =
     bind_async (with_stream auth_stream (run_keepalive_client_loop api iv)) (\<lambda>r.
     case fst r of
       Inl e \<Rightarrow> modify (inc CLIENT_KEEPALIVE_ERRORS)
     | Inr _ \<Rightarrow> ret ())"

text \<open>Running a computation on streams of its own besides the state.\<close>

definition with_streams :: "'u \<Rightarrow> ('u \<times> 's, 'a) async \<Rightarrow> ('s, 'a) async" where
  "with_streams u m t =
     Option.bind (m \<lparr>now = now t, deadline = deadline t, strm = (u, strm t)\<rparr>)
       (\<lambda>r. Some (case r of
          Fin a t' \<Rightarrow> Fin a (t\<lparr>now := now t', deadline := deadline t', strm := snd (strm t')\<rparr>)
        | Cut t' \<Rightarrow> Cut (t\<lparr>now := now t', deadline := deadline t', strm := snd (strm t')\<rparr>)))"

text \<open>
  Forwarding one stream: connect to the destination, then copy.  \<open>tcp_connect\<close> is
  \<open>TcpStream::connect\<close>; the copy works on the new TCP stream and the QUIC stream.
\<close>

definition client_forward_tcp_to_quic_stream ::
  "('dest \<Rightarrow> (string + 'tcp) ready) \<Rightarrow> ('tcp \<times> 's) copy_fun \<Rightarrow> 'dest \<Rightarrow> 's \<Rightarrow>
   (client_counter increments, error + unit) async" where
  "client_forward_tcp_to_quic_stream tcp_connect cp forward_destination quic_stream =
     bind_async (await (\<lambda>m. (tcp_connect forward_destination, m))) (\<lambda>connected.
     case connected of
       Inl e \<Rightarrow> ret (Inl (Msg (''failed to connect to destination: '' @ e)))
     | Inr tcp_stream \<Rightarrow>
         with_streams (tcp_stream, quic_stream)
           (try_async (forward_bidirectional cp
               (ref_inc_by (IntCounter_inc_by CLIENT_BYTES_TRANSMITTED_A))
               (ref_inc_by (IntCounter_inc_by CLIENT_BYTES_TRANSMITTED_B))) (\<lambda>_.
            ret (Inr ()))))"

definition client_forward_task ::
  "('dest \<Rightarrow> (string + 'tcp) ready) \<Rightarrow> ('tcp \<times> 's) copy_fun \<Rightarrow> 'dest \<Rightarrow> 's \<Rightarrow>
   (client_counter increments, unit) async" where
  "client_forward_task tcp_connect cp forward_destination quic_stream =
     bind_async (client_forward_tcp_to_quic_stream tcp_connect cp forward_destination quic_stream) (\<lambda>r.
     case r of
       Inl e \<Rightarrow> modify (inc TCP_FORWARDING_ERRORS)
     | Inr _ \<Rightarrow> ret ())"

subsection \<open>Lemmas\<close>

lemma await_on_quic_FinE:
  assumes "await (on_quic op) t = Some (Fin a t')"
  obtains "cw_metrics (strm t') = cw_metrics (strm t)" "cw_tasks (strm t') = cw_tasks (strm t)"
  using assms by (auto elim!: await_FinE simp: on_quic_def split: prod.splits)

lemma auth_frame:
  assumes "handle_quic_auth_client_side env config t = Some (Fin r t')"
  shows "cw_metrics (strm t') = cw_metrics (strm t) \<and> cw_tasks (strm t') = cw_tasks (strm t)"
  using assms unfolding handle_quic_auth_client_side_def
  by (auto elim!: bind_async_FinE await_on_quic_FinE with_stream_FinE simp: ret_def
      split: sum.splits prod.splits)

text \<open>The streams accepted and the tasks spawned for them grow together, and nothing else changes.\<close>

definition grown :: "('q, 'r, 'w) client_world \<Rightarrow> ('q, 'r, 'w) client_world \<Rightarrow> bool" where
  "grown w w' \<longleftrightarrow>
     (\<exists>fs. cw_tasks w' = cw_tasks w @ map Forward_task fs \<and>
        (\<forall>k. counted k (cw_metrics w') = counted k (cw_metrics w) +
           (if k = CONNECTIONS_ACCEPTED then word_of_nat (length fs) else 0)))"

lemma grown_same:
  "cw_metrics w' = cw_metrics w \<Longrightarrow> cw_tasks w' = cw_tasks w \<Longrightarrow> grown w w'"
  by (auto simp: grown_def intro: exI [of _ "[]"])

lemma grown_trans: "grown w1 w2 \<Longrightarrow> grown w2 w3 \<Longrightarrow> grown w1 w3"
proof -
  assume "grown w1 w2" "grown w2 w3"
  then obtain fs gs where
    "cw_tasks w2 = cw_tasks w1 @ map Forward_task fs" "cw_tasks w3 = cw_tasks w2 @ map Forward_task gs"
    "\<forall>k. counted k (cw_metrics w2) = counted k (cw_metrics w1) +
       (if k = CONNECTIONS_ACCEPTED then word_of_nat (length fs) else 0)"
    "\<forall>k. counted k (cw_metrics w3) = counted k (cw_metrics w2) +
       (if k = CONNECTIONS_ACCEPTED then word_of_nat (length gs) else 0)"
    unfolding grown_def by blast
  then show "grown w1 w3"
    unfolding grown_def by (intro exI [of _ "fs @ gs"]) (simp add: algebra_simps)
qed

text \<open>One turn of the accept loop: the connection has ended, or a stream is counted and forwarded.\<close>

lemma accept_streams_stepE:
  assumes run: "accept_streams_step env u t = Some (Fin x t')"
  obtains (ended) "x = Break ()" "cw_metrics (strm t') = cw_metrics (strm t)"
      "cw_tasks (strm t') = cw_tasks (strm t)"
  | (accepted) s w where "x = Continue ()" "cw_metrics w = cw_metrics (strm t)"
      "cw_tasks w = cw_tasks (strm t)"
      "strm t' = client_spawn (Forward_task s) (client_count CONNECTIONS_ACCEPTED w)"
proof -
  from run obtain a t1 where a: "await (on_quic (accept_bi env)) t = Some (Fin a t1)"
    and rest: "(case a of
       Inl _ \<Rightarrow> ret (Break ())
     | Inr halves \<Rightarrow>
         (case halves of (send, recv) \<Rightarrow>
            bind_async (modify (client_count CONNECTIONS_ACCEPTED)) (\<lambda>_.
            bind_async (modify (client_spawn (Forward_task
                (BiStream_new recv send (client_stream_id env recv))))) (\<lambda>_.
            ret (Continue ()))))) t1 = Some (Fin x t')"
    unfolding accept_streams_step_def by (rule bind_async_FinE)
  from a have f: "cw_metrics (strm t1) = cw_metrics (strm t)" "cw_tasks (strm t1) = cw_tasks (strm t)"
    by (auto elim: await_on_quic_FinE)
  show ?thesis
  proof (cases a)
    case (Inl e)
    with rest f show ?thesis by (intro ended) (auto simp: ret_def)
  next
    case (Inr halves)
    obtain send recv where "halves = (send, recv)" by (cases halves)
    with Inr rest f show ?thesis
      by (intro accepted [of "strm t1" "BiStream_new recv send (client_stream_id env recv)"])
        (auto simp: bind_async_apply modify_def ret_def)
  qed
qed

text \<open>What every turn of the loop keeps between its state and the state of the start.\<close>

lemma accept_streams_loop_rel:
  assumes run: "loop_async (accept_streams_step env) u t = Some (Fin v t')"
    and same: "\<And>w w'. cw_metrics w' = cw_metrics w \<Longrightarrow> cw_tasks w' = cw_tasks w \<Longrightarrow> R w w'"
    and trans: "\<And>w1 w2 w3. R w1 w2 \<Longrightarrow> R w2 w3 \<Longrightarrow> R w1 w3"
    and accept: "\<And>s w. R w (client_spawn (Forward_task s) (client_count CONNECTIONS_ACCEPTED w))"
  shows "R (strm t) (strm t')"
proof -
  have step: "R (strm t1) (strm t2)" if "accept_streams_step env u1 t1 = Some (Fin x t2)" for u1 t1 x t2
    using that
  proof (cases rule: accept_streams_stepE)
    case ended
    then show ?thesis by (intro same)
  next
    case (accepted s w)
    then have "R (strm t1) w" by (intro same)
    with accepted(4) show ?thesis using trans [OF _ accept [of w s]] by simp
  qed
  have "case Fin v t' of Fin _ t' \<Rightarrow> R (strm t) (strm t') | Cut _ \<Rightarrow> True"
    using run
  proof (rule loop_async_rule [where I = "\<lambda>_ t1. R (strm t) (strm t1)"])
    show "R (strm t) (strm t)" by (rule same) simp_all
  next
    fix u1 t1 u2 t2
    assume "R (strm t) (strm t1)" "accept_streams_step env u1 t1 = Some (Fin (Continue u2) t2)"
    then show "R (strm t) (strm t2)" using step trans by blast
  next
    fix u1 t1 a t2
    assume "R (strm t) (strm t1)" "accept_streams_step env u1 t1 = Some (Fin (Break a) t2)"
    then have "R (strm t) (strm t2)" using step trans by blast
    then show "case Fin a t2 of Fin _ t' \<Rightarrow> R (strm t) (strm t') | Cut _ \<Rightarrow> True" by simp
  qed simp
  then show ?thesis by simp
qed

lemma accept_streams_loop_grown:
  assumes "loop_async (accept_streams_step env) u t = Some (Fin v t')"
  shows "grown (strm t) (strm t')"
  using assms
proof (rule accept_streams_loop_rel)
  show "grown w (client_spawn (Forward_task s) (client_count CONNECTIONS_ACCEPTED w))" for s w
    unfolding grown_def
    by (intro exI [of _ "[s]"]) (auto simp: client_spawn_def client_count_def)
qed (fact grown_same grown_trans)+

lemma client_auth_inv:
  assumes "handle_quic_auth_client_side env config t = Some (Fin (Inr s) t')"
  shows "\<exists>d send recv q t1 t2. accept_bi env (cw_conn (strm t)) = (Ready_in d (Inr (send, recv)), q) \<and>
    strm t1 = BiStream_new recv send (client_stream_id env recv) \<and>
    client_authenticate (client_api env) (client_crypto env)
      (c_connection_auth_psk (client_app_data config)) t1 = Some (Fin (Inr ()) t2) \<and> strm t2 = s"
proof -
  from assms obtain a t1 where a: "await (on_quic (accept_bi env)) t = Some (Fin a t1)"
    and rest: "(case a of
       Inr halves \<Rightarrow>
         (case halves of (send, recv) \<Rightarrow>
            bind_async
              (with_stream (BiStream_new recv send (client_stream_id env recv))
                 (client_authenticate (client_api env) (client_crypto env)
                    (c_connection_auth_psk (client_app_data config)))) (\<lambda>r.
            case r of (result, bi_stream) \<Rightarrow>
              (case result of
                 Inr _ \<Rightarrow> ret (Inr bi_stream)
               | Inl e \<Rightarrow> ret (Inl (Msg ''failed to authenticate against PR QUIC server'')))))
     | Inl _ \<Rightarrow> ret (Inl (Msg ''failed to accept bidi AUTH connection''))) t1 = Some (Fin (Inr s) t')"
    unfolding handle_quic_auth_client_side_def by (rule bind_async_FinE)
  from rest obtain send recv where sr: "a = Inr (send, recv)"
    by (auto simp: ret_def split: sum.splits prod.splits)
  with a obtain d q where "accept_bi env (cw_conn (strm t)) = (Ready_in d (Inr (send, recv)), q)"
    by (auto elim!: await_FinE simp: on_quic_def split: prod.splits)
  moreover from rest sr obtain x t2 where
    x: "with_stream (BiStream_new recv send (client_stream_id env recv))
        (client_authenticate (client_api env) (client_crypto env)
          (c_connection_auth_psk (client_app_data config))) t1 = Some (Fin x t2)"
    and y: "(case x of (result, bi_stream) \<Rightarrow>
        (case result of Inr _ \<Rightarrow> ret (Inr bi_stream)
         | Inl e \<Rightarrow> ret (Inl (Msg ''failed to authenticate against PR QUIC server'')))) t2 = Some (Fin (Inr s) t')"
    by (auto elim: bind_async_FinE)
  from y have "\<exists>u. x = (Inr u, s)" by (auto simp: ret_def split: prod.splits sum.splits)
  then have "x = (Inr (), s)" by simp
  with x obtain t3 where "client_authenticate (client_api env) (client_crypto env)
      (c_connection_auth_psk (client_app_data config))
      \<lparr>now = now t1, deadline = deadline t1,
       strm = BiStream_new recv send (client_stream_id env recv)\<rparr> = Some (Fin (Inr ()) t3)" "strm t3 = s"
    by (auto elim: with_stream_FinE)
  moreover have "strm \<lparr>now = now t1, deadline = deadline t1,
       strm = BiStream_new recv send (client_stream_id env recv)\<rparr> =
       BiStream_new recv send (client_stream_id env recv)" by simp
  ultimately show ?thesis by blast
qed

lemma client_forward_task_run:
  assumes t: "deadline t = None"
    and conn: "tcp_connect dest = Ready_in d (Inr tcp)"
    and cp: "cp QUIC_STREAM_READ_BUFFER_SIZE QUIC_STREAM_READ_BUFFER_SIZE (tcp, s) = (Ready_in d' result, s')"
  shows "\<exists>t'. client_forward_task tcp_connect cp dest s t = Some (Fin () t') \<and>
    strm t' = strm t @ (case result of
      Inr (bytes_a, bytes_b) \<Rightarrow> [(CLIENT_BYTES_TRANSMITTED_A, bytes_a), (CLIENT_BYTES_TRANSMITTED_B, bytes_b)]
    | Inl err \<Rightarrow> if contains (io_text err) ''error 0'' then [] else [(TCP_FORWARDING_ERRORS, 1)])"
proof -
  let ?t = "\<lparr>now = now t + d, deadline = None, strm = ((tcp, s), strm t)\<rparr>"
  have "cp QUIC_STREAM_READ_BUFFER_SIZE QUIC_STREAM_READ_BUFFER_SIZE (fst (strm ?t)) = (Ready_in d' result, s')"
    using cp by simp
  from forward_run [of ?t cp, OF _ this, of "ref_inc_by (IntCounter_inc_by CLIENT_BYTES_TRANSMITTED_A)"
      "ref_inc_by (IntCounter_inc_by CLIENT_BYTES_TRANSMITTED_B)"]
  show ?thesis
    using t conn
    by (auto simp: client_forward_task_def client_forward_tcp_to_quic_stream_def bind_async_apply
        await_free with_streams_def try_async_apply ret_def modify_def inc_def ref_inc_by_def
        IntCounter_inc_by_def split: sum.splits prod.splits)
qed

lemma client_forward_task_no_connection:
  assumes t: "deadline t = None" and conn: "tcp_connect dest = Ready_in d (Inl e)"
  shows "\<exists>t'. client_forward_task tcp_connect cp dest s t = Some (Fin () t') \<and>
    strm t' = strm t @ [(TCP_FORWARDING_ERRORS, 1)]"
  using t conn
  by (simp add: client_forward_task_def client_forward_tcp_to_quic_stream_def bind_async_apply
      await_free ret_def modify_def inc_def)

text \<open>
  The two ways the handler returns: the handshake failed, or it succeeded and the accept loop has
  run to its end.
\<close>

lemma client_handler_inv:
  assumes "handle_quic_server_connection env config t = Some (Fin r t')"
  obtains (failed) e where "r = Inl (Context ''failed to authenticate against PR QUIC server'' e)"
      "cw_tasks (strm t') = cw_tasks (strm t)"
      "cw_metrics (strm t') = inc CLIENT_CONNECTIONS_OPENED_TOTAL (cw_metrics (strm t))"
  | (served) d send recv q u1 u2 t2 w t3 where "r = Inr ()"
      "accept_bi env (cw_conn (strm t)) = (Ready_in d (Inr (send, recv)), q)"
      "strm u1 = BiStream_new recv send (client_stream_id env recv)"
      "client_authenticate (client_api env) (client_crypto env)
        (c_connection_auth_psk (client_app_data config)) u1 = Some (Fin (Inr ()) u2)"
      "cw_tasks w = cw_tasks (strm t)"
      "cw_metrics w = inc CLIENT_CONNECTIONS_OPENED_TOTAL (cw_metrics (strm t))"
      "strm t2 = client_spawn (Keepalive_task (strm u2)) w"
      "loop_async (accept_streams_step env) () t2 = Some (Fin () t3)"
      "strm t' = client_count CLIENT_CONNECTIONS_GRACEFULLY_CLOSED_TOTAL (strm t3)"
proof -
  let ?auth = "map_async (context_res ''failed to authenticate against PR QUIC server'')
      (handle_quic_auth_client_side env config)"
  let ?t0 = "t\<lparr>strm := client_count CLIENT_CONNECTIONS_OPENED_TOTAL (strm t)\<rparr>"
  have "try_async ?auth (\<lambda>auth_stream.
      bind_async (modify (client_spawn (Keepalive_task auth_stream))) (\<lambda>_.
      bind_async (loop_async (accept_streams_step env) ()) (\<lambda>_.
      bind_async (modify (client_count CLIENT_CONNECTIONS_GRACEFULLY_CLOSED_TOTAL)) (\<lambda>_.
      ret (Inr ()))))) ?t0 = Some (Fin r t')"
    using assms by (simp add: handle_quic_server_connection_def
        bind_async_apply [of "modify (client_count CLIENT_CONNECTIONS_OPENED_TOTAL)"] modify_def [of _ t])
  then show ?thesis
  proof (cases rule: try_async_FinE)
    case (err e)
    from err(1) obtain x where x: "handle_quic_auth_client_side env config ?t0 = Some (Fin x t')"
      "Inl e = context_res ''failed to authenticate against PR QUIC server'' x"
      by (rule map_async_FinE)
    then obtain e' where "e = Context ''failed to authenticate against PR QUIC server'' e'"
      by (cases x) auto
    with auth_frame [OF x(1)] err(2) show ?thesis by (intro failed) (auto simp: client_count_def)
  next
    case (ok s t1)
    from ok(1) obtain x where x: "handle_quic_auth_client_side env config ?t0 = Some (Fin x t1)"
      "Inr s = context_res ''failed to authenticate against PR QUIC server'' x"
      by (rule map_async_FinE)
    then have "handle_quic_auth_client_side env config ?t0 = Some (Fin (Inr s) t1)"
      by (cases x) auto
    note frame = auth_frame [OF this] and inv = client_auth_inv [OF this]
    have "cw_conn (strm ?t0) = cw_conn (strm t)" by (simp add: client_count_def)
    with inv obtain d send recv q u1 u2 where auth:
      "accept_bi env (cw_conn (strm t)) = (Ready_in d (Inr (send, recv)), q)"
      "strm u1 = BiStream_new recv send (client_stream_id env recv)"
      "client_authenticate (client_api env) (client_crypto env)
        (c_connection_auth_psk (client_app_data config)) u1 = Some (Fin (Inr ()) u2)" "strm u2 = s"
      by auto
    let ?t2 = "t1\<lparr>strm := client_spawn (Keepalive_task s) (strm t1)\<rparr>"
    from ok(2) obtain t3 where loop: "loop_async (accept_streams_step env) () ?t2 = Some (Fin () t3)"
      and end': "r = Inr ()"
        "strm t' = client_count CLIENT_CONNECTIONS_GRACEFULLY_CLOSED_TOTAL (strm t3)"
      by (auto simp: bind_async_apply [of "modify _"] modify_def ret_def elim!: bind_async_FinE)
    show ?thesis
      by (rule served [of d send recv q u1 u2 "strm t1" ?t2 t3])
        (use auth end' loop frame in \<open>simp_all add: client_count_def\<close>)
  qed
qed

subsection \<open>A concrete environment\<close>

text \<open>The server opens the listed streams, each with the data it has sent, and then closes.\<close>

definition stream_list_env :: "(bytes list list, bytes list, bytes) client_env" where
  "stream_list_env =
     \<lparr>accept_bi = (\<lambda>q. case q of [] \<Rightarrow> (Ready_in 0 (Inl ''closed''), [])
        | cs # q' \<Rightarrow> (Ready_in 0 (Inr ([], cs)), q')),
      client_stream_id = (\<lambda>_. ''0''), client_recv = pipe_reader, client_send = pipe_writer,
      client_crypto = sample_crypto\<rparr>"

definition stream_list_task :: "bytes list list \<Rightarrow> (bytes list list, bytes list, bytes) client_world task" where
  "stream_list_task q =
     \<lparr>now = 0, deadline = None, strm = \<lparr>cw_conn = q, cw_metrics = [], cw_tasks = []\<rparr>\<rparr>"

definition sample_client_config :: "(nat, (unit, nat) ClientAppData) ClientConfig" where
  "sample_client_config =
     ClientConfig_create_default_config ''/etc/pr'' 0 1 None None (ClientAppData_new ''key'' 80)"

definition sample_challenge_text :: string where
  "sample_challenge_text =
     server_challenge sample_crypto (replicate 32 (CHR 0x2A)) (\<lambda>_. 0)"

lemma sample_client_authenticated:
  assumes "deadline t = None"
    and "strm t = BiStream_new [request_text sample_challenge_text, ''HAPPY'' @ [newline]] [] name"
  shows "\<exists>t'. client_authenticate pipe_api sample_crypto psk t = Some (Fin (Inr ()) t')"
proof -
  have "getrandom_fill sample_crypto 32 = Inr (replicate 32 (CHR 0x2A))"
    by (simp add: sample_crypto_def)
  note clean = server_challenge_clean [OF sample_crypto_ok this, of "\<lambda>_. 0", folded sample_challenge_text_def]
  show ?thesis
    using chunk_stream.client_authenticate_run [OF pipe_chunk_stream, of t sample_challenge_text
        "''HAPPY'' @ [newline]" sample_crypto psk] clean assms
    by (auto simp: pipe_rx_def BiStream_new_def)
qed

lemma stream_list_api: "client_api stream_list_env = pipe_api"
  by (simp add: stream_list_env_def pipe_api_def)

lemma stream_list_auth:
  assumes "deadline t = None"
    and q: "cw_conn (strm t) = [request_text sample_challenge_text, ''HAPPY'' @ [newline]] # q"
  shows "\<exists>s t'. handle_quic_auth_client_side stream_list_env config t = Some (Fin (Inr s) t') \<and>
    deadline t' = None \<and> cw_conn (strm t') = q \<and> cw_tasks (strm t') = cw_tasks (strm t)"
proof -
  let ?cs = "[request_text sample_challenge_text, ''HAPPY'' @ [newline]]"
  let ?t = "\<lparr>now = now t, deadline = None, strm = BiStream_new ?cs [] ''0''\<rparr>"
  note api = stream_list_api
  obtain t' where t': "client_authenticate pipe_api sample_crypto
      (c_connection_auth_psk (client_app_data config)) ?t = Some (Fin (Inr ()) t')"
    using sample_client_authenticated [of ?t "''0''"] by auto
  have "deadline t' = None"
    using timely_FinD [OF timely_client_authenticate _ t'] by (simp add: in_time_def)
  with t' show ?thesis
    using assms unfolding handle_quic_auth_client_side_def api
    by (simp add: bind_async_apply await_free on_quic_def stream_list_env_def with_stream_def ret_def)
qed

lemma stream_list_loop:
  assumes "deadline t = None" "cw_conn (strm t) = q"
  shows "\<exists>t'. loop_async (accept_streams_step stream_list_env) () t = Some (Fin () t') \<and>
    length (cw_tasks (strm t')) = length (cw_tasks (strm t)) + length q"
  using assms
proof (induction q arbitrary: t)
  case Nil
  then have "accept_streams_step stream_list_env () t = Some (Fin (Break ()) t)"
    by (simp add: accept_streams_step_def bind_async_apply await_free on_quic_def stream_list_env_def ret_def)
  from loop_async_Break [of "accept_streams_step stream_list_env", OF this] show ?case by simp
next
  case (Cons cs q)
  define t1 where "t1 = t\<lparr>strm := client_spawn (Forward_task (BiStream_new cs [] ''0''))
      (client_count CONNECTIONS_ACCEPTED (strm t\<lparr>cw_conn := q\<rparr>))\<rparr>"
  have "accept_streams_step stream_list_env () t = Some (Fin (Continue ()) t1)"
    using Cons.prems
    by (simp add: accept_streams_step_def bind_async_apply await_free on_quic_def stream_list_env_def
        ret_def modify_def t1_def)
  moreover have "deadline t1 = None" "cw_conn (strm t1) = q"
    "length (cw_tasks (strm t1)) = Suc (length (cw_tasks (strm t)))"
    using Cons.prems by (simp_all add: t1_def client_count_def client_spawn_def)
  ultimately show ?case
    using Cons.IH [of t1] loop_async_Continue [of "accept_streams_step stream_list_env"] by fastforce
qed

lemma sample_client_run:
  "\<exists>t'. handle_quic_server_connection stream_list_env config
      (stream_list_task ([request_text sample_challenge_text, ''HAPPY'' @ [newline]] # q)) =
      Some (Fin (Inr ()) t') \<and> length (cw_tasks (strm t')) = Suc (length q)"
proof -
  let ?t = "stream_list_task ([request_text sample_challenge_text, ''HAPPY'' @ [newline]] # q)"
  let ?t0 = "?t\<lparr>strm := client_count CLIENT_CONNECTIONS_OPENED_TOTAL (strm ?t)\<rparr>"
  obtain s t1 where t1: "handle_quic_auth_client_side stream_list_env config ?t0 = Some (Fin (Inr s) t1)"
    "deadline t1 = None" "cw_conn (strm t1) = q"
    "cw_tasks (strm t1) = []"
    using stream_list_auth [of ?t0 q config] by (auto simp: stream_list_task_def client_count_def)
  let ?t2 = "t1\<lparr>strm := client_spawn (Keepalive_task s) (strm t1)\<rparr>"
  obtain t3 where "loop_async (accept_streams_step stream_list_env) () ?t2 = Some (Fin () t3)"
    "length (cw_tasks (strm t3)) = Suc (length q)"
    using stream_list_loop [of ?t2 q] t1 by (auto simp: client_spawn_def)
  with t1(1) show ?thesis
    by (simp add: handle_quic_server_connection_def bind_async_apply [of "modify _"] modify_def
        try_async_apply map_async_Fin bind_async_apply [of "loop_async _ _"] ret_def client_count_def)
qed

subsection \<open>Properties\<close>

text \<open>
  C19: the client's handler either fails to authenticate, then it returns the error and has
  started nothing, or it proved its own key to the server first; then it has started one
  keepalive task and one forwarding task for every stream the server opened, has counted
  exactly these streams, and returns \<open>Ok\<close> when the connection ends.
\<close>

theorem client_handler_outcome:
  assumes "handle_quic_server_connection env config t = Some (Fin r t')"
  shows "(\<exists>e. r = Inl (Context ''failed to authenticate against PR QUIC server'' e) \<and>
      cw_tasks (strm t') = cw_tasks (strm t) \<and>
      cw_metrics (strm t') = inc CLIENT_CONNECTIONS_OPENED_TOTAL (cw_metrics (strm t))) \<or>
    (\<exists>d send recv q t1 t2 fs. r = Inr () \<and>
      accept_bi env (cw_conn (strm t)) = (Ready_in d (Inr (send, recv)), q) \<and>
      strm t1 = BiStream_new recv send (client_stream_id env recv) \<and>
      client_authenticate (client_api env) (client_crypto env)
        (c_connection_auth_psk (client_app_data config)) t1 = Some (Fin (Inr ()) t2) \<and>
      cw_tasks (strm t') = cw_tasks (strm t) @ Keepalive_task (strm t2) # map Forward_task fs \<and>
      (\<forall>k. counted k (cw_metrics (strm t')) = counted k (cw_metrics (strm t)) +
        (case k of CONNECTIONS_ACCEPTED \<Rightarrow> word_of_nat (length fs)
         | CLIENT_CONNECTIONS_OPENED_TOTAL \<Rightarrow> 1
         | CLIENT_CONNECTIONS_GRACEFULLY_CLOSED_TOTAL \<Rightarrow> 1
         | _ \<Rightarrow> 0)))"
  using assms
proof (cases rule: client_handler_inv)
  case (failed e)
  then show ?thesis by blast
next
  case (served d send recv q u1 u2 t2 w t3)
  from accept_streams_loop_grown [OF served(8)] served(7) obtain fs where
    fs: "cw_tasks (strm t3) = cw_tasks w @ Keepalive_task (strm u2) # map Forward_task fs"
    "\<And>k. counted k (cw_metrics (strm t3)) = counted k (cw_metrics w) +
      (if k = CONNECTIONS_ACCEPTED then word_of_nat (length fs) else 0)"
    by (auto simp: grown_def client_spawn_def)
  have "counted k (cw_metrics (strm t')) = counted k (cw_metrics (strm t)) +
      (case k of CONNECTIONS_ACCEPTED \<Rightarrow> word_of_nat (length fs)
       | CLIENT_CONNECTIONS_OPENED_TOTAL \<Rightarrow> 1
       | CLIENT_CONNECTIONS_GRACEFULLY_CLOSED_TOTAL \<Rightarrow> 1
       | _ \<Rightarrow> 0)" for k
    using served(6,9) fs(2) [of k] by (cases k) (auto simp: client_count_def)
  moreover have "cw_tasks (strm t') = cw_tasks (strm t) @ Keepalive_task (strm u2) # map Forward_task fs"
    using served(5,9) fs(1) by (simp add: client_count_def)
  ultimately show ?thesis using served(1-4) by blast
qed

theorem client_handler_outcome_witness:
  "\<exists>t' s fs. handle_quic_server_connection stream_list_env sample_client_config
      (stream_list_task [[request_text sample_challenge_text, ''HAPPY'' @ [newline]], [''GET /'']]) =
      Some (Fin (Inr ()) t') \<and>
    cw_tasks (strm t') = Keepalive_task s # map Forward_task fs \<and>
    counted CONNECTIONS_ACCEPTED (cw_metrics (strm t')) = word_of_nat (length fs)"
proof -
  obtain t' where run: "handle_quic_server_connection stream_list_env sample_client_config
      (stream_list_task [[request_text sample_challenge_text, ''HAPPY'' @ [newline]], [''GET /'']]) =
      Some (Fin (Inr ()) t')"
    using sample_client_run by blast
  from client_handler_outcome [OF run] run show ?thesis by (auto simp: stream_list_task_def)
qed

text \<open>
  The keepalive loop never returns an error, so the task around it never counts one: the
  counter of keepalive errors stays as it is, however the loop ends.
\<close>

lemma keepalive_errors_are_never_counted:
  assumes "keepalive_task api iv s t = Some (Fin u t')"
  shows "strm t' = strm t \<and> counted CLIENT_KEEPALIVE_ERRORS (strm t') = counted CLIENT_KEEPALIVE_ERRORS (strm t)"
proof -
  from assms obtain x t1 where x: "with_stream s (run_keepalive_client_loop api iv) t = Some (Fin x t1)"
    and rest: "(case fst x of Inl e \<Rightarrow> modify (inc CLIENT_KEEPALIVE_ERRORS) | Inr _ \<Rightarrow> ret ()) t1 =
      Some (Fin u t')"
    unfolding keepalive_task_def by (rule bind_async_FinE)
  from x obtain a t2 where a: "run_keepalive_client_loop api iv \<lparr>now = now t, deadline = deadline t, strm = s\<rparr> =
      Some (Fin a t2)" "x = (a, strm t2)" "t1 = t\<lparr>now := now t2, deadline := deadline t2\<rparr>"
    by (rule with_stream_FinE)
  then obtain v where "a = Inr v"
    by (auto simp: run_keepalive_client_loop_def elim: map_async_FinE)
  with a rest show ?thesis by (auto simp: ret_def)
qed

end
