(* ===== verification/Mains.thy ===== *)
theory Mains
  imports Server_Handler Client_Handler Quic_Endpoints
begin

section \<open>The two programs (\<open>src/server/main.rs\<close>, \<open>src/client/main.rs\<close>,
  \<open>src/client/run_client.rs\<close>, \<open>src/server/metrics_printer.rs\<close>)\<close>

text \<open>
  The entry points from the parsed command line on: assembling the configuration, starting the
  helper tasks and running the endpoint.  Parsing the command line is clap's work: the
  arguments arrive as a record.  Name resolution, the platform's configuration directory and the
  installation of the crypto provider are parameters.  The two printers are functions from what
  they see at every tick to the lines they print.
\<close>

subsection \<open>The server\<close>

record server_Args =
  config_dir :: "string option"
  local_host :: string
  local_port :: "u16 option"
  allowed_client_ports :: "PortSpec list option"
  quic_server_host :: string
  quic_server_port :: u16
  quic_cert_hostname :: string
  quic_psk :: string
  print_metrics :: bool

definition host_port :: "string \<Rightarrow> u16 \<Rightarrow> string" where
  "host_port h p = h @ '':'' @ to_dec (unat p)"

text \<open>\<open>to_socket_addrs\<close> yields the addresses of a name in order.\<close>

definition resolve_socket_addr ::
  "(string \<Rightarrow> io_error + 'addr list) \<Rightarrow> string \<Rightarrow> error + 'addr" where
  "resolve_socket_addr to_socket_addrs addr =
     bind_res (map_err FromIo (to_socket_addrs addr)) (\<lambda>addrs.
     case addrs of
       [] \<Rightarrow> Inl (Msg (''Unable to resolve address: '' @ addr))
     | a # _ \<Rightarrow> Inr a)"

definition collect_client_ports :: "server_Args \<Rightarrow> PortSpec list" where
  "collect_client_ports args =
     (let ports = (case allowed_client_ports args of Some ps \<Rightarrow> ps | None \<Rightarrow> []) in
      case local_port args of
        Some p \<Rightarrow> ports @ [Single p]
      | None \<Rightarrow> ports)"

record ('addr, 'conn, 'q) server_host =
  sh_install_default :: "string + unit"
  sh_platform_dir :: "string option"
  sh_create_dir_all :: "string \<Rightarrow> file_system \<Rightarrow> (io_error + unit) \<times> file_system"
  sh_to_socket_addrs :: "string \<Rightarrow> io_error + 'addr list"
  sh_tools :: cert_tools
  sh_quic :: "('addr, 'conn, 'q) quic_server_env"

text \<open>
  What a run of the server did: whether it started the metrics printer, the configuration of
  its endpoint if that was opened, and what became of the incoming connections.  Each
  \<open>Handled\<close> connection is handled by \<open>handle_quic_client_connection\<close> with that configuration.
\<close>

record ('addr, 'conn) server_run =
  sr_printer :: bool
  sr_config :: "('addr, ServerAppData) ServerConfig option"
  sr_admissions :: "'conn admission list"

definition no_server_run :: "('addr, 'conn) server_run" where
  "no_server_run = \<lparr>sr_printer = False, sr_config = None, sr_admissions = []\<rparr>"

definition server_main ::
  "('addr, 'conn, 'q) server_host \<Rightarrow> server_Args \<Rightarrow> file_system \<Rightarrow>
   run_end \<times> ('addr, 'conn) server_run \<times> file_system" where
  "server_main host args fs =
     (case sh_install_default host of
        Inl _ \<Rightarrow> (Panicked, no_server_run, fs)
      | Inr _ \<Rightarrow>
          (case get_config_dir (sh_platform_dir host) (sh_create_dir_all host) (config_dir args) fs of
             (Inl e, fs1) \<Rightarrow>
               (Returned (Inl (Context ''Failed to get configuration directory'' e)), no_server_run, fs1)
           | (Inr dir, fs1) \<Rightarrow>
               (let ports = collect_client_ports args in
                if ports = []
                then (Returned (Inl (Msg ''--allowed-client-ports is required'')), no_server_run, fs1)
                else
                  (case context_res ''Failed to resolve QUIC bind address''
                          (resolve_socket_addr (sh_to_socket_addrs host)
                             (host_port (quic_server_host args) (quic_server_port args))) of
                     Inl e \<Rightarrow> (Returned (Inl e), no_server_run, fs1)
                   | Inr quic_addr \<Rightarrow>
                       (let app_data' = ServerAppData_new (quic_psk args) (local_host args) ports;
                            quic_config = ServerConfig_create_default_config dir
                              (quic_cert_hostname args) quic_addr None app_data'
                        in
                        case run_quic_server (sh_tools host) (sh_quic host) quic_config fs1 of
                          (result, admissions, fs2) \<Rightarrow>
                            (case result of
                               None \<Rightarrow> Panicked
                             | Some r \<Rightarrow> Returned (context_res ''PortRedirect Server Error'' r),
                             \<lparr>sr_printer = print_metrics args,
                              sr_config = (case open_endpoint (sh_tools host) (sh_quic host) quic_config fs1 of
                                  (Some (Inr _), _) \<Rightarrow> Some quic_config
                                | _ \<Rightarrow> None),
                              sr_admissions = admissions\<rparr>,
                             fs2))))))"

subsection \<open>The metrics printer\<close>

definition metrics_text :: "(server_counter \<Rightarrow> u64) \<Rightarrow> string" where
  "metrics_text get =
     ''accepted: '' @ to_dec (unat (get TCP_CONNECTIONS_ACCEPTED)) @
     '' | failed_accept: '' @ to_dec (unat (get TCP_CONNECTIONS_FAILED_ACCEPTING)) @
     '' | quic_err: '' @ to_dec (unat (get QUIC_DATA_STREAM_OPENING_ERRORS)) @
     '' | bytes_a: '' @ to_dec (unat (get BYTES_TRANSMITTED_A)) @
     '' | bytes_b: '' @ to_dec (unat (get BYTES_TRANSMITTED_B)) @
     '' | tcp_quic_closed_err: '' @ to_dec (unat (get TCP_QUIC_CONNECTIONS_CLOSED_ERROR)) @
     '' | tcp_quic_closed_graceful: '' @ to_dec (unat (get TCP_QUIC_CONNECTIONS_CLOSED_GRACEFUL)) @
     '' | keepalive_err: '' @ to_dec (unat (get KEEPALIVE_ERRORS)) @
     '' | server_opened: '' @ to_dec (unat (get SERVER_CONNECTIONS_OPENED_TOTAL)) @
     '' | server_closed: '' @ to_dec (unat (get SERVER_CONNECTIONS_GRACEFULLY_CLOSED_TOTAL))"

text \<open>
  One turn per tick; a tick comes with the local time as text and the values of the counters.
\<close>

fun print_metrics_from :: "string \<Rightarrow> (string \<times> (server_counter \<Rightarrow> u64)) list \<Rightarrow> string list" where
  "print_metrics_from previous_metrics [] = []"
| "print_metrics_from previous_metrics ((timestamp, get) # ticks) =
     (let current_metrics = metrics_text get in
      if current_metrics \<noteq> previous_metrics
      then (timestamp @ '' | '' @ current_metrics) # print_metrics_from current_metrics ticks
      else print_metrics_from previous_metrics ticks)"

definition print_metrics_loop :: "(string \<times> (server_counter \<Rightarrow> u64)) list \<Rightarrow> string list" where
  "print_metrics_loop ticks = print_metrics_from [] ticks"

subsection \<open>The client\<close>

record ConnectionStats =
  connection_count :: nat

text \<open>The printer of the statistics: one turn per second, on what the shared value is then.\<close>

fun print_stats_from :: "bool \<Rightarrow> nat \<Rightarrow> ConnectionStats list \<Rightarrow> string list" where
  "print_stats_from printed_once previous_connection_count [] = []"
| "print_stats_from printed_once previous_connection_count (stats # ticks) =
     (if previous_connection_count \<noteq> connection_count stats \<or> \<not> printed_once
      then (''Active connections: '' @ to_dec (connection_count stats)) #
        print_stats_from True (connection_count stats) ticks
      else print_stats_from printed_once previous_connection_count ticks)"

text \<open>How an asynchronous computation ends that nothing cuts off.\<close>

definition run_handler :: "('s, error + unit) async \<Rightarrow> 's \<Rightarrow> run_end" where
  "run_handler m s =
     (case m \<lparr>now = 0, deadline = None, strm = s\<rparr> of
        Some (Fin r _) \<Rightarrow> Returned r
      | _ \<Rightarrow> Unfinished)"

record ('addr, 'c, 'r, 'w, 'q, 'ep) client_host =
  ch_install_default :: "string + unit"
  ch_platform_dir :: "string option"
  ch_create_dir_all :: "string \<Rightarrow> file_system \<Rightarrow> (io_error + unit) \<times> file_system"
  ch_to_socket_addrs :: "string \<Rightarrow> io_error + 'addr list"
  ch_quic :: "('addr, 'c, 'q, 'ep) quic_client_env"
  ch_streams :: "('c, 'r, 'w) client_env"

text \<open>
  The helper tasks: the metrics server on port 9898, and the printer, which shares the value
  of the statistics.  Nothing in the program writes to it after its initialisation.
\<close>

record client_run =
  cr_metrics_server :: "nat option"
  cr_stats :: "ConnectionStats option"

definition no_client_run :: client_run where
  "no_client_run = \<lparr>cr_metrics_server = None, cr_stats = None\<rparr>"

definition run_client ::
  "('addr, 'c, 'r, 'w, 'q, 'ep) client_host \<Rightarrow> (unit, 'addr) ClientAppData \<Rightarrow> 'addr \<Rightarrow> 'addr \<Rightarrow> bool \<Rightarrow>
   file_system \<Rightarrow> run_end \<times> client_run \<times> file_system" where
  "run_client host app_config tcp_local_addr quic_remote_addr metrics_enabled fs =
     (let tasks = \<lparr>cr_metrics_server = (if metrics_enabled then Some 9898 else None),
                   cr_stats = Some \<lparr>connection_count = 0\<rparr>\<rparr>
      in
      case get_config_dir (ch_platform_dir host) (ch_create_dir_all host) None fs of
        (Inl e, fs1) \<Rightarrow> (Returned (Inl e), tasks, fs1)
      | (Inr dir, fs1) \<Rightarrow>
          (let quic_client_config = ClientConfig_create_default_config dir tcp_local_addr
                 quic_remote_addr None None app_config
           in
           (run_quic_client (ch_quic host) quic_client_config
              (\<lambda>config conn. run_handler (handle_quic_server_connection (ch_streams host) config)
                 \<lparr>cw_conn = conn, cw_metrics = [], cw_tasks = []\<rparr>) fs1,
            tasks, fs1)))"

record client_Args =
  destination_host :: string
  destination_port :: u16
  quic_remote_host :: string
  quic_remote_port :: u16
  quic_local_host :: string
  quic_local_port :: u16
  provide_metrics :: bool
  quic_remote_hostname_match :: "string option"
  client_quic_psk :: string

text \<open>
  \<open>first_addr\<close> is \<open>.to_socket_addrs().context(..)?.next()\<close>.
\<close>

definition first_addr ::
  "(string \<Rightarrow> io_error + 'addr list) \<Rightarrow> string \<Rightarrow> string \<Rightarrow> error + 'addr option" where
  "first_addr to_socket_addrs addr text =
     map_sum id (\<lambda>addrs. case addrs of [] \<Rightarrow> None | a # _ \<Rightarrow> Some a)
       (context_res text (map_err FromIo (to_socket_addrs addr)))"

definition client_main ::
  "('addr, 'c, 'r, 'w, 'q, 'ep) client_host \<Rightarrow> client_Args \<Rightarrow> file_system \<Rightarrow>
   run_end \<times> client_run \<times> file_system" where
  "client_main host args fs =
     (case get_config_dir (ch_platform_dir host) (ch_create_dir_all host) None fs of
        (Inl e, fs1) \<Rightarrow> (Returned (Inl e), no_client_run, fs1)
      | (Inr _, fs1) \<Rightarrow>
          (let destination_addr = host_port (destination_host args) (destination_port args) in
           case first_addr (ch_to_socket_addrs host)
                  (host_port (quic_local_host args) (quic_local_port args))
                  ''constructing QUIC local address'' of
             Inl e \<Rightarrow> (Returned (Inl e), no_client_run, fs1)
           | Inr None \<Rightarrow> (Panicked, no_client_run, fs1)
           | Inr (Some quic_local_addr) \<Rightarrow>
               (case first_addr (ch_to_socket_addrs host)
                       (host_port (quic_remote_host args) (quic_remote_port args))
                       ''constructing QUIC remote address'' of
                  Inl e \<Rightarrow> (Returned (Inl e), no_client_run, fs1)
                | Inr None \<Rightarrow> (Panicked, no_client_run, fs1)
                | Inr (Some quic_remote_addr) \<Rightarrow>
                    (case first_addr (ch_to_socket_addrs host) destination_addr
                            ''resolving destination address'' of
                       Inl e \<Rightarrow> (Returned (Inl e), no_client_run, fs1)
                     | Inr None \<Rightarrow>
                         (Returned (Inl (Msg ''resolving destination address'')), no_client_run, fs1)
                     | Inr (Some forward_destination) \<Rightarrow>
                         (case ch_install_default host of
                            Inl _ \<Rightarrow> (Panicked, no_client_run, fs1)
                          | Inr _ \<Rightarrow>
                              run_client host
                                (ClientAppData_new (client_quic_psk args) forward_destination)
                                quic_local_addr quic_remote_addr (provide_metrics args) fs1)))))"

subsection \<open>Lemmas\<close>

text \<open>The text shows every counter: two texts are equal only for equal values.\<close>

lemma metrics_text_inj:
  assumes "metrics_text get = metrics_text get'"
  shows "get = get'"
proof
  fix k
  note split = assms [unfolded metrics_text_def, simplified, THEN to_dec_then_space, simplified]
  from split show "get k = get' k"
    by (cases k) (auto dest!: to_dec_then_space to_dec_word_inj)
qed

text \<open>The ticks whose text differs from the one before, the first one from \<open>previous\<close>.\<close>

definition changed_ticks :: "string \<Rightarrow> (string \<times> (server_counter \<Rightarrow> u64)) list \<Rightarrow> nat list" where
  "changed_ticks previous ticks =
     filter (\<lambda>i. metrics_text (snd (ticks ! i)) \<noteq>
         (if i = 0 then previous else metrics_text (snd (ticks ! (i - 1)))))
       [0..<length ticks]"

lemma changed_ticks_Cons:
  "changed_ticks previous (x # ticks) =
     (if metrics_text (snd x) \<noteq> previous then [0] else []) @
     map Suc (changed_ticks (metrics_text (snd x)) ticks)"
proof -
  have "[0..<length (x # ticks)] = 0 # map Suc [0..<length ticks]"
    by (simp add: map_Suc_upt upt_conv_Cons del: upt_Suc)
  then show ?thesis
    by (auto simp: changed_ticks_def filter_map o_def nth_Cons' simp del: upt_Suc
        intro!: arg_cong [where f = "map Suc"] filter_cong)
qed

lemma print_metrics_from_changed:
  "print_metrics_from previous ticks =
     map (\<lambda>i. fst (ticks ! i) @ '' | '' @ metrics_text (snd (ticks ! i))) (changed_ticks previous ticks)"
proof (induction ticks arbitrary: previous)
  case Nil
  show ?case by (simp add: changed_ticks_def)
next
  case (Cons x ticks)
  then show ?case
    by (cases x) (auto simp: changed_ticks_Cons o_def Let_def)
qed

lemma print_stats_constant:
  "print_stats_from True n (replicate k \<lparr>connection_count = n\<rparr>) = []"
  by (induction k) simp_all

text \<open>What \<open>server_main\<close> has done when it gets to running the endpoint.\<close>

text \<open>The conditions under which \<open>main\<close> gets to \<open>run_quic_server\<close>, and with what.\<close>

definition prepared ::
  "('addr, 'conn, 'q) server_host \<Rightarrow> server_Args \<Rightarrow> file_system \<Rightarrow>
   ('addr, ServerAppData) ServerConfig \<Rightarrow> file_system \<Rightarrow> bool" where
  "prepared host args fs config fs1 \<longleftrightarrow>
     (\<exists>dir quic_addr addrs. sh_install_default host = Inr () \<and>
        get_config_dir (sh_platform_dir host) (sh_create_dir_all host) (config_dir args) fs = (Inr dir, fs1) \<and>
        collect_client_ports args \<noteq> [] \<and>
        sh_to_socket_addrs host (host_port (quic_server_host args) (quic_server_port args)) =
          Inr (quic_addr # addrs) \<and>
        config = ServerConfig_create_default_config dir (quic_cert_hostname args) quic_addr None
          (ServerAppData_new (quic_psk args) (local_host args) (collect_client_ports args)))"

lemma server_main_prepared:
  assumes "prepared host args fs config fs1"
  shows "server_main host args fs =
    (case run_quic_server (sh_tools host) (sh_quic host) config fs1 of
       (result, admissions, fs2) \<Rightarrow>
         (case result of None \<Rightarrow> Panicked
            | Some r \<Rightarrow> Returned (context_res ''PortRedirect Server Error'' r),
          \<lparr>sr_printer = print_metrics args,
           sr_config = (case open_endpoint (sh_tools host) (sh_quic host) config fs1 of
               (Some (Inr _), _) \<Rightarrow> Some config
             | _ \<Rightarrow> None),
           sr_admissions = admissions\<rparr>, fs2))"
  using assms
  by (auto simp: prepared_def server_main_def Let_def resolve_socket_addr_def bind_res_def
      map_err_def context_res_def [of "''Failed to resolve QUIC bind address''"])

lemma server_main_not_prepared:
  assumes "\<nexists>config fs1. prepared host args fs config fs1"
  shows "\<exists>r fs'. server_main host args fs = (r, no_server_run, fs') \<and>
    (r = Panicked \<or> (\<exists>e. r = Returned (Inl e)))"
proof (cases "sh_install_default host")
  case (Inl e)
  then show ?thesis by (simp add: server_main_def)
next
  case (Inr u)
  then show ?thesis
    using assms
    by (auto simp: prepared_def server_main_def Let_def resolve_socket_addr_def bind_res_def
        map_err_def context_res_def split: sum.splits prod.splits list.splits)
qed

lemma prepared_unique:
  "prepared host args fs config fs1 \<Longrightarrow> prepared host args fs config' fs2 \<Longrightarrow> config' = config \<and> fs2 = fs1"
  by (auto simp: prepared_def)

lemma opened_endpoint:
  "(\<exists>fs1 conns. prepared host args fs config fs1 \<and>
      open_endpoint (sh_tools host) (sh_quic host) config fs1 = (Some (Inr conns), fs') \<and>
      accept_loop config conns = (admissions, finished)) \<longleftrightarrow>
    sh_install_default host = Inr () \<and> collect_client_ports args \<noteq> [] \<and>
    (\<exists>dir fs1 a as ident tls q conns.
      get_config_dir (sh_platform_dir host) (sh_create_dir_all host) (config_dir args) fs = (Inr dir, fs1) \<and>
      sh_to_socket_addrs host (host_port (quic_server_host args) (quic_server_port args)) = Inr (a # as) \<and>
      config = ServerConfig_create_default_config dir (quic_cert_hostname args) a None
        (ServerAppData_new (quic_psk args) (local_host args) (collect_client_ports args)) \<and>
      load_or_generate_quic_cert (sh_tools host) (quic_cert_hostname args) (path_push dir ''key.der'')
        (path_push dir ''cert.der'') fs1 = (Some (Inr ident), fs') \<and>
      with_single_cert (sh_quic host) (fst ident) (snd ident) = Inr tls \<and>
      server_try_from (sh_quic host) (tls\<lparr>alpn_protocols := [''pr-1'']\<rparr>) = Inr q \<and>
      endpoint_server (sh_quic host) q (configure_transport_config (default_transport (sh_quic host))) a =
        Inr conns \<and>
      accept_loop config conns = (admissions, finished))"
  (is "?l \<longleftrightarrow> ?r")
proof
  assume ?l
  then obtain fs1 conns dir a as where
    "sh_install_default host = Inr ()" "collect_client_ports args \<noteq> []"
    "get_config_dir (sh_platform_dir host) (sh_create_dir_all host) (config_dir args) fs = (Inr dir, fs1)"
    "sh_to_socket_addrs host (host_port (quic_server_host args) (quic_server_port args)) = Inr (a # as)"
    and cfg: "config = ServerConfig_create_default_config dir (quic_cert_hostname args) a None
        (ServerAppData_new (quic_psk args) (local_host args) (collect_client_ports args))"
    and o: "open_endpoint (sh_tools host) (sh_quic host) config fs1 = (Some (Inr conns), fs')"
    and "accept_loop config conns = (admissions, finished)"
    unfolding prepared_def by blast
  moreover from o [unfolded open_endpoint_iff] obtain ident tls q where
    "load_or_generate_quic_cert (sh_tools host) (quic_cert_hostname args) (path_push dir ''key.der'')
        (path_push dir ''cert.der'') fs1 = (Some (Inr ident), fs')"
    "with_single_cert (sh_quic host) (fst ident) (snd ident) = Inr tls"
    "server_try_from (sh_quic host) (tls\<lparr>alpn_protocols := [''pr-1'']\<rparr>) = Inr q"
    "endpoint_server (sh_quic host) q (configure_transport_config (default_transport (sh_quic host))) a =
        Inr conns"
    by (auto simp: cfg ServerConfig_create_default_config_def ALPN_QUIC_PORTREDIRECT_def)
  ultimately show ?r by blast
next
  assume ?r
  then obtain dir fs1 a as ident tls q conns where
    pre: "sh_install_default host = Inr ()" "collect_client_ports args \<noteq> []"
    "get_config_dir (sh_platform_dir host) (sh_create_dir_all host) (config_dir args) fs = (Inr dir, fs1)"
    "sh_to_socket_addrs host (host_port (quic_server_host args) (quic_server_port args)) = Inr (a # as)"
    and cfg: "config = ServerConfig_create_default_config dir (quic_cert_hostname args) a None
        (ServerAppData_new (quic_psk args) (local_host args) (collect_client_ports args))"
    and o: "load_or_generate_quic_cert (sh_tools host) (quic_cert_hostname args) (path_push dir ''key.der'')
        (path_push dir ''cert.der'') fs1 = (Some (Inr ident), fs')"
    "with_single_cert (sh_quic host) (fst ident) (snd ident) = Inr tls"
    "server_try_from (sh_quic host) (tls\<lparr>alpn_protocols := [''pr-1'']\<rparr>) = Inr q"
    "endpoint_server (sh_quic host) q (configure_transport_config (default_transport (sh_quic host))) a =
        Inr conns"
    and fin: "accept_loop config conns = (admissions, finished)" by blast
  from o have "open_endpoint (sh_tools host) (sh_quic host) config fs1 = (Some (Inr conns), fs')"
    by (simp add: open_endpoint_iff cfg ServerConfig_create_default_config_def ALPN_QUIC_PORTREDIRECT_def)
  moreover from pre cfg have "prepared host args fs config fs1" unfolding prepared_def by blast
  ultimately show ?l using fin by blast
qed

text \<open>A run of \<open>server_main\<close>, by whether it got to its endpoint.\<close>

lemma server_main_run:
  assumes main: "server_main host args fs = (r, run, fs')"
  shows "(sr_config run = Some config \<and> sr_admissions run = admissions \<and>
        r = (if finished then Returned (Inr ()) else Panicked) \<longleftrightarrow>
      (\<exists>fs1 conns. prepared host args fs config fs1 \<and>
        open_endpoint (sh_tools host) (sh_quic host) config fs1 = (Some (Inr conns), fs') \<and>
        accept_loop config conns = (admissions, finished))) \<and>
    (if sr_config run = None
     then sr_admissions run = [] \<and> (r = Panicked \<or> (\<exists>e. r = Returned (Inl e))) else True) \<and>
    (sr_printer run \<longleftrightarrow> print_metrics args \<and> (\<exists>config fs1. prepared host args fs config fs1))"
proof (cases "\<exists>c fs1. prepared host args fs c fs1")
  case False
  from server_main_not_prepared [OF this] main False show ?thesis
    by (auto simp: no_server_run_def)
next
  case True
  then obtain c fs1 where c: "prepared host args fs c fs1" by blast
  then have p: "prepared host args fs x y \<longleftrightarrow> x = c \<and> y = fs1" for x y
    using prepared_unique by blast
  show ?thesis
  proof (cases "\<exists>conns. fst (open_endpoint (sh_tools host) (sh_quic host) c fs1) = Some (Inr conns)")
    case True
    then obtain conns fs2 where o: "open_endpoint (sh_tools host) (sh_quic host) c fs1 =
        (Some (Inr conns), fs2)" by (metis prod.collapse)
    with main server_main_prepared [OF c] run_quic_server_opened [OF o] have
      "r = (if snd (accept_loop c conns) then Returned (Inr ()) else Panicked)"
      "run = \<lparr>sr_printer = print_metrics args, sr_config = Some c,
        sr_admissions = fst (accept_loop c conns)\<rparr>" "fs' = fs2"
      by (auto simp: context_res_def)
    note run = this
    obtain as fin where al: "accept_loop c conns = (as, fin)" by (rule prod.exhaust)
    have iff: "(\<exists>fs1 conns. prepared host args fs config fs1 \<and>
        open_endpoint (sh_tools host) (sh_quic host) config fs1 = (Some (Inr conns), fs') \<and>
        accept_loop config conns = (admissions, finished)) \<longleftrightarrow>
      config = c \<and> as = admissions \<and> fin = finished"
      by (auto simp: p o run(3) al)
    have ex: "(\<exists>config fs1. prepared host args fs config fs1) = True" by (simp add: p)
    show ?thesis
      unfolding iff ex run(1,2) al by (cases fin; cases finished) auto
  next
    case False
    then have no: "(case open_endpoint (sh_tools host) (sh_quic host) c fs1 of
        (Some (Inr _), _) \<Rightarrow> Some c | _ \<Rightarrow> None) = None"
      by (auto split: prod.splits option.splits sum.splits)
    from run_quic_server_not_opened [OF False] obtain e fs2 where
      "run_quic_server (sh_tools host) (sh_quic host) c fs1 = (e, [], fs2)"
      "e = None \<or> (\<exists>x. e = Some (Inl x))" by blast
    with main server_main_prepared [OF c, unfolded no] have
      "r = Panicked \<or> (\<exists>e. r = Returned (Inl e))"
      "run = \<lparr>sr_printer = print_metrics args, sr_config = None, sr_admissions = []\<rparr>"
      by (auto simp: context_res_def)
    with False show ?thesis by (auto simp: p)
  qed
qed

text \<open>What \<open>server_main\<close> has done when its endpoint is open.\<close>

lemma server_main_serving:
  assumes "server_main host args fs = (r, run, fs')" "sr_config run = Some config"
  shows "\<exists>dir addrs quic_addr fs1 result.
    get_config_dir (sh_platform_dir host) (sh_create_dir_all host) (config_dir args) fs = (Inr dir, fs1) \<and>
    collect_client_ports args \<noteq> [] \<and>
    sh_to_socket_addrs host (host_port (quic_server_host args) (quic_server_port args)) =
      Inr (quic_addr # addrs) \<and>
    config = ServerConfig_create_default_config dir (quic_cert_hostname args) quic_addr None
      (ServerAppData_new (quic_psk args) (local_host args) (collect_client_ports args)) \<and>
    run_quic_server (sh_tools host) (sh_quic host) config fs1 = (result, sr_admissions run, fs')"
proof -
  have "\<exists>config fs1. prepared host args fs config fs1"
  proof (rule ccontr)
    assume "\<nexists>config fs1. prepared host args fs config fs1"
    from server_main_not_prepared [OF this] assms show False by (auto simp: no_server_run_def)
  qed
  then obtain c fs1 where c: "prepared host args fs c fs1" by blast
  with server_main_prepared [OF c] assms have "c = config"
    "\<exists>result. run_quic_server (sh_tools host) (sh_quic host) c fs1 = (result, sr_admissions run, fs')"
    by (auto split: prod.splits option.splits sum.splits)
  with c show ?thesis by (auto simp: prepared_def)
qed

lemma collect_client_ports_allows:
  "AllowedPorts_allows (collect_client_ports args) p \<longleftrightarrow>
     (\<exists>ps. allowed_client_ports args = Some ps \<and> p \<in> (\<Union>spec \<in> set ps. port_set spec)) \<or>
     local_port args = Some p"
  by (cases "allowed_client_ports args"; cases "local_port args")
    (auto simp: collect_client_ports_def AllowedPorts_allows_iff)

lemma first_addr_Some:
  "first_addr rs name text = Inr (Some a) \<longleftrightarrow> (\<exists>as. rs name = Inr (a # as))"
  by (auto simp: first_addr_def context_res_def map_err_def split: sum.splits list.splits)

text \<open>\<open>client_main\<close> returns \<open>Ok\<close> only through \<open>run_quic_client\<close>.\<close>

lemma client_main_ok:
  assumes "client_main host args fs = (Returned (Inr ()), run, fs')"
  shows "\<exists>dir fs1 local remote dest as1 as2 as3.
    get_config_dir (ch_platform_dir host) (ch_create_dir_all host) None fs1 = (Inr dir, fs') \<and>
    ch_to_socket_addrs host (host_port (quic_local_host args) (quic_local_port args)) = Inr (local # as1) \<and>
    ch_to_socket_addrs host (host_port (quic_remote_host args) (quic_remote_port args)) = Inr (remote # as2) \<and>
    ch_to_socket_addrs host (host_port (destination_host args) (destination_port args)) = Inr (dest # as3) \<and>
    run_quic_client (ch_quic host)
      (ClientConfig_create_default_config dir local remote None None
        (ClientAppData_new (client_quic_psk args) dest :: (unit, _) ClientAppData))
      (\<lambda>config conn. run_handler (handle_quic_server_connection (ch_streams host) config)
         \<lparr>cw_conn = conn, cw_metrics = [], cw_tasks = []\<rparr>) fs' = Returned (Inr ())"
  using assms
  by (auto simp: client_main_def run_client_def Let_def first_addr_Some
      split: sum.splits prod.splits option.splits)

subsection \<open>Properties\<close>

text \<open>
  C31: the printer of the server's metrics prints a line at the first tick and then exactly at
  the ticks at which some counter has a value different from the tick before, with the values of
  that tick: no change is hidden and nothing is printed twice.
\<close>

theorem printer_prints_exactly_the_changes:
  "print_metrics_loop ticks =
     map (\<lambda>i. fst (ticks ! i) @ '' | '' @ metrics_text (snd (ticks ! i)))
       (filter (\<lambda>i. if i = 0 then True else snd (ticks ! i) \<noteq> snd (ticks ! (i - 1))) [0..<length ticks])"
proof -
  have "metrics_text get \<noteq> []" for get by (simp add: metrics_text_def)
  then have "changed_ticks [] ticks =
      filter (\<lambda>i. if i = 0 then True else snd (ticks ! i) \<noteq> snd (ticks ! (i - 1))) [0..<length ticks]"
    unfolding changed_ticks_def by (intro filter_cong) (auto dest: metrics_text_inj)
  then show ?thesis by (simp add: print_metrics_loop_def print_metrics_from_changed)
qed

text \<open>
  C28: the server program has its endpoint open exactly when the crypto provider could be
  installed, the configuration directory exists or could be created, at least one port was given
  with \<open>--allowed-client-ports\<close> or \<open>--local-port\<close>, the address to listen on resolves, the
  certificate and key could be loaded or generated, rustls and quinn accept them, and the socket
  could be bound; it then deals with the incoming connections, and returns \<open>Ok\<close> when there are no
  more, unless the loop panicked.  Otherwise no connection is admitted and it ends with an error
  or a panic.  The printer is started whenever it was asked for and the first four conditions hold.
\<close>

theorem server_program_starts_iff:
  "case server_main host args fs of (r, run, fs') \<Rightarrow>
     (sr_config run = Some config \<and> sr_admissions run = admissions \<and>
        r = (if finished then Returned (Inr ()) else Panicked) \<longleftrightarrow>
      sh_install_default host = Inr () \<and>
      ((\<exists>p. local_port args = Some p) \<or> (\<exists>p ps. allowed_client_ports args = Some (p # ps))) \<and>
      (\<exists>dir fs1 a as ident tls q conns.
        get_config_dir (sh_platform_dir host) (sh_create_dir_all host) (config_dir args) fs = (Inr dir, fs1) \<and>
        sh_to_socket_addrs host (host_port (quic_server_host args) (quic_server_port args)) = Inr (a # as) \<and>
        config = ServerConfig_create_default_config dir (quic_cert_hostname args) a None
          (ServerAppData_new (quic_psk args) (local_host args) (collect_client_ports args)) \<and>
        load_or_generate_quic_cert (sh_tools host) (quic_cert_hostname args) (path_push dir ''key.der'')
          (path_push dir ''cert.der'') fs1 = (Some (Inr ident), fs') \<and>
        with_single_cert (sh_quic host) (fst ident) (snd ident) = Inr tls \<and>
        server_try_from (sh_quic host) (tls\<lparr>alpn_protocols := [''pr-1'']\<rparr>) = Inr q \<and>
        endpoint_server (sh_quic host) q (configure_transport_config (default_transport (sh_quic host))) a =
          Inr conns \<and>
        accept_loop config conns = (admissions, finished))) \<and>
     (if sr_config run = None
      then sr_admissions run = [] \<and> (r = Panicked \<or> (\<exists>e. r = Returned (Inl e))) else True) \<and>
     (sr_printer run \<longleftrightarrow> print_metrics args \<and> (\<exists>config fs1. prepared host args fs config fs1))"
proof -
  have ports: "collect_client_ports args \<noteq> [] \<longleftrightarrow>
      (\<exists>p. local_port args = Some p) \<or> (\<exists>p ps. allowed_client_ports args = Some (p # ps))"
    using neq_Nil_conv [of "the (allowed_client_ports args)"]
    by (auto simp: collect_client_ports_def Let_def split: option.splits list.splits)
  obtain r run fs' where main: "server_main host args fs = (r, run, fs')"
    by (rule prod_cases3)
  show ?thesis
    unfolding main prod.case ports [symmetric]
    by (rule server_main_run [OF main, unfolded opened_endpoint])
qed

text \<open>
  C30: when the client program ends without an error, it has been connected to the first address
  of the remote host and port of the command line, from the first address of the local ones,
  under the text of the remote address as server name, trusting only what the configuration
  directory's \<open>cert.der\<close> holds, and with the protocol name \<open>pr-1\<close>.
\<close>

theorem client_program_connects_as_configured:
  assumes "client_main host args fs = (Returned (Inr ()), run, fs')"
  shows "\<exists>base local remote as1 as2 roots q ep conn.
    ch_platform_dir host = Some base \<and>
    ch_to_socket_addrs host (host_port (quic_local_host args) (quic_local_port args)) = Inr (local # as1) \<and>
    ch_to_socket_addrs host (host_port (quic_remote_host args) (quic_remote_port args)) = Inr (remote # as2) \<and>
    (case fs_read fs' (path_push (path_push base ''portredirect'') ''cert.der'') of
       Inr cert \<Rightarrow> roots_add (ch_quic host) cert [] = Inr roots
     | Inl _ \<Rightarrow> roots = []) \<and>
    client_try_from (ch_quic host)
      \<lparr>root_certificates = roots, client_alpn_protocols = [''pr-1'']\<rparr> = Inr q \<and>
    endpoint_client (ch_quic host) local = Inr ep \<and>
    connect_result (ch_quic host) ep q remote (ip_text (ch_quic host) remote) = Inr (Inr conn)"
proof -
  from client_main_ok [OF assms] obtain dir fs1 local remote dest as1 as2 as3 where
    dir: "get_config_dir (ch_platform_dir host) (ch_create_dir_all host) None fs1 = (Inr dir, fs')"
    and addrs: "ch_to_socket_addrs host (host_port (quic_local_host args) (quic_local_port args)) =
        Inr (local # as1)"
      "ch_to_socket_addrs host (host_port (quic_remote_host args) (quic_remote_port args)) =
        Inr (remote # as2)"
      "ch_to_socket_addrs host (host_port (destination_host args) (destination_port args)) =
        Inr (dest # as3)"
    and run: "run_quic_client (ch_quic host)
      (ClientConfig_create_default_config dir local remote None None
        (ClientAppData_new (client_quic_psk args) dest :: (unit, _) ClientAppData))
      (\<lambda>config conn. run_handler (handle_quic_server_connection (ch_streams host) config)
         \<lparr>cw_conn = conn, cw_metrics = [], cw_tasks = []\<rparr>) fs' = Returned (Inr ())"
    by blast
  from get_config_dir_ok [OF dir] obtain base where
    "ch_platform_dir host = Some base" "dir = path_push base ''portredirect''" by auto
  with addrs run_quic_client_ok [OF run] show ?thesis
    by (fastforce simp: client_roots_def ClientConfig_create_default_config_def split: sum.splits)
qed

definition sample_client_host ::
  "(nat, bytes list list, bytes list, bytes, rustls_ClientConfig, unit) client_host" where
  "sample_client_host =
     \<lparr>ch_install_default = Inr (), ch_platform_dir = Some ''/home/u/.config'',
      ch_create_dir_all = (\<lambda>_ fs. (Inr (), fs)), ch_to_socket_addrs = (\<lambda>name. Inr [length name]),
      ch_quic = \<lparr>roots_add = (\<lambda>c rs. Inr (rs @ [c])), ip_text = (\<lambda>_. ''127.0.0.1''),
        client_try_from = Inr, endpoint_client = (\<lambda>_. Inr ()),
        connect_result = (\<lambda>_ _ _ _. Inr (Inr
          [[request_text sample_challenge_text, ''HAPPY'' @ [newline]], [''GET /'']])),
        join_error = Msg ''task panicked''\<rparr>,
      ch_streams = stream_list_env\<rparr>"

definition sample_client_args :: client_Args where
  "sample_client_args =
     \<lparr>destination_host = ''localhost'', destination_port = 80, quic_remote_host = ''pr.example'',
      quic_remote_port = 4433, quic_local_host = ''0.0.0.0'', quic_local_port = 0,
      provide_metrics = False, quic_remote_hostname_match = Some ''pr.example'',
      client_quic_psk = ''key''\<rparr>"

theorem client_program_connects_as_configured_witness:
  "\<exists>run fs'. client_main sample_client_host sample_client_args empty_disk =
      (Returned (Inr ()), run, fs') \<and>
    ch_platform_dir sample_client_host = Some ''/home/u/.config'' \<and>
    fs_read fs' (path_push (path_push ''/home/u/.config'' ''portredirect'') ''cert.der'') =
      Inl (IoError NotFound ''No such file or directory (os error 2)'')"
proof -
  have "run_handler (handle_quic_server_connection stream_list_env config)
      \<lparr>cw_conn = [[request_text sample_challenge_text, ''HAPPY'' @ [newline]], [''GET /'']],
       cw_metrics = [], cw_tasks = []\<rparr> = Returned (Inr ())" for config :: "(nat, (unit, nat) ClientAppData) ClientConfig"
    using sample_client_run [of config "[[''GET /'']]"]
    by (auto simp: run_handler_def stream_list_task_def)
  then obtain run where run: "client_main sample_client_host sample_client_args empty_disk =
      (Returned (Inr ()), run, empty_disk)"
    by (simp add: client_main_def run_client_def get_config_dir_def sample_client_host_def first_addr_def
        run_quic_client_def client_roots_def fs_read_def empty_disk_def
        ClientConfig_create_default_config_def)
  from client_program_connects_as_configured [OF run] run show ?thesis
    by (auto simp: sample_client_host_def fs_read_def empty_disk_def)
qed

text \<open>
  The option \<open>--quic-remote-hostname-match\<close> has no effect: the client program does the same
  whatever its value is.  (The statistics are never updated either: the printer that shares them
  prints \<open>Active connections: 0\<close> once and then nothing more.)
\<close>

lemma client_program_ignores_options:
  "client_main host (args\<lparr>quic_remote_hostname_match := name\<rparr>) fs = client_main host args fs \<and>
   (case client_main host args fs of (_, run, _) \<Rightarrow>
      (case cr_stats run of None \<Rightarrow> True
       | Some stats \<Rightarrow> print_stats_from False 0 (replicate (Suc k) stats) = [''Active connections: 0'']))"
proof -
  have "to_dec 0 = ''0''" by code_simp
  then have "print_stats_from False 0 (replicate (Suc k) \<lparr>connection_count = 0\<rparr>) = [''Active connections: 0'']"
    using print_stats_constant by simp
  then show ?thesis
    by (auto simp: client_main_def run_client_def no_client_run_def Let_def
        split: sum.splits prod.splits option.splits)
qed

end
