(* ===== verification/Server_Listener.thy ===== *)
theory Server_Listener
  imports Forward
begin

section \<open>The TCP listener and its forwarding tasks (\<open>src/server/tcp_listener.rs\<close>,
  \<open>src/server/tcp_forwarder.rs\<close>)\<close>

text \<open>
  The listener accepts TCP connections until the token is cancelled, opens a QUIC stream for
  each and spawns a task that forwards between the two.  Sockets and streams are parameters.
  The state is that of the libraries, the increments of the counters and the list of spawned
  tasks, each with the TCP stream and the QUIC stream it got.
\<close>

subsection \<open>Model\<close>

record ('q, 'tcp, 'r, 'w) listener_world =
  lw_net :: 'q
  lw_metrics :: "server_counter increments"
  lw_spawned :: "('tcp \<times> ('r, 'w) BiStream) list"

record ('q, 'tcp, 'r, 'w) listener_env =
  local_addr :: "io_error + string"
  tcp_accept :: "'q \<Rightarrow> (io_error + 'tcp \<times> string) ready \<times> 'q"
  quic_open_bi :: "'q \<Rightarrow> (string + 'w \<times> 'r) ready \<times> 'q"
  recv_id :: "'r \<Rightarrow> string"
  tcp_shutdown :: "'tcp \<Rightarrow> 'q \<Rightarrow> (io_error + unit) ready \<times> 'q"

definition on_net ::
  "('q \<Rightarrow> 'p \<times> 'q) \<Rightarrow> ('q, 'tcp, 'r, 'w) listener_world \<Rightarrow> 'p \<times> ('q, 'tcp, 'r, 'w) listener_world" where
  "on_net op w = (case op (lw_net w) of (p, q) \<Rightarrow> (p, w\<lparr>lw_net := q\<rparr>))"

definition count ::
  "server_counter \<Rightarrow> ('q, 'tcp, 'r, 'w) listener_world \<Rightarrow> ('q, 'tcp, 'r, 'w) listener_world" where
  "count k w = w\<lparr>lw_metrics := inc k (lw_metrics w)\<rparr>"

definition spawn_forward ::
  "'tcp \<Rightarrow> ('r, 'w) BiStream \<Rightarrow> ('q, 'tcp, 'r, 'w) listener_world \<Rightarrow> ('q, 'tcp, 'r, 'w) listener_world" where
  "spawn_forward tcp_stream quic_stream w =
     w\<lparr>lw_spawned := lw_spawned w @ [(tcp_stream, quic_stream)]\<rparr>"

text \<open>What the loop does with a result of \<open>listener.accept()\<close>; it always continues.\<close>

definition handle_accept ::
  "('q, 'tcp, 'r, 'w) listener_env \<Rightarrow> io_error + 'tcp \<times> string \<Rightarrow>
   (('q, 'tcp, 'r, 'w) listener_world, unit) async" where
  "handle_accept env accept_result =
     (case accept_result of
        Inl e \<Rightarrow> modify (count TCP_CONNECTIONS_FAILED_ACCEPTING)
      | Inr conn \<Rightarrow>
          (case conn of (tcp_stream, peer_addr) \<Rightarrow>
             bind_async (modify (count TCP_CONNECTIONS_ACCEPTED)) (\<lambda>_.
             bind_async (await (on_net (quic_open_bi env))) (\<lambda>opened.
             case opened of
               Inl e \<Rightarrow>
                 bind_async (modify (count QUIC_DATA_STREAM_OPENING_ERRORS)) (\<lambda>_.
                 bind_async (await (on_net (tcp_shutdown env tcp_stream))) (\<lambda>_. ret ()))
             | Inr halves \<Rightarrow>
                 (case halves of (send, recv) \<Rightarrow>
                    modify (spawn_forward tcp_stream (BiStream_new recv send (recv_id env recv))))))))"

definition listener_step ::
  "('q, 'tcp, 'r, 'w) listener_env \<Rightarrow> (nat \<Rightarrow> bool) \<Rightarrow> nat option \<Rightarrow> nat \<Rightarrow>
   (('q, 'tcp, 'r, 'w) listener_world, (nat, unit) ctl) async" where
  "listener_step env bias cancelled n =
     bind_async (select_cancelled (bias n) cancelled (await (on_net (tcp_accept env)))) (\<lambda>selected.
     case selected of
       None \<Rightarrow> ret (Break ())
     | Some accept_result \<Rightarrow>
         bind_async (handle_accept env accept_result) (\<lambda>_. ret (Continue (Suc n))))"

definition handle_tcp_listener ::
  "('q, 'tcp, 'r, 'w) listener_env \<Rightarrow> (nat \<Rightarrow> bool) \<Rightarrow> nat option \<Rightarrow>
   (('q, 'tcp, 'r, 'w) listener_world, error + unit) async" where
  "handle_tcp_listener env bias cancelled =
     (case local_addr env of
        Inl e \<Rightarrow> ret (Inl (FromIo e))
      | Inr _ \<Rightarrow> map_async Inr (loop_async (listener_step env bias cancelled) 0))"

text \<open>Forwarding one connection, and the task around it.\<close>

definition server_forward_tcp_to_quic_stream ::
  "'s copy_fun \<Rightarrow> ('s \<times> server_counter increments, error + unit) async" where
  "server_forward_tcp_to_quic_stream cp =
     try_async (forward_bidirectional cp
         (ref_inc_by (IntCounter_inc_by BYTES_TRANSMITTED_A))
         (ref_inc_by (IntCounter_inc_by BYTES_TRANSMITTED_B))) (\<lambda>_.
     ret (Inr ()))"

definition forward_task :: "'s copy_fun \<Rightarrow> ('s \<times> server_counter increments, unit) async" where
  "forward_task cp =
     bind_async (server_forward_tcp_to_quic_stream cp) (\<lambda>r.
     case r of
       Inl e \<Rightarrow> modify (apsnd (inc TCP_QUIC_CONNECTIONS_CLOSED_ERROR))
     | Inr _ \<Rightarrow> modify (apsnd (inc TCP_QUIC_CONNECTIONS_CLOSED_GRACEFUL)))"

subsection \<open>Specification\<close>

text \<open>Every accepted connection is either forwarded or counted as a stream error.\<close>

definition accounted :: "('q, 'tcp, 'r, 'w) listener_world \<Rightarrow> bool" where
  "accounted w \<longleftrightarrow>
     counted TCP_CONNECTIONS_ACCEPTED (lw_metrics w) =
       word_of_nat (length (lw_spawned w)) + counted QUIC_DATA_STREAM_OPENING_ERRORS (lw_metrics w)"

subsection \<open>Lemmas\<close>

lemma accounted_frame:
  "lw_metrics w' = lw_metrics w \<Longrightarrow> lw_spawned w' = lw_spawned w \<Longrightarrow> accounted w' = accounted w"
  by (simp add: accounted_def)

lemma await_on_net_FinE:
  assumes "await (on_net op) t = Some (Fin a t')"
  obtains "lw_metrics (strm t') = lw_metrics (strm t)" "lw_spawned (strm t') = lw_spawned (strm t)"
    "deadline t' = deadline t" "now t \<le> now t'"
  using assms by (auto elim!: await_FinE simp: on_net_def split: prod.splits)

text \<open>
  What the loop does with an accepted connection, in full; \<open>n\<close> is the instant at which opening the
  stream has failed.
\<close>

lemma handle_accept_okE:
  assumes run: "handle_accept env r t = Some (Fin u t')" and "r = Inr conn" "conn = (tcp, peer)"
  obtains (error) n where "lw_metrics (strm t') = lw_metrics (strm t) @
        [(TCP_CONNECTIONS_ACCEPTED, 1), (QUIC_DATA_STREAM_OPENING_ERRORS, 1)]"
      "lw_spawned (strm t') = lw_spawned (strm t)" "now t \<le> n" "n \<le> now t'"
  | (ok) s where "lw_metrics (strm t') = lw_metrics (strm t) @ [(TCP_CONNECTIONS_ACCEPTED, 1)]"
      "lw_spawned (strm t') = lw_spawned (strm t) @ [(tcp, s)]" "now t \<le> now t'"
proof -
  let ?t1 = "t\<lparr>strm := count TCP_CONNECTIONS_ACCEPTED (strm t)\<rparr>"
  from assms obtain opened t2 where o: "await (on_net (quic_open_bi env)) ?t1 = Some (Fin opened t2)"
    and rest: "(case opened of
               Inl e \<Rightarrow>
                 bind_async (modify (count QUIC_DATA_STREAM_OPENING_ERRORS)) (\<lambda>_.
                 bind_async (await (on_net (tcp_shutdown env tcp))) (\<lambda>_. ret ()))
             | Inr halves \<Rightarrow>
                 (case halves of (send, recv) \<Rightarrow>
                    modify (spawn_forward tcp (BiStream_new recv send (recv_id env recv))))) t2 =
      Some (Fin u t')"
    by (auto simp: handle_accept_def bind_async_apply [of "modify _"] modify_def [of _ t]
        elim: bind_async_FinE)
  from o have t2: "lw_metrics (strm t2) = inc TCP_CONNECTIONS_ACCEPTED (lw_metrics (strm t))"
    "lw_spawned (strm t2) = lw_spawned (strm t)" "now t \<le> now t2"
    by (auto elim!: await_on_net_FinE simp: count_def)
  show ?thesis
  proof (cases opened)
    case (Inl e)
    with rest have "bind_async (await (on_net (tcp_shutdown env tcp))) (\<lambda>_. ret ())
        (t2\<lparr>strm := count QUIC_DATA_STREAM_OPENING_ERRORS (strm t2)\<rparr>) = Some (Fin u t')"
      by (simp add: bind_async_apply [of "modify _"] modify_def)
    then have "lw_metrics (strm t') = inc QUIC_DATA_STREAM_OPENING_ERRORS (lw_metrics (strm t2))"
      "lw_spawned (strm t') = lw_spawned (strm t2)" "now t2 \<le> now t'"
      by (auto elim!: bind_async_FinE await_on_net_FinE simp: ret_def count_def)
    with t2 show ?thesis by (intro error [of "now t2"]) (simp_all add: inc_def)
  next
    case (Inr halves)
    obtain send recv where "halves = (send, recv)" by (cases halves)
    with Inr rest t2 show ?thesis
      by (intro ok [of "BiStream_new recv send (recv_id env recv)"])
        (auto simp: modify_def spawn_forward_def inc_def)
  qed
qed

lemma handle_accept_accounted:
  assumes run: "handle_accept env r t = Some (Fin u t')" and inv: "accounted (strm t)"
  shows "accounted (strm t')"
proof (cases r)
  case (Inl e)
  with run inv show ?thesis
    by (auto simp: handle_accept_def modify_def count_def accounted_def)
next
  case (Inr conn)
  obtain tcp peer where "conn = (tcp, peer)" by (cases conn)
  from run Inr this show ?thesis
    by (rule handle_accept_okE) (use inv in \<open>auto simp: accounted_def\<close>)
qed

lemma timely_handle_accept [timely_intros]: "timely (handle_accept env r)"
  unfolding handle_accept_def by (intro timely_intros)

lemma timely_listener_step [timely_intros]: "timely (listener_step env bias c n)"
  unfolding listener_step_def by (intro timely_intros)

lemma await_on_net_CutE:
  assumes "await (on_net op) t = Some (Cut t')"
  obtains "strm t' = strm t"
  using assms by (auto simp: await_def split: prod.splits ready.splits option.splits if_splits)

text \<open>
  Waiting for the network beside the cancellation changes at most the network, and that only by
  the operation.
\<close>

lemma select_frame:
  assumes sel: "select_cancelled b c (await (on_net op)) t = Some (Fin x t')"
  obtains (same) "strm t' = strm t" "x = None"
  | (ready) d p q where "op (lw_net (strm t)) = (Ready_in d p, q)" "strm t' = (strm t)\<lparr>lw_net := q\<rparr>"
      "x = None \<or> x = Some p"
proof (cases c)
  case None
  with sel obtain a where "await (on_net op) t = Some (Fin a t')" "x = Some a"
    by (auto simp: select_never_cancelled elim: map_async_FinE)
  then show ?thesis
    by (cases "op (lw_net (strm t))") (auto elim!: await_FinE simp: on_net_def intro: ready)
next
  case (Some C)
  show ?thesis
  proof (cases "b \<and> C \<le> now t")
    case True
    with sel Some show ?thesis by (intro same) (auto simp: select_cancelled_def)
  next
    case False
    with sel Some obtain y where y: "until (max C (now t)) (await (on_net op)) t = Some (Fin y t')"
      "x = None \<or> x = y"
      by (auto simp: select_cancelled_def elim!: bind_async_FinE split: if_splits)
    let ?t = "t\<lparr>deadline := Some (case deadline t of None \<Rightarrow> max C (now t) | Some E \<Rightarrow> min (max C (now t)) E)\<rparr>"
    from y(1) obtain z where z: "await (on_net op) ?t = Some z"
      "strm t' = strm (case z of Fin a t1 \<Rightarrow> t1 | Cut t1 \<Rightarrow> t1)"
      "y = (case z of Fin a t1 \<Rightarrow> Some a | Cut t1 \<Rightarrow> None)"
      by (auto simp: until_def split: Option.bind_splits outcome.splits if_splits)
    show ?thesis
    proof (cases z)
      case (Fin a t1)
      with z(1) obtain d q where "op (lw_net (strm t)) = (Ready_in d a, q)"
        "strm t1 = (strm t)\<lparr>lw_net := q\<rparr>"
        by (auto elim!: await_FinE simp: on_net_def split: prod.splits)
      with Fin z y(2) show ?thesis by (intro ready) auto
    next
      case (Cut t1)
      with z y(2) show ?thesis by (intro same) (auto elim: await_on_net_CutE)
    qed
  qed
qed

lemma select_on_net:
  assumes "select_cancelled b c (await (on_net op)) t = Some (Fin x t')"
  shows "lw_metrics (strm t') = lw_metrics (strm t) \<and> lw_spawned (strm t') = lw_spawned (strm t)"
  using assms by (cases rule: select_frame) simp_all

lemma listener_step_accounted:
  assumes run: "listener_step env bias c n t = Some (Fin x t')" and inv: "accounted (strm t)"
  shows "accounted (strm t')"
proof -
  from run obtain sel t1 where sel: "select_cancelled (bias n) c (await (on_net (tcp_accept env))) t =
      Some (Fin sel t1)"
    and rest: "(case sel of
       None \<Rightarrow> ret (Break ())
     | Some accept_result \<Rightarrow>
         bind_async (handle_accept env accept_result) (\<lambda>_. ret (Continue (Suc n)))) t1 = Some (Fin x t')"
    unfolding listener_step_def by (rule bind_async_FinE)
  have inv1: "accounted (strm t1)"
    using select_on_net [OF sel] inv accounted_frame by blast
  show ?thesis
  proof (cases sel)
    case None
    with rest inv1 show ?thesis by (simp add: ret_def)
  next
    case (Some r)
    with rest obtain u t2 where "handle_accept env r t1 = Some (Fin u t2)" "t' = t2"
      by (auto simp: ret_def elim!: bind_async_FinE)
    with handle_accept_accounted inv1 show ?thesis by blast
  qed
qed

lemma listener_step_Break:
  assumes t: "in_time t" and run: "listener_step env bias c n t = Some (Fin (Break u) t')"
  shows "\<exists>C. c = Some C \<and> C \<le> now t'"
proof -
  from run obtain sel t1 where sel: "select_cancelled (bias n) c (await (on_net (tcp_accept env))) t =
      Some (Fin sel t1)"
    and rest: "(case sel of
       None \<Rightarrow> ret (Break ())
     | Some accept_result \<Rightarrow>
         bind_async (handle_accept env accept_result) (\<lambda>_. ret (Continue (Suc n)))) t1 =
      Some (Fin (Break u) t')"
    unfolding listener_step_def by (rule bind_async_FinE)
  from rest have "sel = None \<and> t1 = t'"
    by (cases sel) (auto simp: ret_def elim!: bind_async_FinE)
  with sel select_None_cancelled [OF timely_await t] show ?thesis by blast
qed

lemma listener_loop_inv:
  assumes t: "in_time t" "accounted (strm t)"
    and run: "loop_async (listener_step env bias c) n t = Some (Fin u t')"
  shows "accounted (strm t') \<and> (\<exists>C. c = Some C \<and> C \<le> now t')"
proof -
  have "case Fin u t' of Fin _ t' \<Rightarrow> accounted (strm t') \<and> (\<exists>C. c = Some C \<and> C \<le> now t') | Cut _ \<Rightarrow> True"
    using run
  proof (rule loop_async_rule [where I = "\<lambda>_ t. in_time t \<and> accounted (strm t)"])
    fix n1 t1 n2 t2
    assume "in_time t1 \<and> accounted (strm t1)" "listener_step env bias c n1 t1 = Some (Fin (Continue n2) t2)"
    then show "in_time t2 \<and> accounted (strm t2)"
      using timely_FinD [OF timely_listener_step] listener_step_accounted by blast
  next
    fix n1 t1 v t2
    assume "in_time t1 \<and> accounted (strm t1)" "listener_step env bias c n1 t1 = Some (Fin (Break v) t2)"
    then show "case Fin v t2 of
        Fin _ t' \<Rightarrow> accounted (strm t') \<and> (\<exists>C. c = Some C \<and> C \<le> now t') | Cut _ \<Rightarrow> True"
      using listener_step_accounted listener_step_Break by auto
  qed (use t in simp_all)
  then show ?thesis by simp
qed

text \<open>A listener that has returned \<open>Ok\<close> has seen the cancellation.\<close>

lemma listener_stops_after_cancellation:
  assumes run: "handle_tcp_listener env bias cancelled t = Some (Fin (Inr ()) t')" and t: "in_time t"
  shows "\<exists>C. cancelled = Some C \<and> C \<le> now t'"
proof -
  from run obtain v where "loop_async (listener_step env bias cancelled) 0 t = Some (Fin v t')"
    by (auto simp: handle_tcp_listener_def ret_def elim: map_async_FinE split: sum.splits)
  then have "case Fin v t' of Fin _ u \<Rightarrow> \<exists>C. cancelled = Some C \<and> C \<le> now u | Cut _ \<Rightarrow> True"
  proof (rule loop_async_rule [where I = "\<lambda>_ t. in_time t"])
    fix n1 t1 n2 t2
    assume "in_time t1" "listener_step env bias cancelled n1 t1 = Some (Fin (Continue n2) t2)"
    then show "in_time t2" using timely_FinD [OF timely_listener_step] by blast
  next
    fix n1 t1 w t2
    assume "in_time t1" "listener_step env bias cancelled n1 t1 = Some (Fin (Break w) t2)"
    from listener_step_Break [OF this]
    show "case Fin w t2 of Fin _ u \<Rightarrow> \<exists>C. cancelled = Some C \<and> C \<le> now u | Cut _ \<Rightarrow> True" by simp
  qed (use t in simp_all)
  then show ?thesis by simp
qed

lemma forward_task_run:
  assumes "deadline t = None"
    and "cp QUIC_STREAM_READ_BUFFER_SIZE QUIC_STREAM_READ_BUFFER_SIZE (fst (strm t)) =
      (Ready_in d result, s)"
  shows "\<exists>t'. forward_task cp t = Some (Fin () t') \<and>
    snd (strm t') = (case result of
      Inr (bytes_a, bytes_b) \<Rightarrow> snd (strm t) @ [(BYTES_TRANSMITTED_A, bytes_a),
        (BYTES_TRANSMITTED_B, bytes_b), (TCP_QUIC_CONNECTIONS_CLOSED_GRACEFUL, 1)]
    | Inl err \<Rightarrow> snd (strm t) @ [(if contains (io_text err) ''error 0''
        then TCP_QUIC_CONNECTIONS_CLOSED_GRACEFUL else TCP_QUIC_CONNECTIONS_CLOSED_ERROR, 1)])"
  using forward_run [of t cp, OF assms, of "ref_inc_by (IntCounter_inc_by BYTES_TRANSMITTED_A)"
      "ref_inc_by (IntCounter_inc_by BYTES_TRANSMITTED_B)"]
  by (auto simp: forward_task_def server_forward_tcp_to_quic_stream_def bind_async_apply
      try_async_apply modify_def ret_def inc_def ref_inc_by_def IntCounter_inc_by_def
      split: sum.splits prod.splits)

subsection \<open>A concrete environment\<close>

text \<open>A network on which a list of connection attempts arrives, and then none.\<close>

definition listed_env :: "((io_error + nat) list, nat, bytes list, bytes) listener_env" where
  "listed_env =
     \<lparr>local_addr = Inr ''0.0.0.0:8080'',
      tcp_accept = (\<lambda>q. case q of [] \<Rightarrow> (Never, [])
        | Inl e # q' \<Rightarrow> (Ready_in 1 (Inl e), q')
        | Inr c # q' \<Rightarrow> (Ready_in 1 (Inr (c, ''peer'')), q')),
      quic_open_bi = (\<lambda>q. (Ready_in 0 (if length q mod 2 = 0 then Inr ([], []) else Inl ''limit''), q)),
      recv_id = (\<lambda>_. ''id''), tcp_shutdown = (\<lambda>c q. (Ready_in 0 (Inr ()), q))\<rparr>"

definition listed_task :: "(io_error + nat) list \<Rightarrow>
    ((io_error + nat) list, nat, bytes list, bytes) listener_world task" where
  "listed_task q = \<lparr>now = 0, deadline = None, strm = \<lparr>lw_net = q, lw_metrics = [], lw_spawned = []\<rparr>\<rparr>"

text \<open>
  Three attempts arrive: a connection that is forwarded, one for which no stream can be opened,
  and a failure; then the token is cancelled.
\<close>

lemma listed_run:
  assumes "9 \<le> C"
  shows "\<exists>t'. handle_tcp_listener listed_env (\<lambda>_. True) (Some C)
      (listed_task [Inr 5, Inr 6, Inl (IoError OtherKind ''e'')]) = Some (Fin (Inr ()) t') \<and>
    lw_metrics (strm t') = [(TCP_CONNECTIONS_ACCEPTED, 1), (TCP_CONNECTIONS_ACCEPTED, 1),
      (QUIC_DATA_STREAM_OPENING_ERRORS, 1), (TCP_CONNECTIONS_FAILED_ACCEPTING, 1)] \<and>
    map fst (lw_spawned (strm t')) = [5]"
proof -
  let ?t = "listed_task [Inr 5, Inr 6, Inl (IoError OtherKind ''e'')]"
  let ?step = "listener_step listed_env (\<lambda>_. True) (Some C)"
  note defs = listener_step_def select_cancelled_def bind_async_apply until_def await_def
    on_net_def ret_def handle_accept_def modify_def listed_env_def count_def spawn_forward_def inc_def
  obtain t1 where t1: "?step 0 ?t = Some (Fin (Continue 1) t1)" "now t1 = 1" "deadline t1 = None"
    "lw_net (strm t1) = [Inr 6, Inl (IoError OtherKind ''e'')]"
    "lw_metrics (strm t1) = [(TCP_CONNECTIONS_ACCEPTED, 1)]" "map fst (lw_spawned (strm t1)) = [5]"
    using assms by (simp add: defs listed_task_def)
  obtain t2 where t2: "?step 1 t1 = Some (Fin (Continue 2) t2)" "now t2 = 2" "deadline t2 = None"
    "lw_net (strm t2) = [Inl (IoError OtherKind ''e'')]"
    "lw_metrics (strm t2) = [(TCP_CONNECTIONS_ACCEPTED, 1), (TCP_CONNECTIONS_ACCEPTED, 1),
      (QUIC_DATA_STREAM_OPENING_ERRORS, 1)]" "map fst (lw_spawned (strm t2)) = [5]"
    using assms t1(2-6) by (simp add: defs)
  obtain t3 where t3: "?step 2 t2 = Some (Fin (Continue 3) t3)" "now t3 = 3" "deadline t3 = None"
    "lw_net (strm t3) = []"
    "lw_metrics (strm t3) = [(TCP_CONNECTIONS_ACCEPTED, 1), (TCP_CONNECTIONS_ACCEPTED, 1),
      (QUIC_DATA_STREAM_OPENING_ERRORS, 1), (TCP_CONNECTIONS_FAILED_ACCEPTING, 1)]"
    "map fst (lw_spawned (strm t3)) = [5]"
    using assms t2(2-6) by (simp add: defs)
  obtain t4 where t4: "?step 3 t3 = Some (Fin (Break ()) t4)"
    "lw_metrics (strm t4) = lw_metrics (strm t3)" "lw_spawned (strm t4) = lw_spawned (strm t3)"
    using assms t3(2-4) by (simp add: defs)
  have "loop_async ?step 0 ?t = Some (Fin () t4)"
    using loop_async_Continue [of ?step, OF t1(1)] loop_async_Continue [of ?step, OF t2(1)]
      loop_async_Continue [of ?step, OF t3(1)] loop_async_Break [of ?step, OF t4(1)] by simp
  then have "handle_tcp_listener listed_env (\<lambda>_. True) (Some C) ?t = Some (Fin (Inr ()) t4)"
    by (simp add: handle_tcp_listener_def map_async_Fin listed_env_def)
  with t4(2,3) t3(5,6) show ?thesis by auto
qed

subsection \<open>Properties\<close>

text \<open>
  The listener never loses a connection: whenever it returns, the number of connections it
  accepted is the number of forwarding tasks it spawned plus the number of streams it failed to
  open; and it returns \<open>Ok\<close> only because its token was cancelled, whatever errors accepting,
  opening streams and shutting down have given.
\<close>

lemma listener_accounts_for_every_connection:
  assumes "in_time t" "accounted (strm t)"
    and "handle_tcp_listener env bias cancelled t = Some (Fin r t')"
  shows "accounted (strm t') \<and>
    (case local_addr env of
       Inl e \<Rightarrow> r = Inl (FromIo e)
     | Inr _ \<Rightarrow> r = Inr () \<and> (\<exists>C. cancelled = Some C \<and> C \<le> now t'))"
proof (cases "local_addr env")
  case (Inl e)
  with assms show ?thesis by (simp add: handle_tcp_listener_def ret_def)
next
  case (Inr a)
  with assms(3) obtain u where "loop_async (listener_step env bias cancelled) 0 t = Some (Fin u t')" "r = Inr ()"
    by (auto simp: handle_tcp_listener_def elim: map_async_FinE)
  with listener_loop_inv [OF assms(1,2)] Inr show ?thesis by auto
qed

text \<open>
  A cancelled listener stops: if no further connection arrives, it returns \<open>Ok\<close> at the
  instant of the cancellation, or at once when the token is cancelled already.
\<close>

lemma listener_stops_when_cancelled:
  assumes "deadline t = None" "local_addr env = Inr a" "tcp_accept env (lw_net (strm t)) = (Never, q)"
  shows "handle_tcp_listener env bias (Some C) t = Some (Fin (Inr ()) (t\<lparr>now := max C (now t)\<rparr>))"
proof -
  have "listener_step env bias (Some C) 0 t = Some (Fin (Break ()) (t\<lparr>now := max C (now t)\<rparr>))"
    using assms(1,3)
    by (auto simp: listener_step_def select_cancelled_def bind_async_apply until_def await_def
        on_net_def ret_def max_def)
  from loop_async_Break [of "listener_step env bias (Some C)", OF this] assms(2) show ?thesis
    by (simp add: handle_tcp_listener_def map_async_Fin)
qed

text \<open>
  C40: a forwarding task of the server returns when its copy does, and counts its connection
  exactly once: as closed gracefully if the copy completed or failed with a text that contains
  \<open>error 0\<close>, and with an error otherwise; it counts bytes, in both directions, only for a completed
  copy.
\<close>

theorem forward_task_counts_once:
  assumes "deadline t = None"
    and "cp QUIC_STREAM_READ_BUFFER_SIZE QUIC_STREAM_READ_BUFFER_SIZE (fst (strm t)) =
      (Ready_in d result, s)"
  shows "\<exists>t'. forward_task cp t = Some (Fin () t') \<and>
    (\<forall>k. counted k (snd (strm t')) = counted k (snd (strm t)) +
       (case k of
          TCP_QUIC_CONNECTIONS_CLOSED_GRACEFUL \<Rightarrow>
            (case result of Inr _ \<Rightarrow> 1 | Inl e \<Rightarrow> if contains (io_text e) ''error 0'' then 1 else 0)
        | TCP_QUIC_CONNECTIONS_CLOSED_ERROR \<Rightarrow>
            (case result of Inr _ \<Rightarrow> 0 | Inl e \<Rightarrow> if contains (io_text e) ''error 0'' then 0 else 1)
        | BYTES_TRANSMITTED_A \<Rightarrow> (case result of Inr (a, b) \<Rightarrow> a | Inl _ \<Rightarrow> 0)
        | BYTES_TRANSMITTED_B \<Rightarrow> (case result of Inr (a, b) \<Rightarrow> b | Inl _ \<Rightarrow> 0)
        | _ \<Rightarrow> 0))"
proof -
  from forward_task_run [of t cp, OF assms] obtain t' where t': "forward_task cp t = Some (Fin () t')"
    "snd (strm t') = (case result of
      Inr (bytes_a, bytes_b) \<Rightarrow> snd (strm t) @ [(BYTES_TRANSMITTED_A, bytes_a),
        (BYTES_TRANSMITTED_B, bytes_b), (TCP_QUIC_CONNECTIONS_CLOSED_GRACEFUL, 1)]
    | Inl err \<Rightarrow> snd (strm t) @ [(if contains (io_text err) ''error 0''
        then TCP_QUIC_CONNECTIONS_CLOSED_GRACEFUL else TCP_QUIC_CONNECTIONS_CLOSED_ERROR, 1)])"
    by blast
  have "counted k (snd (strm t')) = counted k (snd (strm t)) +
       (case k of
          TCP_QUIC_CONNECTIONS_CLOSED_GRACEFUL \<Rightarrow>
            (case result of Inr _ \<Rightarrow> 1 | Inl e \<Rightarrow> if contains (io_text e) ''error 0'' then 1 else 0)
        | TCP_QUIC_CONNECTIONS_CLOSED_ERROR \<Rightarrow>
            (case result of Inr _ \<Rightarrow> 0 | Inl e \<Rightarrow> if contains (io_text e) ''error 0'' then 0 else 1)
        | BYTES_TRANSMITTED_A \<Rightarrow> (case result of Inr (a, b) \<Rightarrow> a | Inl _ \<Rightarrow> 0)
        | BYTES_TRANSMITTED_B \<Rightarrow> (case result of Inr (a, b) \<Rightarrow> b | Inl _ \<Rightarrow> 0)
        | _ \<Rightarrow> 0)" for k
    unfolding t'(2) by (cases result; cases k) (auto split: prod.splits)
  with t'(1) show ?thesis by blast
qed

theorem forward_task_counts_once_witness:
  "\<exists>t'. forward_task (\<lambda>_ _ s. (Ready_in 7 (Inr (10, 20)), s))
      \<lparr>now = 0, deadline = None, strm = ((), [(TCP_CONNECTIONS_ACCEPTED, 1)])\<rparr> = Some (Fin () t') \<and>
    counted BYTES_TRANSMITTED_B (snd (strm t')) = 20 \<and>
    counted TCP_QUIC_CONNECTIONS_CLOSED_GRACEFUL (snd (strm t')) = 1 \<and>
    counted TCP_CONNECTIONS_ACCEPTED (snd (strm t')) = 1"
proof -
  let ?t = "\<lparr>now = 0, deadline = None, strm = ((), [(TCP_CONNECTIONS_ACCEPTED, 1)])\<rparr>"
  obtain t' where t': "forward_task (\<lambda>_ _ s. (Ready_in 7 (Inr (10, 20)), s)) ?t = Some (Fin () t')"
    and k: "\<And>k. counted k (snd (strm t')) = counted k (snd (strm ?t)) +
       (case k of
          TCP_QUIC_CONNECTIONS_CLOSED_GRACEFUL \<Rightarrow> 1
        | BYTES_TRANSMITTED_A \<Rightarrow> 10
        | BYTES_TRANSMITTED_B \<Rightarrow> 20
        | _ \<Rightarrow> 0)"
    using forward_task_counts_once [of ?t "\<lambda>_ _ s. (Ready_in 7 (Inr (10, 20)), s)" 7 "Inr (10, 20)" "()"]
    by (auto cong: server_counter.case_cong)
  from k [of BYTES_TRANSMITTED_B] k [of TCP_QUIC_CONNECTIONS_CLOSED_GRACEFUL]
    k [of TCP_CONNECTIONS_ACCEPTED] t' show ?thesis by (intro exI [of _ t']) simp
qed

end
