(* ===== verification/Connection_System.thy ===== *)
theory Connection_System
  imports Server_Listener Server_Handler
begin

section \<open>Tasks of the server in parallel (\<open>src/server/client_handler.rs\<close>,
  \<open>src/server/tcp_listener.rs\<close>)\<close>

text \<open>
  For every client that has been configured, the server runs the control channel loop and the
  listener task at the same time, and one more task for every TCP connection; the tasks of all
  clients run in parallel and share the counters.  Here the tasks are step relations, with one
  step from one \<open>await\<close> to the next, labelled with the increments of the counters it makes.
  A connection is the state of the three kinds of tasks, the server the list of its connections
  and the counters.

  The lemmas show the invariants of all reachable states, that the step relation of the
  listener is what \<^const>\<open>listener_step\<close> does, that a run can be prolonged only by accepting new
  connections, and that the end of a connection can always be reached.
\<close>

subsection \<open>Model\<close>

text \<open>
  The handler in step 4: in the control loop, there reading a message, writing the answer to a
  \<open>PING\<close>, or flushing it; after the cancellation of the token; after closing the QUIC connection
  (waiting for the listener); returned.
\<close>

datatype handler_phase =
    Serving | Answering | Flushing_answer | Token_cancelled | Conn_closed | Finished

text \<open>
  The listener task: before \<open>local_addr()\<close>, in \<open>select!\<close>, in \<open>open_bi\<close>, in \<open>shutdown\<close>, returned.
\<close>

datatype 'tcp listener_phase =
    Starting | Accepting | Opening 'tcp | Shutting_down 'tcp | Stopped

record 'tcp connection =
  handler :: handler_phase
  listener :: "'tcp listener_phase"
  tasks :: "'tcp list"

definition new_connection :: "'tcp connection" where
  "new_connection = \<lparr>handler = Serving, listener = Starting, tasks = []\<rparr>"

definition token_cancelled :: "'tcp connection \<Rightarrow> bool" where
  "token_cancelled c \<longleftrightarrow> handler c \<in> {Token_cancelled, Conn_closed, Finished}"

text \<open>
  The listener returns at once, with an error, when \<open>local_addr()\<close> fails.  \<open>select!\<close> takes any of
  the branches that are ready, so the listener may still accept when the token is cancelled.
\<close>

inductive listener_moves ::
  "'tcp connection \<Rightarrow> server_counter increments \<Rightarrow> 'tcp connection \<Rightarrow> bool" where
  local_addr_error: "listener c = Starting \<Longrightarrow> listener_moves c [] (c\<lparr>listener := Stopped\<rparr>)"
| local_addr_ok: "listener c = Starting \<Longrightarrow> listener_moves c [] (c\<lparr>listener := Accepting\<rparr>)"
| stop: "listener c = Accepting \<Longrightarrow> token_cancelled c \<Longrightarrow>
     listener_moves c [] (c\<lparr>listener := Stopped\<rparr>)"
| accept_error: "listener c = Accepting \<Longrightarrow>
     listener_moves c [(TCP_CONNECTIONS_FAILED_ACCEPTING, 1)] c"
| accept_ok: "listener c = Accepting \<Longrightarrow>
     listener_moves c [(TCP_CONNECTIONS_ACCEPTED, 1)] (c\<lparr>listener := Opening tcp\<rparr>)"
| open_error: "listener c = Opening tcp \<Longrightarrow>
     listener_moves c [(QUIC_DATA_STREAM_OPENING_ERRORS, 1)] (c\<lparr>listener := Shutting_down tcp\<rparr>)"
| open_ok: "listener c = Opening tcp \<Longrightarrow>
     listener_moves c [] (c\<lparr>listener := Accepting, tasks := tasks c @ [tcp]\<rparr>)"
| shutdown: "listener c = Shutting_down tcp \<Longrightarrow>
     listener_moves c [] (c\<lparr>listener := Accepting\<rparr>)"

text \<open>
  The control loop reads a message; a \<open>PING\<close> is answered and the answer flushed, then it reads
  again.  Everything else ends the loop: the end of the stream, \<open>BYE\<close>, another message, an error
  of reading and the timeout (\<open>control_loop_ends\<close>), and errors of writing and flushing.  The end of
  the loop cancels the token; then the connection is closed and the listener task awaited.
\<close>

inductive handler_moves :: "'tcp connection \<Rightarrow> 'tcp connection \<Rightarrow> bool" where
  ping: "handler c = Serving \<Longrightarrow> handler_moves c (c\<lparr>handler := Answering\<rparr>)"
| pong_written: "handler c = Answering \<Longrightarrow> handler_moves c (c\<lparr>handler := Flushing_answer\<rparr>)"
| pong_flushed: "handler c = Flushing_answer \<Longrightarrow> handler_moves c (c\<lparr>handler := Serving\<rparr>)"
| control_loop_ends: "handler c = Serving \<Longrightarrow> handler_moves c (c\<lparr>handler := Token_cancelled\<rparr>)"
| write_fails: "handler c = Answering \<Longrightarrow> handler_moves c (c\<lparr>handler := Token_cancelled\<rparr>)"
| flush_fails: "handler c = Flushing_answer \<Longrightarrow> handler_moves c (c\<lparr>handler := Token_cancelled\<rparr>)"
| close: "handler c = Token_cancelled \<Longrightarrow> handler_moves c (c\<lparr>handler := Conn_closed\<rparr>)"
| join: "handler c = Conn_closed \<Longrightarrow> listener c = Stopped \<Longrightarrow>
     handler_moves c (c\<lparr>handler := Finished\<rparr>)"

text \<open>A forwarding task ends; nothing else in the program ends it.\<close>

inductive task_moves ::
  "'tcp connection \<Rightarrow> server_counter increments \<Rightarrow> 'tcp connection \<Rightarrow> bool" where
  completed: "tasks c = xs @ tcp # ys \<Longrightarrow>
     task_moves c [(BYTES_TRANSMITTED_A, a), (BYTES_TRANSMITTED_B, b),
       (TCP_QUIC_CONNECTIONS_CLOSED_GRACEFUL, 1)] (c\<lparr>tasks := xs @ ys\<rparr>)"
| closed: "tasks c = xs @ tcp # ys \<Longrightarrow>
     task_moves c [(TCP_QUIC_CONNECTIONS_CLOSED_GRACEFUL, 1)] (c\<lparr>tasks := xs @ ys\<rparr>)"
| failed: "tasks c = xs @ tcp # ys \<Longrightarrow>
     task_moves c [(TCP_QUIC_CONNECTIONS_CLOSED_ERROR, 1)] (c\<lparr>tasks := xs @ ys\<rparr>)"

inductive connection_moves ::
  "'tcp connection \<Rightarrow> server_counter increments \<Rightarrow> 'tcp connection \<Rightarrow> bool" where
  by_listener: "listener_moves c es c' \<Longrightarrow> connection_moves c es c'"
| by_handler: "handler_moves c c' \<Longrightarrow> connection_moves c [] c'"
| by_task: "task_moves c es c' \<Longrightarrow> connection_moves c es c'"

text \<open>The server: any client may be configured at any time, and any connection may move.\<close>

record 'tcp server_system =
  connections :: "'tcp connection list"
  metrics :: "server_counter increments"

definition server_start :: "'tcp server_system" where
  "server_start = \<lparr>connections = [], metrics = []\<rparr>"

inductive server_moves :: "'tcp server_system \<Rightarrow> 'tcp server_system \<Rightarrow> bool" where
  configured: "server_moves s (s\<lparr>connections := connections s @ [new_connection]\<rparr>)"
| moves: "i < length (connections s) \<Longrightarrow> connection_moves (connections s ! i) es c' \<Longrightarrow>
     server_moves s (s\<lparr>connections := (connections s)[i := c'], metrics := metrics s @ es\<rparr>)"

inductive server_reachable :: "'tcp server_system \<Rightarrow> bool" where
  start: "server_reachable server_start"
| step: "server_reachable s \<Longrightarrow> server_moves s s' \<Longrightarrow> server_reachable s'"

text \<open>A run of one connection, with the labels of its steps.\<close>

inductive connection_run ::
  "'tcp connection \<Rightarrow> server_counter increments list \<Rightarrow> 'tcp connection \<Rightarrow> bool" where
  refl: "connection_run c [] c"
| step: "connection_moves c es c' \<Longrightarrow> connection_run c' ess c'' \<Longrightarrow>
     connection_run c (es # ess) c''"

inductive_cases listener_movesE: "listener_moves c es c'"
inductive_cases handler_movesE: "handler_moves c c'"
inductive_cases task_movesE: "task_moves c es c'"
inductive_cases connection_movesE: "connection_moves c es c'"
inductive_cases connection_run_NilE: "connection_run c [] c'"
inductive_cases connection_run_ConsE: "connection_run c (es # ess) c'"

lemmas moves_intros = listener_moves.intros handler_moves.intros task_moves.intros
  connection_moves.intros
lemmas moves_elims = connection_movesE listener_movesE handler_movesE task_movesE

subsection \<open>What the steps keep\<close>

text \<open>
  \<open>balance\<close> is the number of accepted connections that the increments have not accounted for;
  \<open>pending\<close> is the number of those a connection still works on.
\<close>

definition balance :: "server_counter increments \<Rightarrow> u64" where
  "balance es =
     counted TCP_CONNECTIONS_ACCEPTED es - counted QUIC_DATA_STREAM_OPENING_ERRORS es -
     counted TCP_QUIC_CONNECTIONS_CLOSED_GRACEFUL es - counted TCP_QUIC_CONNECTIONS_CLOSED_ERROR es"

fun opening_streams :: "'tcp listener_phase \<Rightarrow> nat" where
  "opening_streams (Opening tcp) = 1"
| "opening_streams _ = 0"

definition pending :: "'tcp connection \<Rightarrow> u64" where
  "pending c = word_of_nat (length (tasks c) + opening_streams (listener c))"

definition connection_ok :: "'tcp connection \<Rightarrow> bool" where
  "connection_ok c \<longleftrightarrow>
     (handler c = Finished \<longrightarrow> listener c = Stopped)"

lemma balance_append [simp]: "balance (es @ es') = balance es + balance es'"
  by (simp add: balance_def algebra_simps)

lemma balance_Nil [simp]: "balance [] = 0"
  by (simp add: balance_def)

lemma sum_list_map_update:
  fixes f :: "'a \<Rightarrow> 'b::ab_group_add"
  shows "i < length xs \<Longrightarrow> sum_list (map f (xs[i := y])) = sum_list (map f xs) - f (xs ! i) + f y"
proof (induction xs arbitrary: i)
  case (Cons x xs)
  then show ?case by (cases i) (simp_all add: algebra_simps)
qed simp

text \<open>The contract that each kind of task fulfils, and what it gives for the whole server.\<close>

locale balanced_moves =
  fixes moves :: "'tcp connection \<Rightarrow> server_counter increments \<Rightarrow> 'tcp connection \<Rightarrow> bool"
  assumes keeps_balance: "moves c es c' \<Longrightarrow> pending c' = pending c + balance es"
    and keeps_ok: "moves c es c' \<Longrightarrow> connection_ok c \<Longrightarrow> connection_ok c'"
begin

lemma sum_pending:
  "i < length cs \<Longrightarrow> moves (cs ! i) es c' \<Longrightarrow>
     sum_list (map pending (cs[i := c'])) = sum_list (map pending cs) + balance es"
  using keeps_balance by (simp add: sum_list_map_update)

lemma all_ok:
  "list_all connection_ok cs \<Longrightarrow> i < length cs \<Longrightarrow> moves (cs ! i) es c' \<Longrightarrow>
     list_all connection_ok (cs[i := c'])"
  using keeps_ok [of "cs ! i" es c'] set_update_subset_insert [of cs i c']
  by (auto simp: list_all_iff)

end

interpretation listener_task: balanced_moves listener_moves
  by unfold_locales
    (auto elim!: listener_movesE simp: pending_def balance_def connection_ok_def token_cancelled_def)

interpretation handler_task: balanced_moves "\<lambda>c es c'. es = [] \<and> handler_moves c c'"
  by unfold_locales (auto elim!: handler_movesE simp: pending_def connection_ok_def token_cancelled_def)

interpretation forwarding_tasks: balanced_moves task_moves
  by unfold_locales
    (auto elim!: task_movesE simp: pending_def balance_def connection_ok_def token_cancelled_def)

interpretation all_tasks: balanced_moves connection_moves
proof unfold_locales
  fix c c' :: "'tcp connection" and es
  show "connection_moves c es c' \<Longrightarrow> pending c' = pending c + balance es"
    by (auto elim!: connection_movesE
        simp: listener_task.keeps_balance handler_task.keeps_balance forwarding_tasks.keeps_balance)
  show "connection_moves c es c' \<Longrightarrow> connection_ok c \<Longrightarrow> connection_ok c'"
    by (auto elim!: connection_movesE
        intro: listener_task.keeps_ok handler_task.keeps_ok forwarding_tasks.keeps_ok)
qed

definition server_ok :: "'tcp server_system \<Rightarrow> bool" where
  "server_ok s \<longleftrightarrow>
     balance (metrics s) = sum_list (map pending (connections s)) \<and>
     list_all connection_ok (connections s)"

lemma server_moves_ok: "server_moves s s' \<Longrightarrow> server_ok s \<Longrightarrow> server_ok s'"
proof (induction rule: server_moves.induct)
  case (configured s)
  then show ?case
    by (simp add: server_ok_def pending_def connection_ok_def token_cancelled_def new_connection_def)
next
  case (moves i s es c')
  then show ?case
    by (simp add: server_ok_def all_tasks.sum_pending all_tasks.all_ok)
qed

lemma server_reachable_ok: "server_reachable s \<Longrightarrow> server_ok s"
proof (induction rule: server_reachable.induct)
  case start
  show ?case by (simp add: server_ok_def server_start_def)
qed (rule server_moves_ok)

subsection \<open>Runs of one connection\<close>

definition accept_event :: "server_counter increments \<Rightarrow> bool" where
  "accept_event es \<longleftrightarrow>
     es = [(TCP_CONNECTIONS_ACCEPTED, 1)] \<or> es = [(TCP_CONNECTIONS_FAILED_ACCEPTING, 1)]"

text \<open>How far a connection is from its end.\<close>

fun handler_work :: "handler_phase \<Rightarrow> nat" where
  "handler_work Serving = 3"
| "handler_work Answering = 3"
| "handler_work Flushing_answer = 3"
| "handler_work Token_cancelled = 2"
| "handler_work Conn_closed = 1"
| "handler_work Finished = 0"

fun listener_work :: "'tcp listener_phase \<Rightarrow> nat" where
  "listener_work (Opening tcp) = 3"
| "listener_work (Shutting_down tcp) = 2"
| "listener_work Starting = 2"
| "listener_work Accepting = 1"
| "listener_work Stopped = 0"

definition work :: "'tcp connection \<Rightarrow> nat" where
  "work c = handler_work (handler c) + listener_work (listener c) + length (tasks c)"

lemma connection_run_append:
  "connection_run c ess c' \<Longrightarrow> connection_run c' ess' c'' \<Longrightarrow> connection_run c (ess @ ess') c''"
  by (induction rule: connection_run.induct) (auto intro: connection_run.intros)

lemma connection_run_single: "connection_moves c es c' \<Longrightarrow> connection_run c [es] c'"
  by (auto intro: connection_run.intros)

text \<open>
  A connection that has not ended can make a step towards its end that neither accepts nor opens
  a stream.
\<close>

lemma connection_progress:
  assumes "handler c \<noteq> Finished \<or> tasks c \<noteq> []"
  shows "\<exists>es c'. connection_moves c es c' \<and> length (tasks c') \<le> length (tasks c) \<and>
    work c' < work c \<and>
    es \<in> {[], [(TCP_QUIC_CONNECTIONS_CLOSED_GRACEFUL, 1)], [(QUIC_DATA_STREAM_OPENING_ERRORS, 1)]}"
proof (cases "tasks c")
  case (Cons tcp ys)
  then have "task_moves c [(TCP_QUIC_CONNECTIONS_CLOSED_GRACEFUL, 1)] (c\<lparr>tasks := [] @ ys\<rparr>)"
    by (intro task_moves.closed) simp
  with Cons show ?thesis
    by (intro exI [of _ "[(TCP_QUIC_CONNECTIONS_CLOSED_GRACEFUL, 1)]"] exI [of _ "c\<lparr>tasks := [] @ ys\<rparr>"])
      (auto intro: by_task simp: work_def)
next
  case Nil
  have h: ?thesis if "handler_moves c c'" "tasks c' = []" "work c' < work c" for c'
    using that Nil by (intro exI [of _ "[]"] exI [of _ c']) (auto intro: by_handler)
  have l: ?thesis if "listener_moves c es c'" "tasks c' = []" "work c' < work c"
    "es = [] \<or> es = [(QUIC_DATA_STREAM_OPENING_ERRORS, 1)]" for es c'
    using that Nil by (intro exI [of _ es] exI [of _ c']) (auto intro: by_listener)
  show ?thesis
  proof (cases "handler c")
    case Conn_closed
    then have cancelled: "token_cancelled c" by (simp add: token_cancelled_def)
    show ?thesis
    proof (cases "listener c")
      case Starting
      then show ?thesis by (intro l [OF listener_moves.local_addr_ok]) (simp_all add: work_def Nil)
    next
      case Accepting
      then show ?thesis
        by (intro l [OF listener_moves.stop [OF _ cancelled]]) (simp_all add: work_def Nil)
    next
      case (Opening tcp)
      then show ?thesis by (intro l [OF listener_moves.open_error]) (simp_all add: work_def Nil)
    next
      case (Shutting_down tcp)
      then show ?thesis by (intro l [OF listener_moves.shutdown]) (simp_all add: work_def Nil)
    next
      case Stopped
      then show ?thesis
        using Conn_closed by (intro h [OF handler_moves.join]) (simp_all add: work_def Nil)
    qed
  next
    case Serving
    then show ?thesis by (intro h [OF handler_moves.control_loop_ends]) (simp_all add: work_def Nil)
  next
    case Answering
    then show ?thesis by (intro h [OF handler_moves.write_fails]) (simp_all add: work_def Nil)
  next
    case Flushing_answer
    then show ?thesis by (intro h [OF handler_moves.flush_fails]) (simp_all add: work_def Nil)
  next
    case Token_cancelled
    then show ?thesis by (intro h [OF handler_moves.close]) (simp_all add: work_def Nil)
  next
    case Finished
    then show ?thesis using assms Nil by simp
  qed
qed

lemma connection_can_end:
  "connection_ok c \<Longrightarrow> \<exists>ess c'. connection_run c ess c' \<and> handler c' = Finished \<and> tasks c' = [] \<and>
     listener c' = Stopped \<and> filter accept_event ess = []"
proof (induction "work c" arbitrary: c rule: less_induct)
  case less
  show ?case
  proof (cases "handler c = Finished \<and> tasks c = []")
    case True
    with less.prems show ?thesis
      by (intro exI [of _ "[]"] exI [of _ c]) (auto simp: connection_ok_def intro: connection_run.refl)
  next
    case False
    then obtain es c1 where m: "connection_moves c es c1" "\<not> accept_event es"
      and "work c1 < work c"
      using connection_progress by (fastforce simp: accept_event_def)
    from less.hyps [OF \<open>work c1 < work c\<close> all_tasks.keeps_ok [OF m(1) less.prems]] obtain ess c' where
      "connection_run c1 ess c'" "handler c' = Finished" "tasks c' = []" "listener c' = Stopped"
      "filter accept_event ess = []" by blast
    with m show ?thesis
      by (intro exI [of _ "es # ess"] exI [of _ c']) (auto intro: connection_run.step)
  qed
qed

text \<open>Runs of a connection are runs of the server.\<close>

lemma server_reachable_run:
  assumes "connection_run c ess c'" "server_reachable s" "i < length (connections s)"
    "connections s ! i = c"
  shows "server_reachable (s\<lparr>connections := (connections s)[i := c'], metrics := metrics s @ concat ess\<rparr>)"
  using assms
proof (induction arbitrary: s rule: connection_run.induct)
  case (refl c)
  then have "(connections s)[i := c] = connections s" by auto
  with refl show ?case by simp
next
  case (step c es c' ess c'')
  let ?s = "s\<lparr>connections := (connections s)[i := c'], metrics := metrics s @ es\<rparr>"
  have "server_reachable ?s"
    using step by (auto intro: server_reachable.step server_moves.moves)
  from step.IH [OF this] step.prems show ?case by simp
qed

text \<open>A connection whose handler has returned while one TCP connection is still forwarded.\<close>

definition lingering :: "nat connection" where
  "lingering = \<lparr>handler = Finished, listener = Stopped, tasks = [5]\<rparr>"

lemma lingering_run:
  "connection_run new_connection [[], [(TCP_CONNECTIONS_ACCEPTED, 1)], [], [], [], [], []] lingering"
proof -
  let ?c = "\<lambda>h l ts. \<lparr>handler = h, listener = l, tasks = ts\<rparr> :: nat connection"
  have "connection_moves new_connection [] (?c Serving Accepting [])"
    using by_listener [OF listener_moves.local_addr_ok [of new_connection]] by (simp add: new_connection_def)
  moreover have "connection_moves (?c Serving Accepting []) [(TCP_CONNECTIONS_ACCEPTED, 1)] (?c Serving (Opening 5) [])"
    using by_listener [OF listener_moves.accept_ok [of "?c Serving Accepting []" 5]] by simp
  moreover have "connection_moves (?c Serving (Opening 5) []) [] (?c Serving Accepting [5])"
    using by_listener [OF listener_moves.open_ok [of "?c Serving (Opening 5) []" 5]] by simp
  moreover have "connection_moves (?c Serving Accepting [5]) [] (?c Token_cancelled Accepting [5])"
    using by_handler [OF handler_moves.control_loop_ends [of "?c Serving Accepting [5]"]] by simp
  moreover have "connection_moves (?c Token_cancelled Accepting [5]) [] (?c Conn_closed Accepting [5])"
    using by_handler [OF handler_moves.close [of "?c Token_cancelled Accepting [5]"]] by simp
  moreover have "connection_moves (?c Conn_closed Accepting [5]) [] (?c Conn_closed Stopped [5])"
    using by_listener [OF listener_moves.stop [of "?c Conn_closed Accepting [5]"]]
    by (simp add: token_cancelled_def)
  moreover have "connection_moves (?c Conn_closed Stopped [5]) [] lingering"
    using by_handler [OF handler_moves.join [of "?c Conn_closed Stopped [5]"]]
    by (simp add: lingering_def)
  ultimately show ?thesis by (blast intro: connection_run.intros)
qed

lemma lingering_reachable:
  "server_reachable \<lparr>connections = [lingering], metrics = [(TCP_CONNECTIONS_ACCEPTED, 1)]\<rparr>"
proof -
  have "server_reachable \<lparr>connections = [new_connection], metrics = []\<rparr>"
    using server_reachable.step [OF server_reachable.start server_moves.configured]
    by (simp add: server_start_def)
  from server_reachable_run [OF lingering_run this, of 0] show ?thesis by simp
qed

subsection \<open>The listener of the sequential model\<close>

text \<open>A state of the listener task between two turns of its loop, as a connection.\<close>

definition abs_connection ::
  "handler_phase \<Rightarrow> 'tcp listener_phase \<Rightarrow> ('q, 'tcp, 'r, 'w) listener_world task \<Rightarrow> 'tcp connection" where
  "abs_connection h l t = \<lparr>handler = h, listener = l, tasks = map fst (lw_spawned (strm t))\<rparr>"

text \<open>
  The listener sees the handler through its token, which is cancelled at an instant, if at all.
  A timed run of the listener is a sequence of its moves, each at an instant and with the handler
  as it is at that instant.
\<close>

definition handler_at :: "nat option \<Rightarrow> nat \<Rightarrow> handler_phase" where
  "handler_at cancelled n =
     (case cancelled of None \<Rightarrow> Serving | Some C \<Rightarrow> if C \<le> n then Token_cancelled else Serving)"

inductive listener_run ::
  "nat option \<Rightarrow> nat \<Rightarrow> 'tcp connection \<Rightarrow> (nat \<times> server_counter increments) list \<Rightarrow>
   nat \<Rightarrow> 'tcp connection \<Rightarrow> bool" where
  refl: "listener_run cancelled n c [] n c"
| step: "n \<le> m \<Longrightarrow> listener_moves (c\<lparr>handler := handler_at cancelled m\<rparr>) es c' \<Longrightarrow>
     listener_run cancelled m c' evs k c'' \<Longrightarrow> listener_run cancelled n c ((m, es) # evs) k c''"

lemma listener_run_append:
  "listener_run C n c evs m c' \<Longrightarrow> listener_run C m c' evs' k c'' \<Longrightarrow>
     listener_run C n c (evs @ evs') k c''"
  by (induction rule: listener_run.induct) (auto intro: listener_run.step)

lemma listener_run_single:
  "n \<le> m \<Longrightarrow> listener_moves (c\<lparr>handler := handler_at C m\<rparr>) es c' \<Longrightarrow> listener_run C n c [(m, es)] m c'"
  by (auto intro: listener_run.intros)

lemma abs_connection_handler [simp]:
  "(abs_connection h l t)\<lparr>handler := h'\<rparr> = abs_connection h' l t"
  by (simp add: abs_connection_def)

lemma listener_moves_handler: "listener_moves c es c' \<Longrightarrow> handler c' = handler c"
  by (auto elim!: listener_movesE)

text \<open>
  A timed run is a run of the connection, in which the control loop ends when the instant of the
  cancellation is reached.
\<close>

lemma listener_run_connection:
  assumes "listener_run C n c evs k c'" "handler c = handler_at C n"
  shows "\<exists>ess. connection_run c ess c' \<and> concat ess = concat (map snd evs)"
  using assms
proof (induction rule: listener_run.induct)
  case (refl C n c)
  show ?case by (intro exI [of _ "[]"]) (simp add: connection_run.refl)
next
  case (step n m C c es c' evs k c'')
  let ?c = "c\<lparr>handler := handler_at C m\<rparr>"
  from listener_moves_handler [OF step.hyps(2)] have "handler c' = handler_at C m" by simp
  from step.IH [OF this] obtain ess where ess: "connection_run c' ess c''"
    "concat ess = concat (map snd evs)" by blast
  have run: "connection_run ?c (es # ess) c''"
    using by_listener [OF step.hyps(2)] ess(1) by (rule connection_run.step)
  show ?case
  proof (cases "handler_at C m = handler_at C n")
    case True
    with step.prems have "?c = c" by simp
    with run ess(2) show ?thesis by (intro exI [of _ "es # ess"]) simp
  next
    case False
    with step.hyps(1) have "handler_at C n = Serving" "handler_at C m = Token_cancelled"
      by (auto simp: handler_at_def split: option.splits if_splits)
    with step.prems have "connection_moves c [] ?c"
      using by_handler [OF handler_moves.control_loop_ends [of c]] by simp
    from connection_run.step [OF this run] ess(2) show ?thesis
      by (intro exI [of _ "[] # es # ess"]) simp
  qed
qed

text \<open>One accepted connection, and one turn of the loop; the last turn stops the listener.\<close>

lemma handle_accept_run:
  assumes run: "handle_accept env r t = Some (Fin u t')" and n: "n \<le> now t"
  shows "\<exists>evs. listener_run C n (abs_connection h Accepting t) evs (now t')
      (abs_connection (handler_at C (now t')) Accepting t') \<and>
    lw_metrics (strm t') = lw_metrics (strm t) @ concat (map snd evs)"
proof (cases r)
  case (Inl e)
  with run have t': "now t' = now t" "lw_spawned (strm t') = lw_spawned (strm t)"
    "lw_metrics (strm t') = lw_metrics (strm t) @ [(TCP_CONNECTIONS_FAILED_ACCEPTING, 1)]"
    by (auto simp: handle_accept_def modify_def count_def inc_def)
  have "listener_run C n (abs_connection h Accepting t) [(now t', [(TCP_CONNECTIONS_FAILED_ACCEPTING, 1)])]
      (now t') (abs_connection (handler_at C (now t')) Accepting t')"
    using listener_moves.accept_error [of "abs_connection (handler_at C (now t')) Accepting t"] n t'
    by (intro listener_run_single) (simp_all add: abs_connection_def)
  with t' show ?thesis by fastforce
next
  case (Inr conn)
  obtain tcp peer where conn: "conn = (tcp, peer)" by (cases conn)
  let ?a = "\<lambda>m l. abs_connection (handler_at C m) l t"
  have acc: "listener_run C n (abs_connection h Accepting t) [(now t, [(TCP_CONNECTIONS_ACCEPTED, 1)])]
      (now t) (?a (now t) (Opening tcp))"
    using listener_moves.accept_ok [of "?a (now t) Accepting" tcp] n
    by (intro listener_run_single) (simp_all add: abs_connection_def)
  from run Inr conn show ?thesis
  proof (rule handle_accept_okE)
    fix m
    assume t': "lw_metrics (strm t') = lw_metrics (strm t) @
        [(TCP_CONNECTIONS_ACCEPTED, 1), (QUIC_DATA_STREAM_OPENING_ERRORS, 1)]"
      "lw_spawned (strm t') = lw_spawned (strm t)" "now t \<le> m" "m \<le> now t'"
    have "listener_run C (now t) (?a (now t) (Opening tcp)) [(m, [(QUIC_DATA_STREAM_OPENING_ERRORS, 1)])]
        m (?a m (Shutting_down tcp))"
      using listener_moves.open_error [of "?a m (Opening tcp)" tcp] t'(3)
      by (intro listener_run_single) (simp_all add: abs_connection_def)
    moreover have "listener_run C m (?a m (Shutting_down tcp)) [(now t', [])] (now t') (?a (now t') Accepting)"
      using listener_moves.shutdown [of "?a (now t') (Shutting_down tcp)" tcp] t'(4)
      by (intro listener_run_single) (simp_all add: abs_connection_def)
    moreover have "?a (now t') Accepting = abs_connection (handler_at C (now t')) Accepting t'"
      using t'(2) by (simp add: abs_connection_def)
    ultimately show ?thesis
      using listener_run_append [OF listener_run_append [OF acc]] t'(1) by fastforce
  next
    fix s
    assume t': "lw_metrics (strm t') = lw_metrics (strm t) @ [(TCP_CONNECTIONS_ACCEPTED, 1)]"
      "lw_spawned (strm t') = lw_spawned (strm t) @ [(tcp, s)]" "now t \<le> now t'"
    have "listener_run C (now t) (?a (now t) (Opening tcp)) [(now t', [])] (now t')
        (abs_connection (handler_at C (now t')) Accepting t')"
      using listener_moves.open_ok [of "?a (now t') (Opening tcp)" tcp] t'(2,3)
      by (intro listener_run_single) (simp_all add: abs_connection_def)
    with listener_run_append [OF acc] t'(1) show ?thesis by fastforce
  qed
qed

lemma listener_step_run:
  assumes run: "listener_step env bias C n t = Some (Fin x t')" and t: "in_time t"
  shows "\<exists>evs. listener_run C (now t) (abs_connection h Accepting t) evs (now t')
      (abs_connection (handler_at C (now t'))
        (case x of Continue _ \<Rightarrow> Accepting | Break _ \<Rightarrow> Stopped) t') \<and>
    lw_metrics (strm t') = lw_metrics (strm t) @ concat (map snd evs)"
proof -
  from run obtain sel t1 where
    sel: "select_cancelled (bias n) C (await (on_net (tcp_accept env))) t = Some (Fin sel t1)"
    and rest: "(case sel of
       None \<Rightarrow> ret (Break ())
     | Some accept_result \<Rightarrow>
         bind_async (handle_accept env accept_result) (\<lambda>_. ret (Continue (Suc n)))) t1 = Some (Fin x t')"
    unfolding listener_step_def by (rule bind_async_FinE)
  have t1: "now t \<le> now t1" using timely_FinD [OF timely_select [OF timely_await] t sel] by simp
  have frame: "lw_metrics (strm t1) = lw_metrics (strm t)" "lw_spawned (strm t1) = lw_spawned (strm t)"
    using select_on_net [OF sel] by simp_all
  show ?thesis
  proof (cases sel)
    case None
    with rest have x: "x = Break ()" "t' = t1" by (auto simp: ret_def)
    from select_None_cancelled [OF timely_await t sel [unfolded None]] obtain D where
      "C = Some D" "D \<le> now t1" by blast
    then have "token_cancelled (abs_connection (handler_at C (now t1)) Accepting t)"
      by (simp add: token_cancelled_def handler_at_def abs_connection_def)
    then have "listener_run C (now t) (abs_connection h Accepting t) [(now t1, [])] (now t1)
        (abs_connection (handler_at C (now t1)) Stopped t1)"
      using listener_moves.stop [of "abs_connection (handler_at C (now t1)) Accepting t"] t1 frame(2)
      by (intro listener_run_single) (simp_all add: abs_connection_def)
    with x frame(1) show ?thesis by fastforce
  next
    case (Some r)
    with rest obtain u where u: "handle_accept env r t1 = Some (Fin u t')" "x = Continue (Suc n)"
      by (auto simp: ret_def elim!: bind_async_FinE)
    have "abs_connection h Accepting t1 = abs_connection h Accepting t"
      using frame(2) by (simp add: abs_connection_def)
    with handle_accept_run [OF u(1) t1, of C h] u(2) frame(1) show ?thesis by simp
  qed
qed

lemma listener_loop_run:
  fixes t t' :: "('q, 'tcp, 'r, 'w) listener_world task"
  assumes run: "loop_async (listener_step env bias C) n t = Some (Fin u t')" and t: "in_time t"
  shows "\<exists>evs. listener_run C (now t) (abs_connection (handler_at C (now t)) Accepting t) evs (now t')
      (abs_connection (handler_at C (now t')) Stopped t') \<and>
    lw_metrics (strm t') = lw_metrics (strm t) @ concat (map snd evs)"
proof -
  define R where "R l t' \<longleftrightarrow> in_time t' \<and>
    (\<exists>evs. listener_run C (now t) (abs_connection (handler_at C (now t)) Accepting t) evs (now t')
        (abs_connection (handler_at C (now t')) l t') \<and>
      lw_metrics (strm t') = lw_metrics (strm t) @ concat (map snd evs))"
    for l and t' :: "('q, 'tcp, 'r, 'w) listener_world task"
  have step: "R (case x of Continue _ \<Rightarrow> Accepting | Break _ \<Rightarrow> Stopped) t2"
    if R: "R Accepting t1" and st: "listener_step env bias C n1 t1 = Some (Fin x t2)" for t1 n1 x t2
  proof -
    from R obtain evs where evs:
      "listener_run C (now t) (abs_connection (handler_at C (now t)) Accepting t) evs (now t1)
        (abs_connection (handler_at C (now t1)) Accepting t1)"
      "lw_metrics (strm t1) = lw_metrics (strm t) @ concat (map snd evs)" and "in_time t1"
      unfolding R_def by blast
    moreover from listener_step_run [OF st \<open>in_time t1\<close>] obtain evs' where
      "listener_run C (now t1) (abs_connection (handler_at C (now t1)) Accepting t1) evs' (now t2)
        (abs_connection (handler_at C (now t2)) (case x of Continue _ \<Rightarrow> Accepting | Break _ \<Rightarrow> Stopped) t2)"
      "lw_metrics (strm t2) = lw_metrics (strm t1) @ concat (map snd evs')" by blast
    moreover have "in_time t2" using timely_FinD [OF timely_listener_step \<open>in_time t1\<close> st] by simp
    ultimately show ?thesis
      unfolding R_def by (intro conjI exI [of _ "evs @ evs'"]) (auto intro: listener_run_append)
  qed
  have "R Accepting t"
    unfolding R_def using t by (intro conjI exI [of _ "[]"]) (auto intro: listener_run.refl)
  with run have "case Fin u t' of Fin _ t' \<Rightarrow> R Stopped t' | Cut _ \<Rightarrow> True"
    by (rule loop_async_rule [where I = "\<lambda>_. R Accepting"]) (auto dest: step)
  then show ?thesis by (simp add: R_def)
qed

lemma listener_run_of_task:
  assumes run: "handle_tcp_listener env bias C t = Some (Fin r t')" and t: "in_time t"
  shows "\<exists>evs. listener_run C (now t) (abs_connection (handler_at C (now t)) Starting t) evs (now t')
      (abs_connection (handler_at C (now t')) Stopped t') \<and>
    lw_metrics (strm t') = lw_metrics (strm t) @ concat (map snd evs)"
proof (cases "local_addr env")
  case (Inl e)
  with run have "t' = t" by (simp add: handle_tcp_listener_def ret_def)
  moreover have "listener_run C (now t) (abs_connection (handler_at C (now t)) Starting t) [(now t, [])]
      (now t) (abs_connection (handler_at C (now t)) Stopped t)"
    using listener_moves.local_addr_error [of "abs_connection (handler_at C (now t)) Starting t"]
    by (intro listener_run_single) (simp_all add: abs_connection_def)
  ultimately show ?thesis by fastforce
next
  case (Inr a)
  with run obtain u where "loop_async (listener_step env bias C) 0 t = Some (Fin u t')"
    by (auto simp: handle_tcp_listener_def elim: map_async_FinE)
  from listener_loop_run [OF this t] obtain evs where evs:
    "listener_run C (now t) (abs_connection (handler_at C (now t)) Accepting t) evs (now t')
      (abs_connection (handler_at C (now t')) Stopped t')"
    "lw_metrics (strm t') = lw_metrics (strm t) @ concat (map snd evs)" by blast
  have "listener_run C (now t) (abs_connection (handler_at C (now t)) Starting t) [(now t, [])]
      (now t) (abs_connection (handler_at C (now t)) Accepting t)"
    using listener_moves.local_addr_ok [of "abs_connection (handler_at C (now t)) Starting t"]
    by (intro listener_run_single) (simp_all add: abs_connection_def)
  from listener_run_append [OF this evs(1)] evs(2) show ?thesis by fastforce
qed

text \<open>The forwarding task: what it adds to the counters is the label of one of its moves.\<close>

lemma forward_task_moves:
  assumes "deadline t = None"
    and "cp QUIC_STREAM_READ_BUFFER_SIZE QUIC_STREAM_READ_BUFFER_SIZE (fst (strm t)) =
      (Ready_in d result, s)"
    and c: "tasks c = xs @ tcp # ys"
  shows "\<exists>t' es. forward_task cp t = Some (Fin () t') \<and>
    snd (strm t') = snd (strm t) @ es \<and> task_moves c es (c\<lparr>tasks := xs @ ys\<rparr>)"
proof -
  from forward_task_run [of t cp, OF assms(1,2)] obtain t' where t': "forward_task cp t = Some (Fin () t')"
    "snd (strm t') = (case result of
      Inr (bytes_a, bytes_b) \<Rightarrow> snd (strm t) @ [(BYTES_TRANSMITTED_A, bytes_a),
        (BYTES_TRANSMITTED_B, bytes_b), (TCP_QUIC_CONNECTIONS_CLOSED_GRACEFUL, 1)]
    | Inl err \<Rightarrow> snd (strm t) @ [(if contains (io_text err) ''error 0''
        then TCP_QUIC_CONNECTIONS_CLOSED_GRACEFUL else TCP_QUIC_CONNECTIONS_CLOSED_ERROR, 1)])"
    by blast
  show ?thesis
  proof (cases result)
    case (Inl err)
    with t' show ?thesis
      using task_moves.closed [of c xs tcp ys, OF c] task_moves.failed [of c xs tcp ys, OF c]
      by (cases "contains (io_text err) ''error 0''") auto
  next
    case (Inr bytes)
    with t' show ?thesis
      using task_moves.completed [of c xs tcp ys, OF c] by (cases bytes) auto
  qed
qed

subsection \<open>Properties\<close>

text \<open>
  C7: in every state the server can reach, with any number of clients whose tasks run in any
  order, the counters account for every TCP connection: the accepted ones are those whose QUIC
  stream could not be opened, those that were closed, gracefully or with an error, and those
  that are still being opened or forwarded.
\<close>

theorem counters_account_for_all_connections:
  assumes "server_reachable s"
  shows "counted TCP_CONNECTIONS_ACCEPTED (metrics s) =
    counted QUIC_DATA_STREAM_OPENING_ERRORS (metrics s) +
    counted TCP_QUIC_CONNECTIONS_CLOSED_GRACEFUL (metrics s) +
    counted TCP_QUIC_CONNECTIONS_CLOSED_ERROR (metrics s) +
    (\<Sum>c \<leftarrow> connections s. word_of_nat (length (tasks c) + opening_streams (listener c)))"
proof -
  have "map pending (connections s) =
      map (\<lambda>c. word_of_nat (length (tasks c) + opening_streams (listener c))) (connections s)"
    by (simp add: pending_def)
  with server_reachable_ok [OF assms] show ?thesis
    by (simp add: server_ok_def balance_def algebra_simps)
qed

theorem counters_account_for_all_connections_witness:
  "counted TCP_CONNECTIONS_ACCEPTED [(TCP_CONNECTIONS_ACCEPTED, 1)] =
    (\<Sum>c \<leftarrow> [lingering]. word_of_nat (length (tasks c) + opening_streams (listener c)))"
  using counters_account_for_all_connections [OF lingering_reachable] by simp

text \<open>
  C20: a handler returns only when its listener has stopped, and from then on its connection
  accepts nothing any more: its later steps only end forwarding tasks.
\<close>

theorem finished_connection_accepts_nothing:
  assumes "server_reachable s" "c \<in> set (connections s)" "handler c = Finished"
  shows "listener c = Stopped \<and>
    (\<forall>es c'. connection_moves c es c' \<longrightarrow>
       handler c' = Finished \<and> listener c' = Stopped \<and> \<not> accept_event es \<and>
       length (tasks c') < length (tasks c))"
proof -
  from server_reachable_ok [OF assms(1)] assms(2,3) have "listener c = Stopped"
    by (auto simp: server_ok_def connection_ok_def list_all_iff)
  with assms(3) show ?thesis
    by (auto elim!: moves_elims simp: accept_event_def)
qed

theorem finished_connection_accepts_nothing_witness:
  "handler lingering = Finished \<and> tasks lingering \<noteq> [] \<and> listener lingering = Stopped"
  using finished_connection_accepts_nothing [OF lingering_reachable, of lingering]
  by (simp add: lingering_def)

text \<open>
  No interleaving gets stuck: from every reachable state, every connection can come to its
  end, handler returned, listener stopped and all forwarding tasks ended, without accepting
  another connection.
\<close>

lemma every_connection_can_end:
  assumes "server_reachable s" "c \<in> set (connections s)"
  shows "\<exists>ess c'. connection_run c ess c' \<and> filter accept_event ess = [] \<and>
    handler c' = Finished \<and> listener c' = Stopped \<and> tasks c' = []"
proof -
  from server_reachable_ok [OF assms(1)] assms(2) have "connection_ok c"
    by (auto simp: server_ok_def list_all_iff)
  from connection_can_end [OF this] show ?thesis by blast
qed

text \<open>
  C8: the listener task of the sequential model implements the step relation: every run of it that
  returns, with \<open>Ok\<close> or with the error of \<open>local_addr()\<close>, is a timed run of the moves of the
  listener, from its start to its end, in which the token is cancelled at exactly the instant at
  which the task is told so, with the same forwarding tasks and the same increments of the
  counters, in the same order; and the timed run is one of the connection, with the end of the
  control loop in between.  The error is returned at once, \<open>Ok\<close> only after the cancellation.
\<close>

theorem listener_refines_moves:
  assumes "handle_tcp_listener env bias cancelled t = Some (Fin r t')" "deadline t = None"
  shows "\<exists>evs ess.
    listener_run cancelled (now t) (abs_connection (handler_at cancelled (now t)) Starting t) evs
      (now t') (abs_connection (handler_at cancelled (now t')) Stopped t') \<and>
    connection_run (abs_connection (handler_at cancelled (now t)) Starting t) ess
      (abs_connection (handler_at cancelled (now t')) Stopped t') \<and>
    lw_metrics (strm t') = lw_metrics (strm t) @ concat (map snd evs) \<and>
    concat ess = concat (map snd evs) \<and>
    (case r of
       Inl e \<Rightarrow> t' = t \<and> (\<exists>x. local_addr env = Inl x \<and> e = FromIo x)
     | Inr _ \<Rightarrow> \<exists>C. cancelled = Some C \<and> C \<le> now t')"
proof -
  have t: "in_time t" using assms(2) by (simp add: in_time_def)
  from listener_run_of_task [OF assms(1) t] obtain evs where evs:
    "listener_run cancelled (now t) (abs_connection (handler_at cancelled (now t)) Starting t) evs
      (now t') (abs_connection (handler_at cancelled (now t')) Stopped t')"
    "lw_metrics (strm t') = lw_metrics (strm t) @ concat (map snd evs)" by blast
  have "handler (abs_connection (handler_at cancelled (now t)) Starting t) = handler_at cancelled (now t)"
    by (simp add: abs_connection_def)
  from listener_run_connection [OF evs(1) this] obtain ess where
    "connection_run (abs_connection (handler_at cancelled (now t)) Starting t) ess
      (abs_connection (handler_at cancelled (now t')) Stopped t')"
    "concat ess = concat (map snd evs)" by blast
  moreover have "case r of
       Inl e \<Rightarrow> t' = t \<and> (\<exists>x. local_addr env = Inl x \<and> e = FromIo x)
     | Inr _ \<Rightarrow> \<exists>C. cancelled = Some C \<and> C \<le> now t'"
    using assms(1) listener_stops_after_cancellation [OF _ t]
    by (cases r) (auto simp: handle_tcp_listener_def ret_def elim!: map_async_FinE split: sum.splits)
  ultimately show ?thesis using evs by blast
qed

theorem listener_refines_moves_witness:
  "\<exists>evs n. listener_run (Some 9) 0 \<lparr>handler = Serving, listener = Starting, tasks = []\<rparr> evs n
      \<lparr>handler = Token_cancelled, listener = Stopped, tasks = [5 :: nat]\<rparr> \<and> 9 \<le> n \<and>
    concat (map snd evs) = [(TCP_CONNECTIONS_ACCEPTED, 1), (TCP_CONNECTIONS_ACCEPTED, 1),
      (QUIC_DATA_STREAM_OPENING_ERRORS, 1), (TCP_CONNECTIONS_FAILED_ACCEPTING, 1)]"
proof -
  let ?t = "listed_task [Inr 5, Inr 6, Inl (IoError OtherKind ''e'')]"
  obtain t' where run: "handle_tcp_listener listed_env (\<lambda>_. True) (Some 9) ?t = Some (Fin (Inr ()) t')"
    "lw_metrics (strm t') = [(TCP_CONNECTIONS_ACCEPTED, 1), (TCP_CONNECTIONS_ACCEPTED, 1),
      (QUIC_DATA_STREAM_OPENING_ERRORS, 1), (TCP_CONNECTIONS_FAILED_ACCEPTING, 1)]"
    "map fst (lw_spawned (strm t')) = [5]"
    using listed_run [OF order_refl] by (elim exE conjE) (rule that)
  have t: "deadline ?t = None" "now ?t = 0" "lw_metrics (strm ?t) = []" "lw_spawned (strm ?t) = []"
    by (simp_all add: listed_task_def)
  from listener_refines_moves [OF run(1) t(1)] obtain evs where evs:
    "listener_run (Some 9) (now ?t) (abs_connection (handler_at (Some 9) (now ?t)) Starting ?t) evs
      (now t') (abs_connection (handler_at (Some 9) (now t')) Stopped t')"
    "lw_metrics (strm t') = lw_metrics (strm ?t) @ concat (map snd evs)" "9 \<le> now t'"
    by auto
  have "abs_connection (handler_at (Some 9) (now ?t)) Starting ?t =
      \<lparr>handler = Serving, listener = Starting, tasks = []\<rparr>"
    "abs_connection (handler_at (Some 9) (now t')) Stopped t' =
      \<lparr>handler = Token_cancelled, listener = Stopped, tasks = [5]\<rparr>"
    using run(3) t evs(3) by (simp_all add: abs_connection_def handler_at_def)
  with evs t run(2) show ?thesis by (intro exI [of _ evs] exI [of _ "now t'"]) simp
qed

end
