(* ===== verification/Client_System.thy ===== *)
theory Client_System
  imports Client_Handler
begin

section \<open>Tasks of the client in parallel (\<open>src/client/server_handler.rs\<close>)\<close>

text \<open>
  After the handshake the client runs its accept loop, the keepalive task and one forwarding
  task per accepted stream in parallel.  As for the server, the tasks are a step relation, with
  one step from one \<open>await\<close> to the next, labelled with the stream a step accepts and with the
  increments of the counters it makes.  The lemmas show that every run of the handler and of a
  forwarding task, as sequential computations, is a run of this relation.
\<close>

subsection \<open>Model\<close>

text \<open>The handler: in \<open>conn.accept_bi()\<close>, or behind the loop.\<close>

datatype accept_phase = Accepting_streams | Loop_ended

text \<open>The keepalive task: in \<open>tick()\<close>, in \<open>write_all\<close>, in \<open>flush\<close>, in \<open>read_until\<close>, returned.\<close>

datatype keepalive_phase = Ticking | Sending_ping | Flushing_ping | Awaiting_pong | Keepalive_ended

record 's client_side =
  accept_loop_at :: accept_phase
  keepalive_at :: keepalive_phase
  forwarding :: "'s list"

definition new_client :: "'s client_side" where
  "new_client = \<lparr>accept_loop_at = Accepting_streams, keepalive_at = Ticking, forwarding = []\<rparr>"

text \<open>
  \<open>accept_bi\<close> may fail at any time, which ends the accept loop; when it does depends on the
  connection.  The keepalive task ends, at the write, the flush or the answer, without counting,
  for its loop never returns an error; nothing else depends on it.  A forwarding task makes one
  step, for the connection to the destination and the copy change nothing else before they end.
\<close>

inductive client_moves ::
  "'s client_side \<Rightarrow> 's option \<Rightarrow> client_counter increments \<Rightarrow> 's client_side \<Rightarrow> bool" where
  accept: "accept_loop_at c = Accepting_streams \<Longrightarrow>
     client_moves c (Some s) [(CONNECTIONS_ACCEPTED, 1)] (c\<lparr>forwarding := forwarding c @ [s]\<rparr>)"
| connection_ends: "accept_loop_at c = Accepting_streams \<Longrightarrow>
     client_moves c None [(CLIENT_CONNECTIONS_GRACEFULLY_CLOSED_TOTAL, 1)]
       (c\<lparr>accept_loop_at := Loop_ended\<rparr>)"
| tick: "keepalive_at c = Ticking \<Longrightarrow> client_moves c None [] (c\<lparr>keepalive_at := Sending_ping\<rparr>)"
| ping_written: "keepalive_at c = Sending_ping \<Longrightarrow>
     client_moves c None [] (c\<lparr>keepalive_at := Flushing_ping\<rparr>)"
| ping_flushed: "keepalive_at c = Flushing_ping \<Longrightarrow>
     client_moves c None [] (c\<lparr>keepalive_at := Awaiting_pong\<rparr>)"
| pong: "keepalive_at c = Awaiting_pong \<Longrightarrow> client_moves c None [] (c\<lparr>keepalive_at := Ticking\<rparr>)"
| keepalive_ends: "keepalive_at c \<in> {Sending_ping, Flushing_ping, Awaiting_pong} \<Longrightarrow>
     client_moves c None [] (c\<lparr>keepalive_at := Keepalive_ended\<rparr>)"
| forwarded: "forwarding c = xs @ s # ys \<Longrightarrow>
     client_moves c None [(CLIENT_BYTES_TRANSMITTED_A, a), (CLIENT_BYTES_TRANSMITTED_B, b)]
       (c\<lparr>forwarding := xs @ ys\<rparr>)"
| forward_closed: "forwarding c = xs @ s # ys \<Longrightarrow>
     client_moves c None [] (c\<lparr>forwarding := xs @ ys\<rparr>)"
| forward_failed: "forwarding c = xs @ s # ys \<Longrightarrow>
     client_moves c None [(TCP_FORWARDING_ERRORS, 1)] (c\<lparr>forwarding := xs @ ys\<rparr>)"

text \<open>A run with the streams it accepts and the increments it makes.\<close>

inductive client_run ::
  "'s client_side \<Rightarrow> 's list \<Rightarrow> client_counter increments \<Rightarrow> 's client_side \<Rightarrow> bool" where
  refl: "client_run c [] [] c"
| step: "client_moves c a es c' \<Longrightarrow> client_run c' as es' c'' \<Longrightarrow>
     client_run c (case a of None \<Rightarrow> as | Some s \<Rightarrow> s # as) (es @ es') c''"

inductive_cases client_movesE: "client_moves c a es c'"

lemma client_run_append:
  "client_run c as es c' \<Longrightarrow> client_run c' as' es' c'' \<Longrightarrow> client_run c (as @ as') (es @ es') c''"
proof (induction rule: client_run.induct)
  case (step c a es c1 as es1 c')
  from client_run.step [OF step.hyps(1) step.IH [OF step.prems]] show ?case
    by (cases a) simp_all
qed simp

lemma client_run_single:
  "client_moves c a es c' \<Longrightarrow> client_run c (case a of None \<Rightarrow> [] | Some s \<Rightarrow> [s]) es c'"
  using client_run.step [OF _ client_run.refl] by (cases a) fastforce+

subsection \<open>The handler of the sequential model\<close>

text \<open>The streams for which a list of tasks contains a forwarding task.\<close>

fun forwarded_streams :: "('r, 'w) client_task list \<Rightarrow> ('r, 'w) BiStream list" where
  "forwarded_streams [] = []"
| "forwarded_streams (Keepalive_task s # ts) = forwarded_streams ts"
| "forwarded_streams (Forward_task s # ts) = s # forwarded_streams ts"

lemma forwarded_streams_append [simp]:
  "forwarded_streams (ts @ ts') = forwarded_streams ts @ forwarded_streams ts'"
  by (induction ts rule: forwarded_streams.induct) simp_all

lemma forwarded_streams_map [simp]: "forwarded_streams (map Forward_task fs) = fs"
  by (induction fs) simp_all

definition abs_client ::
  "accept_phase \<Rightarrow> keepalive_phase \<Rightarrow> ('q, 'r, 'w) client_world \<Rightarrow> ('r, 'w) BiStream client_side" where
  "abs_client p k w =
     \<lparr>accept_loop_at = p, keepalive_at = k, forwarding = forwarded_streams (cw_tasks w)\<rparr>"

definition accept_run ::
  "keepalive_phase \<Rightarrow> ('q, 'r, 'w) client_world \<Rightarrow> ('q, 'r, 'w) client_world \<Rightarrow> bool" where
  "accept_run k w w' \<longleftrightarrow>
     (\<exists>fs es. client_run (abs_client Accepting_streams k w) fs es (abs_client Accepting_streams k w') \<and>
        cw_tasks w' = cw_tasks w @ map Forward_task fs \<and> cw_metrics w' = cw_metrics w @ es)"

lemma accept_run_same:
  "cw_metrics w' = cw_metrics w \<Longrightarrow> cw_tasks w' = cw_tasks w \<Longrightarrow> accept_run k w w'"
  unfolding accept_run_def
  by (intro exI [of _ "[]"]) (simp add: abs_client_def client_run.refl)

lemma accept_run_trans:
  assumes "accept_run k w1 w2" "accept_run k w2 w3"
  shows "accept_run k w1 w3"
proof -
  from assms obtain fs es fs' es' where
    "client_run (abs_client Accepting_streams k w1) fs es (abs_client Accepting_streams k w2)"
    "client_run (abs_client Accepting_streams k w2) fs' es' (abs_client Accepting_streams k w3)"
    "cw_tasks w2 = cw_tasks w1 @ map Forward_task fs" "cw_metrics w2 = cw_metrics w1 @ es"
    "cw_tasks w3 = cw_tasks w2 @ map Forward_task fs'" "cw_metrics w3 = cw_metrics w2 @ es'"
    unfolding accept_run_def by blast
  then show ?thesis
    unfolding accept_run_def
    by (intro exI [of _ "fs @ fs'"] exI [of _ "es @ es'"]) (auto intro: client_run_append)
qed

lemma accept_run_accept:
  "accept_run k w (client_spawn (Forward_task s) (client_count CONNECTIONS_ACCEPTED w))"
proof -
  let ?c = "abs_client Accepting_streams k w"
  have "client_run ?c [s] [(CONNECTIONS_ACCEPTED, 1)] (?c\<lparr>forwarding := forwarding ?c @ [s]\<rparr>)"
    using client_run_single [OF client_moves.accept [of ?c s]] by (simp add: abs_client_def)
  then show ?thesis
    unfolding accept_run_def
    by (intro exI [of _ "[s]"] exI [of _ "[(CONNECTIONS_ACCEPTED, 1)]"])
      (simp add: abs_client_def client_spawn_def client_count_def inc_def)
qed

lemma accept_loop_runs:
  assumes "loop_async (accept_streams_step env) u t = Some (Fin v t')"
  shows "accept_run k (strm t) (strm t')"
  using assms
  by (rule accept_streams_loop_rel [where R = "accept_run k"])
    (fact accept_run_same accept_run_trans accept_run_accept)+

text \<open>The forwarding task: what it adds to the counters is the label of one of its moves.\<close>

lemma client_forward_task_moves:
  assumes t: "deadline t = None" and conn: "tcp_connect dest = Ready_in d connected"
    and cp: "\<And>tcp. connected = Inr tcp \<Longrightarrow>
      \<exists>d' result s'. cp QUIC_STREAM_READ_BUFFER_SIZE QUIC_STREAM_READ_BUFFER_SIZE (tcp, q) =
        (Ready_in d' result, s')"
    and c: "forwarding c = xs @ s # ys"
  shows "\<exists>t' es. client_forward_task tcp_connect cp dest q t = Some (Fin () t') \<and>
    strm t' = strm t @ es \<and> client_moves c None es (c\<lparr>forwarding := xs @ ys\<rparr>)"
proof (cases connected)
  case (Inl e)
  with client_forward_task_no_connection [OF t, of tcp_connect dest d e] conn c show ?thesis
    by (metis client_moves.forward_failed)
next
  case (Inr tcp)
  from cp [OF Inr] obtain d' result s' where
    copy: "cp QUIC_STREAM_READ_BUFFER_SIZE QUIC_STREAM_READ_BUFFER_SIZE (tcp, q) = (Ready_in d' result, s')"
    by blast
  from client_forward_task_run [of t tcp_connect dest d tcp cp q, OF t conn [unfolded Inr] copy]
  obtain t' where
    t': "client_forward_task tcp_connect cp dest q t = Some (Fin () t')"
    "strm t' = strm t @ (case result of
      Inr (bytes_a, bytes_b) \<Rightarrow> [(CLIENT_BYTES_TRANSMITTED_A, bytes_a), (CLIENT_BYTES_TRANSMITTED_B, bytes_b)]
    | Inl err \<Rightarrow> if contains (io_text err) ''error 0'' then [] else [(TCP_FORWARDING_ERRORS, 1)])"
    by blast
  let ?es = "case result of
      Inr (bytes_a, bytes_b) \<Rightarrow> [(CLIENT_BYTES_TRANSMITTED_A, bytes_a), (CLIENT_BYTES_TRANSMITTED_B, bytes_b)]
    | Inl err \<Rightarrow> if contains (io_text err) ''error 0'' then [] else [(TCP_FORWARDING_ERRORS, 1)]"
  have "client_moves c None ?es (c\<lparr>forwarding := xs @ ys\<rparr>)"
    using c by (auto split: sum.splits intro: client_moves.intros)
  with t' show ?thesis by blast
qed

subsection \<open>Properties\<close>

text \<open>
  C9: the client's handler implements the step relation: every run of it that succeeds is,
  after the handshake, a run of the relation from the accept loop to its end, which accepts
  exactly the streams the handler spawned forwarding tasks for, in this order, and makes the
  same increments of the counters, in this order.
\<close>

theorem client_handler_refines_moves:
  assumes "handle_quic_server_connection env config t = Some (Fin (Inr ()) t')"
  shows "\<exists>s fs es. client_run (abs_client Accepting_streams Ticking (strm t)) fs es
      (abs_client Loop_ended Ticking (strm t')) \<and>
    cw_tasks (strm t') = cw_tasks (strm t) @ Keepalive_task s # map Forward_task fs \<and>
    cw_metrics (strm t') = cw_metrics (strm t) @ (CLIENT_CONNECTIONS_OPENED_TOTAL, 1) # es"
  using assms
proof (cases rule: client_handler_inv)
  case (served d send recv q u1 u2 t2 w t3)
  from accept_loop_runs [OF served(8), of Ticking] obtain fs es where
    run: "client_run (abs_client Accepting_streams Ticking (strm t2)) fs es
      (abs_client Accepting_streams Ticking (strm t3))"
    "cw_tasks (strm t3) = cw_tasks (strm t2) @ map Forward_task fs"
    "cw_metrics (strm t3) = cw_metrics (strm t2) @ es"
    unfolding accept_run_def by blast
  have start: "abs_client Accepting_streams Ticking (strm t2) = abs_client Accepting_streams Ticking (strm t)"
    using served(5,7) by (simp add: abs_client_def client_spawn_def)
  let ?c = "abs_client Accepting_streams Ticking (strm t3)"
  have "?c\<lparr>accept_loop_at := Loop_ended\<rparr> = abs_client Loop_ended Ticking (strm t')"
    using served(9) by (simp add: abs_client_def client_count_def)
  then have "client_run ?c [] [(CLIENT_CONNECTIONS_GRACEFULLY_CLOSED_TOTAL, 1)] (abs_client Loop_ended Ticking (strm t'))"
    using client_run_single [OF client_moves.connection_ends [of ?c]] by (simp add: abs_client_def)
  then have "client_run (abs_client Accepting_streams Ticking (strm t)) (fs @ [])
      (es @ [(CLIENT_CONNECTIONS_GRACEFULLY_CLOSED_TOTAL, 1)]) (abs_client Loop_ended Ticking (strm t'))"
    using client_run_append run(1) start by metis
  moreover have "cw_tasks (strm t') = cw_tasks (strm t) @ Keepalive_task (strm u2) # map Forward_task fs"
    "cw_metrics (strm t') = cw_metrics (strm t) @ (CLIENT_CONNECTIONS_OPENED_TOTAL, 1) #
      es @ [(CLIENT_CONNECTIONS_GRACEFULLY_CLOSED_TOTAL, 1)]"
    using run(2,3) served(5-7,9) by (simp_all add: client_spawn_def client_count_def inc_def)
  ultimately show ?thesis
    by (intro exI [of _ "strm u2"] exI [of _ fs]
        exI [of _ "es @ [(CLIENT_CONNECTIONS_GRACEFULLY_CLOSED_TOTAL, 1)]"]) simp
qed simp

theorem client_handler_refines_moves_witness:
  "\<exists>t' fs es. handle_quic_server_connection stream_list_env sample_client_config
      (stream_list_task [[request_text sample_challenge_text, ''HAPPY'' @ [newline]], [''GET /'']]) =
      Some (Fin (Inr ()) t') \<and>
    client_run \<lparr>accept_loop_at = Accepting_streams, keepalive_at = Ticking, forwarding = []\<rparr> fs es
      (abs_client Loop_ended Ticking (strm t'))"
proof -
  let ?t = "stream_list_task [[request_text sample_challenge_text, ''HAPPY'' @ [newline]], [''GET /'']]"
  obtain t' where run: "handle_quic_server_connection stream_list_env sample_client_config ?t =
      Some (Fin (Inr ()) t')"
    using sample_client_run by blast
  have "abs_client Accepting_streams Ticking (strm ?t) =
      \<lparr>accept_loop_at = Accepting_streams, keepalive_at = Ticking, forwarding = []\<rparr>"
    by (simp add: abs_client_def stream_list_task_def)
  with client_handler_refines_moves [OF run] run show ?thesis by metis
qed

end
