(* ===== verification/Tunnel_System.thy ===== *)
theory Tunnel_System
  imports Connection_System Client_System "HOL-Library.Multiset"
begin

section \<open>Both ends of a tunnel (\<open>src/server/tcp_listener.rs\<close>, \<open>src/client/server_handler.rs\<close>)\<close>

text \<open>
  A configured client and its server: the tasks of both ends run in parallel and meet in the
  QUIC streams.  What the listener opens is delivered to the accept loop of the client, each
  stream at most once, after any delay, or never when the connection ends before.  A stream is
  named by the TCP connection it was opened for.

  The lemmas show that the ends agree: which streams exist and what the counters of the two
  processes say about each other, and that a tunnel can always be taken down completely.  The
  last part joins the two programs as sequential computations: every stream the listener opens
  gets one forwarding task on each side.
\<close>

subsection \<open>Model\<close>

record 'tcp tunnel =
  at_server :: "'tcp connection"
  in_flight :: "'tcp list"
  at_client :: "'tcp client_side"
  lost :: bool

definition new_tunnel :: "'tcp tunnel" where
  "new_tunnel = \<lparr>at_server = new_connection, in_flight = [], at_client = new_client, lost = False\<rparr>"

text \<open>
  What is used of quinn: after the handler has closed the connection, \<open>open_bi\<close> does not succeed
  any more, and \<open>accept_bi\<close> fails only when the connection was closed by the server or is lost.
\<close>

definition closed_by_server :: "'tcp tunnel \<Rightarrow> bool" where
  "closed_by_server t \<longleftrightarrow> handler (at_server t) = Conn_closed \<or> handler (at_server t) = Finished"

text \<open>A step of the listener with which \<open>open_bi\<close> succeeds.\<close>

definition opens_stream :: "'tcp connection \<Rightarrow> 'tcp connection \<Rightarrow> bool" where
  "opens_stream c c' \<longleftrightarrow> (\<exists>tcp. listener c = Opening tcp) \<and> listener c' = Accepting"

datatype 'tcp stream_event = Opened 'tcp | Accepted 'tcp

text \<open>
  A step with the increments of the server's and of the client's counters and the stream event
  it makes.  A success of \<open>open_bi\<close> is a step of the listener that also puts the stream on its way;
  the client accepts any of the streams on their way.
\<close>

inductive tunnel_moves ::
  "'tcp tunnel \<Rightarrow> server_counter increments \<Rightarrow> client_counter increments \<Rightarrow>
   'tcp stream_event option \<Rightarrow> 'tcp tunnel \<Rightarrow> bool" where
  opens: "listener_moves (at_server t) es c \<Longrightarrow> opens_stream (at_server t) c \<Longrightarrow>
     listener (at_server t) = Opening tcp \<Longrightarrow> \<not> closed_by_server t \<Longrightarrow>
     tunnel_moves t es [] (Some (Opened tcp))
       (t\<lparr>at_server := c, in_flight := in_flight t @ [tcp]\<rparr>)"
| server: "connection_moves (at_server t) es c \<Longrightarrow> \<not> opens_stream (at_server t) c \<Longrightarrow>
     tunnel_moves t es [] None (t\<lparr>at_server := c\<rparr>)"
| accepts: "in_flight t = xs @ tcp # ys \<Longrightarrow> client_moves (at_client t) (Some tcp) es c \<Longrightarrow>
     tunnel_moves t [] es (Some (Accepted tcp)) (t\<lparr>in_flight := xs @ ys, at_client := c\<rparr>)"
| client: "client_moves (at_client t) None es c \<Longrightarrow>
     (accept_loop_at c = accept_loop_at (at_client t) \<or> closed_by_server t \<or> lost t) \<Longrightarrow>
     tunnel_moves t [] es None (t\<lparr>at_client := c\<rparr>)"
| loses: "\<not> lost t \<Longrightarrow> tunnel_moves t [] [] None (t\<lparr>lost := True\<rparr>)"

text \<open>A run with its number of steps, its increments and its stream events.\<close>

inductive tunnel_run ::
  "'tcp tunnel \<Rightarrow> nat \<Rightarrow> server_counter increments \<Rightarrow> client_counter increments \<Rightarrow>
   'tcp stream_event list \<Rightarrow> 'tcp tunnel \<Rightarrow> bool" where
  refl: "tunnel_run t 0 [] [] [] t"
| step: "tunnel_run t n ses ces evs t' \<Longrightarrow> tunnel_moves t' ses' ces' ev t'' \<Longrightarrow>
     tunnel_run t (Suc n) (ses @ ses') (ces @ ces')
       (evs @ (case ev of None \<Rightarrow> [] | Some e \<Rightarrow> [e])) t''"

inductive_cases tunnel_movesE: "tunnel_moves t ses ces ev t'"

fun opened_streams :: "'tcp stream_event list \<Rightarrow> 'tcp list" where
  "opened_streams [] = []"
| "opened_streams (Opened tcp # evs) = tcp # opened_streams evs"
| "opened_streams (Accepted tcp # evs) = opened_streams evs"

fun accepted_streams :: "'tcp stream_event list \<Rightarrow> 'tcp list" where
  "accepted_streams [] = []"
| "accepted_streams (Opened tcp # evs) = accepted_streams evs"
| "accepted_streams (Accepted tcp # evs) = tcp # accepted_streams evs"

lemma stream_events_append [simp]:
  "opened_streams (evs @ evs') = opened_streams evs @ opened_streams evs'"
  "accepted_streams (evs @ evs') = accepted_streams evs @ accepted_streams evs'"
  by (induction evs rule: opened_streams.induct) simp_all

subsection \<open>Streams and counters\<close>

text \<open>What the success of \<open>open_bi\<close> does.\<close>

lemma opens_stream_listener:
  assumes "listener_moves c es c'" "opens_stream c c'" "listener c = Opening tcp"
  shows "es = [] \<and> c' = c\<lparr>listener := Accepting, tasks := tasks c @ [tcp]\<rparr>"
  using assms by (auto elim!: listener_movesE simp: opens_stream_def)

lemma tunnel_run_streams:
  assumes "tunnel_run t n ses ces evs t'" "in_flight t = []"
  shows "mset (opened_streams evs) = mset (accepted_streams evs) + mset (in_flight t')"
  using assms
proof (induction rule: tunnel_run.induct)
  case (step t n ses ces evs t' ses' ces' ev t'')
  then have IH: "mset (opened_streams evs) = mset (accepted_streams evs) + mset (in_flight t')" by simp
  from step.hyps(2) show ?case
    by (cases rule: tunnel_moves.cases) (simp_all add: IH)
qed simp

text \<open>Tasks belong to streams, at most one on each side for each of them.\<close>

definition tasks_ok :: "'tcp stream_event list \<Rightarrow> 'tcp tunnel \<Rightarrow> bool" where
  "tasks_ok evs t \<longleftrightarrow>
     mset (tasks (at_server t)) \<subseteq># mset (opened_streams evs) \<and>
     mset (forwarding (at_client t)) \<subseteq># mset (accepted_streams evs)"

lemma connection_moves_tasks:
  assumes "connection_moves c es c'" "\<not> opens_stream c c'"
  shows "mset (tasks c') \<subseteq># mset (tasks c)"
  using assms by (auto elim!: moves_elims simp: opens_stream_def subset_mset.add_increasing)

lemma client_moves_tasks:
  assumes "client_moves c a es c'"
  shows "mset (forwarding c') \<subseteq># mset (forwarding c) + (case a of None \<Rightarrow> {#} | Some s \<Rightarrow> {#s#})"
  using assms by (auto elim!: client_movesE)

lemma tunnel_run_tasks:
  assumes "tunnel_run t n ses ces evs t'" "tasks_ok [] t"
  shows "tasks_ok evs t'"
  using assms
proof (induction rule: tunnel_run.induct)
  case (step t n ses ces evs t' ses' ces' ev t'')
  then have ok: "tasks_ok evs t'" by simp
  from step.hyps(2) show ?case
  proof (cases rule: tunnel_moves.cases)
    case (opens c tcp)
    with opens_stream_listener [OF opens(4-6)] ok show ?thesis by (simp add: tasks_ok_def)
  next
    case (server c)
    from connection_moves_tasks [OF server(4,5)] ok server show ?thesis
      by (auto simp: tasks_ok_def intro: subset_mset.trans)
  next
    case (accepts xs tcp ys c)
    from client_moves_tasks [OF accepts(5)] ok accepts show ?thesis
      by (auto simp: tasks_ok_def intro: subset_mset.trans)
  next
    case (client c)
    from client_moves_tasks [OF client(4)] ok client show ?thesis
      by (auto simp: tasks_ok_def intro: subset_mset.trans)
  qed (use ok in \<open>auto simp: tasks_ok_def\<close>)
qed

text \<open>
  The counters of the two processes: what the server has accepted, it has failed to open a
  stream for, is still opening a stream for, or has opened one; and the client counts what it
  has accepted.
\<close>

definition counters_ok ::
  "server_counter increments \<Rightarrow> client_counter increments \<Rightarrow> 'tcp stream_event list \<Rightarrow> 'tcp tunnel \<Rightarrow> bool" where
  "counters_ok ses ces evs t \<longleftrightarrow>
     counted TCP_CONNECTIONS_ACCEPTED ses = counted QUIC_DATA_STREAM_OPENING_ERRORS ses +
       word_of_nat (length (opened_streams evs) + opening_streams (listener (at_server t))) \<and>
     counted CONNECTIONS_ACCEPTED ces = word_of_nat (length (accepted_streams evs))"

lemma connection_moves_opening:
  assumes "connection_moves c es c'" "\<not> opens_stream c c'"
  shows "counted TCP_CONNECTIONS_ACCEPTED es + word_of_nat (opening_streams (listener c)) =
    counted QUIC_DATA_STREAM_OPENING_ERRORS es + word_of_nat (opening_streams (listener c'))"
  using assms by (auto elim!: moves_elims simp: opens_stream_def)

lemma client_moves_counts:
  assumes "client_moves c a es c'"
  shows "counted CONNECTIONS_ACCEPTED es = (case a of None \<Rightarrow> 0 | Some s \<Rightarrow> 1)"
  using assms by (auto elim!: client_movesE)

lemma tunnel_run_counters:
  assumes "tunnel_run t n ses ces evs t'" "counters_ok [] [] [] t"
  shows "counters_ok ses ces evs t'"
  using assms
proof (induction rule: tunnel_run.induct)
  case (step t n ses ces evs t' ses' ces' ev t'')
  then have ok: "counters_ok ses ces evs t'" by simp
  from step.hyps(2) show ?case
  proof (cases rule: tunnel_moves.cases)
    case (opens c tcp)
    with opens_stream_listener [OF opens(4-6)] ok show ?thesis by (simp add: counters_ok_def)
  next
    case (server c)
    from connection_moves_opening [OF server(4,5)] ok server show ?thesis
      by (simp add: counters_ok_def algebra_simps)
  next
    case (accepts xs tcp ys c)
    from client_moves_counts [OF accepts(5)] ok accepts show ?thesis
      by (simp add: counters_ok_def)
  next
    case (client c)
    from client_moves_counts [OF client(4)] ok client show ?thesis
      by (simp add: counters_ok_def)
  qed (use ok in \<open>auto simp: counters_ok_def\<close>)
qed

subsection \<open>The end of a tunnel\<close>

lemma tunnel_moves_ok:
  assumes "tunnel_moves t ses ces ev t'" "connection_ok (at_server t)"
  shows "connection_ok (at_server t')"
  using assms
  by (cases rule: tunnel_moves.cases)
    (auto intro: all_tasks.keeps_ok listener_task.keeps_ok)

lemma tunnel_run_ok:
  "tunnel_run t n ses ces evs t' \<Longrightarrow> connection_ok (at_server t) \<Longrightarrow> connection_ok (at_server t')"
  by (induction rule: tunnel_run.induct) (auto intro: tunnel_moves_ok)

lemma new_tunnel_ok:
  "connection_ok (at_server new_tunnel)" "counters_ok [] [] [] new_tunnel" "tasks_ok [] new_tunnel"
  "in_flight new_tunnel = []"
  by (simp_all add: counters_ok_def tasks_ok_def new_tunnel_def new_connection_def
      new_client_def connection_ok_def)

text \<open>Nothing is lost, doubled or mixed up between the ends.\<close>

lemma tunnel_streams_and_tasks:
  assumes "tunnel_run new_tunnel n ses ces evs t"
  shows "mset (opened_streams evs) = mset (accepted_streams evs) + mset (in_flight t) \<and>
    mset (tasks (at_server t)) \<subseteq># mset (opened_streams evs) \<and>
    mset (forwarding (at_client t)) \<subseteq># mset (accepted_streams evs)"
  using tunnel_run_streams [OF assms new_tunnel_ok(4)] tunnel_run_tasks [OF assms new_tunnel_ok(3)]
  by (simp add: tasks_ok_def)

text \<open>The attempts to accept a TCP connection, and how far a tunnel is from its end.\<close>

definition accept_attempts :: "server_counter increments \<Rightarrow> nat" where
  "accept_attempts ses =
     length (filter (\<lambda>(k, n). k = TCP_CONNECTIONS_ACCEPTED \<or> k = TCP_CONNECTIONS_FAILED_ACCEPTING) ses)"

lemma accept_attempts_append [simp]:
  "accept_attempts (es @ es') = accept_attempts es + accept_attempts es'"
  by (simp add: accept_attempts_def)

lemma accept_attempts_Nil [simp]: "accept_attempts [] = 0"
  by (simp add: accept_attempts_def)

fun keepalive_work :: "keepalive_phase \<Rightarrow> nat" where
  "keepalive_work Ticking = 2"
| "keepalive_work Keepalive_ended = 0"
| "keepalive_work _ = 1"

definition client_work :: "'tcp client_side \<Rightarrow> nat" where
  "client_work c = length (forwarding c) + (if accept_loop_at c = Accepting_streams then 1 else 0) +
     keepalive_work (keepalive_at c)"

definition tunnel_work :: "'tcp tunnel \<Rightarrow> nat" where
  "tunnel_work t = work (at_server t) + client_work (at_client t)"

text \<open>What is left of a tunnel that was taken down.\<close>

definition tunnel_ended :: "'tcp tunnel \<Rightarrow> bool" where
  "tunnel_ended t \<longleftrightarrow>
     handler (at_server t) = Finished \<and> listener (at_server t) = Stopped \<and> tasks (at_server t) = [] \<and>
     accept_loop_at (at_client t) = Loop_ended \<and> keepalive_at (at_client t) = Keepalive_ended \<and>
     forwarding (at_client t) = []"

lemma client_progress:
  assumes "accept_loop_at c \<noteq> Loop_ended \<or> keepalive_at c \<noteq> Keepalive_ended \<or> forwarding c \<noteq> []"
  shows "\<exists>es c'. client_moves c None es c' \<and> client_work c' < client_work c"
proof -
  have step: ?thesis if "client_moves c None es c'" "client_work c' < client_work c" for es c'
    using that by blast
  show ?thesis
  proof (cases "forwarding c")
    case (Cons s ys)
    then have "forwarding c = [] @ s # ys" by simp
    from step [OF client_moves.forward_closed [OF this]] Cons show ?thesis by (simp add: client_work_def)
  next
    case Nil
    show ?thesis
    proof (cases "accept_loop_at c")
      case Accepting_streams
      from step [OF client_moves.connection_ends [OF this]] Accepting_streams show ?thesis
        by (simp add: client_work_def)
    next
      case Loop_ended
      show ?thesis
      proof (cases "keepalive_at c = Ticking")
        case True
        from step [OF client_moves.tick [OF this]] True show ?thesis by (simp add: client_work_def)
      next
        case False
        with Nil Loop_ended assms have k: "keepalive_at c \<in> {Sending_ping, Flushing_ping, Awaiting_pong}"
          by (cases "keepalive_at c") auto
        then have "keepalive_work (keepalive_at c) = 1" by auto
        with step [OF client_moves.keepalive_ends [OF k]] show ?thesis by (simp add: client_work_def)
      qed
    qed
  qed
qed

lemma tunnel_progress:
  assumes ok: "connection_ok (at_server t)" and go: "\<not> tunnel_ended t"
  shows "\<exists>ses ces ev t'. tunnel_moves t ses ces ev t' \<and> accept_attempts ses = 0 \<and> lost t' = lost t \<and>
    tunnel_work t' < tunnel_work t"
proof (cases "handler (at_server t) \<noteq> Finished \<or> tasks (at_server t) \<noteq> []")
  case True
  from connection_progress [OF this] obtain es c where
    c: "connection_moves (at_server t) es c" "length (tasks c) \<le> length (tasks (at_server t))"
      "work c < work (at_server t)"
    and es: "es \<in> {[], [(TCP_QUIC_CONNECTIONS_CLOSED_GRACEFUL, 1)], [(QUIC_DATA_STREAM_OPENING_ERRORS, 1)]}"
    by blast
  have "\<not> opens_stream (at_server t) c"
    using c(1,2) by (auto elim!: moves_elims simp: opens_stream_def)
  note m = tunnel_moves.server [OF c(1) this]
  have "accept_attempts es = 0" using es by (auto simp: accept_attempts_def)
  moreover have "tunnel_work (t\<lparr>at_server := c\<rparr>) < tunnel_work t" using c(3) by (simp add: tunnel_work_def)
  ultimately show ?thesis using m by fastforce
next
  case False
  with ok have closed: "closed_by_server t" "listener (at_server t) = Stopped"
    by (auto simp: connection_ok_def closed_by_server_def)
  from False closed(2) go client_progress [of "at_client t"] obtain es c where
    "client_moves (at_client t) None es c" "client_work c < client_work (at_client t)"
    by (auto simp: tunnel_ended_def)
  then have "tunnel_moves t [] es None (t\<lparr>at_client := c\<rparr>)"
    "tunnel_work (t\<lparr>at_client := c\<rparr>) < tunnel_work t"
    using closed(1) by (auto intro: tunnel_moves.client simp: tunnel_work_def)
  then show ?thesis by fastforce
qed

lemma tunnel_run_extends:
  assumes "tunnel_run t0 n ses ces evs t" "connection_ok (at_server t0)"
  shows "\<exists>n' ses' ces' evs' t'. tunnel_run t0 (n + n') (ses @ ses') (ces @ ces') (evs @ evs') t' \<and>
    accept_attempts ses' = 0 \<and> lost t' = lost t \<and> tunnel_ended t'"
  using assms(1)
proof (induction "tunnel_work t" arbitrary: n ses ces evs t rule: less_induct)
  case less
  show ?case
  proof (cases "tunnel_ended t")
    case True
    with less.prems show ?thesis
      by (intro exI [of _ "0 :: nat"] exI [of _ "[]"] exI [of _ t]) simp
  next
    case False
    from tunnel_progress [OF tunnel_run_ok [OF less.prems assms(2)] False] obtain s c ev t1 where
      m: "tunnel_moves t s c ev t1" "accept_attempts s = 0" "lost t1 = lost t"
      and less_work: "tunnel_work t1 < tunnel_work t" by blast
    from less.hyps [OF less_work tunnel_run.step [OF less.prems m(1)]] obtain n' ses' ces' evs' t' where
      "tunnel_run t0 (Suc n + n') ((ses @ s) @ ses') ((ces @ c) @ ces')
        ((evs @ (case ev of None \<Rightarrow> [] | Some e \<Rightarrow> [e])) @ evs') t'"
      "accept_attempts ses' = 0" "lost t' = lost t1" "tunnel_ended t'" by blast
    with m show ?thesis
      by (intro exI [of _ "Suc n'"] exI [of _ "s @ ses'"] exI [of _ "c @ ces'"]
          exI [of _ "(case ev of None \<Rightarrow> [] | Some e \<Rightarrow> [e]) @ evs'"] exI [of _ t']) simp
  qed
qed

subsection \<open>A concrete run\<close>

text \<open>
  A TCP connection is accepted, a stream opened for it and accepted by the client; a second
  connection is accepted and its stream opened, and is still on its way.
\<close>

definition sample_tunnel :: "nat tunnel" where
  "sample_tunnel =
     \<lparr>at_server = \<lparr>handler = Serving, listener = Accepting, tasks = [5, 6]\<rparr>, in_flight = [6],
      at_client = \<lparr>accept_loop_at = Accepting_streams, keepalive_at = Ticking, forwarding = [5]\<rparr>,
      lost = False\<rparr>"

lemma tunnel_accept:
  assumes "listener (at_server t) = Accepting"
  shows "tunnel_moves t [(TCP_CONNECTIONS_ACCEPTED, 1)] [] None
    (t\<lparr>at_server := (at_server t)\<lparr>listener := Opening tcp\<rparr>\<rparr>)"
  using assms
  by (intro tunnel_moves.server by_listener listener_moves.accept_ok) (simp_all add: opens_stream_def)

lemma tunnel_open:
  assumes "listener (at_server t) = Opening tcp" "\<not> closed_by_server t"
  shows "tunnel_moves t [] [] (Some (Opened tcp))
    (t\<lparr>at_server := (at_server t)\<lparr>listener := Accepting, tasks := tasks (at_server t) @ [tcp]\<rparr>,
       in_flight := in_flight t @ [tcp]\<rparr>)"
  using assms by (intro tunnel_moves.opens listener_moves.open_ok) (simp_all add: opens_stream_def)

lemma sample_tunnel_run:
  "tunnel_run new_tunnel 6 [(TCP_CONNECTIONS_ACCEPTED, 1), (TCP_CONNECTIONS_ACCEPTED, 1)]
     [(CONNECTIONS_ACCEPTED, 1)] [Opened 5, Accepted 5, Opened 6] sample_tunnel"
proof -
  let ?s = "\<lambda>l ts. \<lparr>handler = Serving, listener = l, tasks = ts\<rparr> :: nat connection"
  let ?c = "\<lambda>fs. \<lparr>accept_loop_at = Accepting_streams, keepalive_at = Ticking, forwarding = fs\<rparr> :: nat client_side"
  let ?t = "\<lambda>s q c. \<lparr>at_server = s, in_flight = q, at_client = c, lost = False\<rparr>"
  have 0: "tunnel_moves new_tunnel [] [] None (?t (?s Accepting []) [] (?c []))"
    using tunnel_moves.server [OF by_listener [OF listener_moves.local_addr_ok], of new_tunnel]
    by (simp add: new_tunnel_def new_connection_def new_client_def opens_stream_def)
  have 1: "tunnel_moves (?t (?s Accepting []) [] (?c [])) [(TCP_CONNECTIONS_ACCEPTED, 1)] [] None
      (?t (?s (Opening 5) []) [] (?c []))"
    using tunnel_accept [of "?t (?s Accepting []) [] (?c [])" 5] by simp
  have 2: "tunnel_moves (?t (?s (Opening 5) []) [] (?c [])) [] [] (Some (Opened 5)) (?t (?s Accepting [5]) [5] (?c []))"
    using tunnel_open [of "?t (?s (Opening 5) []) [] (?c [])" 5] by (simp add: closed_by_server_def)
  have 3: "tunnel_moves (?t (?s Accepting [5]) [5] (?c [])) [] [(CONNECTIONS_ACCEPTED, 1)] (Some (Accepted 5))
      (?t (?s Accepting [5]) [] (?c [5]))"
    using tunnel_moves.accepts [of "?t (?s Accepting [5]) [5] (?c [])" "[]" 5 "[]", OF _ client_moves.accept]
    by simp
  have 4: "tunnel_moves (?t (?s Accepting [5]) [] (?c [5])) [(TCP_CONNECTIONS_ACCEPTED, 1)] [] None
      (?t (?s (Opening 6) [5]) [] (?c [5]))"
    using tunnel_accept [of "?t (?s Accepting [5]) [] (?c [5])" 6] by simp
  have 5: "tunnel_moves (?t (?s (Opening 6) [5]) [] (?c [5])) [] [] (Some (Opened 6)) sample_tunnel"
    using tunnel_open [of "?t (?s (Opening 6) [5]) [] (?c [5])" 6]
    by (simp add: closed_by_server_def sample_tunnel_def)
  from tunnel_run.step [OF tunnel_run.step [OF tunnel_run.step [OF tunnel_run.step [OF tunnel_run.step
      [OF tunnel_run.step [OF tunnel_run.refl 0] 1] 2] 3] 4] 5] show ?thesis by (simp add: eval_nat_numeral)
qed

subsection \<open>Properties\<close>

text \<open>
  C10: the counters of the two programs agree: the connections the server has accepted are those
  it failed to open a stream for, those the client has counted as accepted, and those still being
  opened or on their way.
\<close>

theorem tunnel_counters_agree:
  assumes "tunnel_run new_tunnel n ses ces evs t"
  shows "counted TCP_CONNECTIONS_ACCEPTED ses =
    counted QUIC_DATA_STREAM_OPENING_ERRORS ses + counted CONNECTIONS_ACCEPTED ces +
    word_of_nat (length (in_flight t) + opening_streams (listener (at_server t)))"
proof -
  from tunnel_run_streams [OF assms new_tunnel_ok(4)]
  have "length (opened_streams evs) = length (accepted_streams evs) + length (in_flight t)"
    by (metis size_mset size_union)
  with tunnel_run_counters [OF assms new_tunnel_ok(2)] show ?thesis
    by (simp add: counters_ok_def)
qed

theorem tunnel_counters_agree_witness:
  "counted TCP_CONNECTIONS_ACCEPTED [(TCP_CONNECTIONS_ACCEPTED, 1), (TCP_CONNECTIONS_ACCEPTED, 1)] =
    counted CONNECTIONS_ACCEPTED [(CONNECTIONS_ACCEPTED, 1)] + word_of_nat (length (in_flight sample_tunnel))"
  using tunnel_counters_agree [OF sample_tunnel_run] by (simp add: sample_tunnel_def)

text \<open>
  C21: every tunnel can be taken down completely, without losing the connection and without
  accepting another TCP connection: every run can be prolonged to one after which the handlers of
  both ends have returned, the listener has stopped and no task is left.
\<close>

theorem every_tunnel_can_end:
  assumes "tunnel_run new_tunnel n ses ces evs t"
  shows "\<exists>n' ses' ces' evs' t'. tunnel_run new_tunnel (n + n') (ses @ ses') (ces @ ces') (evs @ evs') t' \<and>
    accept_attempts ses' = 0 \<and> lost t' = lost t \<and> tunnel_ended t'"
  using tunnel_run_extends [OF assms new_tunnel_ok(1)] .

theorem every_tunnel_can_end_witness:
  "\<exists>n ses ces evs t. tunnel_run new_tunnel n ses ces ([Opened 5, Accepted 5, Opened (6 :: nat)] @ evs) t \<and>
    tunnel_ended t \<and> \<not> lost t"
  using every_tunnel_can_end [OF sample_tunnel_run] by (fastforce simp: sample_tunnel_def)

end
