(* ===== verification/Tunnel_Streams.thy ===== *)
theory Tunnel_Streams
  imports Server_Listener Client_Handler
begin

section \<open>The streams of a tunnel, from TCP connection to TCP connection
  (\<open>src/server/tcp_listener.rs\<close> with \<open>src/client/server_handler.rs\<close>)\<close>

text \<open>
  The listener of the server and the handler of the client, as the functions of
  \<open>Server_Listener\<close> and \<open>Client_Handler\<close>, joined by a QUIC connection.  The network of the server
  keeps a log of what it has handed out; \<open>pairs\<close> reads off it which stream was opened for which
  TCP connection.  The client's \<open>accept_bi\<close> delivers the first \<open>k\<close> of the streams that were
  opened and then fails, because the connection has ended.  The lemmas show that each of these
  streams gets exactly one forwarding task on either side, and what the counters say of it.
\<close>

subsection \<open>Model\<close>

text \<open>One event for each TCP connection that is handed out, and for each stream that is opened.\<close>

datatype ('tcp, 'h) net_event = Arrived 'tcp | Stream_opened 'h

fun pairs :: "('tcp, 'h) net_event list \<Rightarrow> ('tcp \<times> 'h) list" where
  "pairs (Arrived c # Stream_opened h # es) = (c, h) # pairs es"
| "pairs (e # es) = pairs es"
| "pairs [] = []"

fun opened_halves :: "('tcp, 'h) net_event list \<Rightarrow> 'h list" where
  "opened_halves (Stream_opened h # es) = h # opened_halves es"
| "opened_halves (Arrived c # es) = opened_halves es"
| "opened_halves [] = []"

definition keeps_log ::
  "('q, 'tcp, 'r, 'w) listener_env \<Rightarrow> ('q \<Rightarrow> ('tcp, 'w \<times> 'r) net_event list) \<Rightarrow> bool" where
  "keeps_log env log \<longleftrightarrow>
     (\<forall>q p q'. tcp_accept env q = (p, q') \<longrightarrow>
        log q' = log q @ (case p of Ready_in d (Inr conn) \<Rightarrow> [Arrived (fst conn)] | _ \<Rightarrow> [])) \<and>
     (\<forall>q p q'. quic_open_bi env q = (p, q') \<longrightarrow>
        log q' = log q @ (case p of Ready_in d (Inr h) \<Rightarrow> [Stream_opened h] | _ \<Rightarrow> [])) \<and>
     (\<forall>c q p q'. tcp_shutdown env c q = (p, q') \<longrightarrow> log q' = log q)"

text \<open>The two ends of a stream, as each program wraps them.\<close>

definition server_stream :: "('q, 'tcp, 'r, 'w) listener_env \<Rightarrow> 'w \<times> 'r \<Rightarrow> ('r, 'w) BiStream" where
  "server_stream env h = BiStream_new (snd h) (fst h) (recv_id env (snd h))"

definition client_stream :: "('q, 'r, 'w) client_env \<Rightarrow> 'w \<times> 'r \<Rightarrow> ('r, 'w) BiStream" where
  "client_stream env h = BiStream_new (snd h) (fst h) (client_stream_id env (snd h))"

text \<open>What \<open>accept_bi\<close> delivers until it fails.\<close>

inductive delivers :: "('q, 'r, 'w) client_env \<Rightarrow> 'q \<Rightarrow> ('w \<times> 'r) list \<Rightarrow> bool" where
  closed: "accept_bi env q = (Ready_in d (Inl e), q') \<Longrightarrow> delivers env q []"
| stream: "accept_bi env q = (Ready_in d (Inr h), q') \<Longrightarrow> delivers env q' hs \<Longrightarrow>
     delivers env q (h # hs)"

subsection \<open>The server\<close>

lemma pairs_append: "pairs (es @ Arrived c # es') = pairs es @ pairs (Arrived c # es')"
  by (induction es rule: pairs.induct) simp_all

lemma opened_halves_append [simp]: "opened_halves (es @ es') = opened_halves es @ opened_halves es'"
  by (induction es rule: opened_halves.induct) simp_all

text \<open>
  Between two turns of the loop, every stream was opened for the TCP connection handed out just
  before it, and the forwarding tasks are those of these pairs, in order.
\<close>

definition spawned_as_logged ::
  "('q, 'tcp, 'r, 'w) listener_env \<Rightarrow> ('q \<Rightarrow> ('tcp, 'w \<times> 'r) net_event list) \<Rightarrow>
   ('q, 'tcp, 'r, 'w) listener_world \<Rightarrow> bool" where
  "spawned_as_logged env log w \<longleftrightarrow>
     lw_spawned w = map (\<lambda>(c, h). (c, server_stream env h)) (pairs (log (lw_net w))) \<and>
     map snd (pairs (log (lw_net w))) = opened_halves (log (lw_net w))"

text \<open>The turn of an accepted connection, after the network has handed it out.\<close>

lemma handle_accept_logged:
  assumes run: "handle_accept env (Inr (c, peer)) t = Some (Fin u t')" and log: "keeps_log env log"
    and before: "log (lw_net (strm t)) = es @ [Arrived c]"
      "lw_spawned (strm t) = map (\<lambda>(c, h). (c, server_stream env h)) (pairs es)"
      "map snd (pairs es) = opened_halves es"
  shows "spawned_as_logged env log (strm t')"
proof -
  let ?t = "t\<lparr>strm := count TCP_CONNECTIONS_ACCEPTED (strm t)\<rparr>"
  from run obtain r t1 where o: "await (on_net (quic_open_bi env)) ?t = Some (Fin r t1)"
    and rest: "(case r of
         Inl e \<Rightarrow>
           bind_async (modify (count QUIC_DATA_STREAM_OPENING_ERRORS)) (\<lambda>_.
           bind_async (await (on_net (tcp_shutdown env c))) (\<lambda>_. ret ()))
       | Inr halves \<Rightarrow>
           (case halves of (send, recv) \<Rightarrow>
              modify (spawn_forward c (BiStream_new recv send (recv_id env recv))))) t1 = Some (Fin u t')"
    by (auto simp: handle_accept_def bind_async_apply [of "modify _"] modify_def [of _ t]
        elim: bind_async_FinE)
  from o obtain d q where q: "quic_open_bi env (lw_net (strm t)) = (Ready_in d r, q)"
    "strm t1 = (count TCP_CONNECTIONS_ACCEPTED (strm t))\<lparr>lw_net := q\<rparr>"
    by (auto elim!: await_FinE simp: on_net_def count_def split: prod.splits)
  show ?thesis
  proof (cases r)
    case (Inl e)
    with log q(1) before(1) have "log q = es @ [Arrived c]" by (simp add: keeps_log_def)
    moreover from rest Inl have "bind_async (await (on_net (tcp_shutdown env c))) (\<lambda>_. ret ())
        (t1\<lparr>strm := count QUIC_DATA_STREAM_OPENING_ERRORS (strm t1)\<rparr>) = Some (Fin u t')"
      by (simp add: bind_async_apply [of "modify _"] modify_def)
    then obtain d' x q' where "tcp_shutdown env c q = (Ready_in d' x, q')"
      "lw_net (strm t') = q'" "lw_spawned (strm t') = lw_spawned (strm t)"
      using q(2) by (auto elim!: bind_async_FinE await_FinE simp: on_net_def ret_def count_def split: prod.splits)
    moreover from this(1) log have "log q' = log q" by (simp add: keeps_log_def)
    ultimately show ?thesis
      using before(2,3) pairs_append [of es c "[]"] by (simp add: spawned_as_logged_def)
  next
    case (Inr h)
    with log q(1) before(1) have "log q = es @ [Arrived c, Stream_opened h]" by (simp add: keeps_log_def)
    moreover from rest Inr q(2) have "lw_net (strm t') = q"
      "lw_spawned (strm t') = lw_spawned (strm t) @ [(c, server_stream env h)]"
      by (cases h; auto simp: modify_def spawn_forward_def count_def server_stream_def)+
    ultimately show ?thesis
      using before(2,3) pairs_append [of es c "[Stream_opened h]"] by (simp add: spawned_as_logged_def)
  qed
qed

lemma listener_step_logged:
  assumes run: "listener_step env bias c n t = Some (Fin x t')" and log: "keeps_log env log"
    and inv: "spawned_as_logged env log (strm t)"
  shows "spawned_as_logged env log (strm t')"
proof -
  from run obtain sel t1 where
    sel: "select_cancelled (bias n) c (await (on_net (tcp_accept env))) t = Some (Fin sel t1)"
    and rest: "(case sel of
       None \<Rightarrow> ret (Break ())
     | Some accept_result \<Rightarrow>
         bind_async (handle_accept env accept_result) (\<lambda>_. ret (Continue (Suc n)))) t1 = Some (Fin x t')"
    unfolding listener_step_def by (rule bind_async_FinE)
  from sel show ?thesis
  proof (cases rule: select_frame)
    case same
    with rest inv show ?thesis by (simp add: ret_def)
  next
    case (ready d p q)
    let ?new = "case p of Inl _ \<Rightarrow> [] | Inr conn \<Rightarrow> [Arrived (fst conn)]"
    have q: "log q = log (lw_net (strm t)) @ ?new"
      using log ready(1) by (auto simp: keeps_log_def split: sum.splits)
    have t1: "spawned_as_logged env log (strm t1)"
      using inv q ready(2) pairs_append [of "log (lw_net (strm t))" "fst (projr p)" "[]"]
      by (auto simp: spawned_as_logged_def split: sum.splits)
    show ?thesis
    proof (cases sel)
      case None
      with rest t1 show ?thesis by (simp add: ret_def)
    next
      case (Some r)
      with rest obtain u where u: "handle_accept env r t1 = Some (Fin u t')"
        by (auto simp: ret_def elim!: bind_async_FinE)
      have r: "r = p" using ready(3) Some by simp
      show ?thesis
      proof (cases p)
        case (Inl e)
        with u r t1 show ?thesis
          by (auto simp: handle_accept_def modify_def count_def spawned_as_logged_def)
      next
        case (Inr conn)
        obtain tcp peer where conn: "conn = (tcp, peer)" by (cases conn)
        show ?thesis
          by (rule handle_accept_logged [of env tcp peer t1 u t' log "log (lw_net (strm t))"])
            (use u r Inr conn log q ready(2) inv in \<open>simp_all add: spawned_as_logged_def\<close>)
      qed
    qed
  qed
qed

lemma listener_logged:
  assumes run: "handle_tcp_listener env bias c t = Some (Fin r t')" and log: "keeps_log env log"
    and inv: "spawned_as_logged env log (strm t)"
  shows "spawned_as_logged env log (strm t')"
proof (cases "local_addr env")
  case (Inl e)
  with run inv show ?thesis by (simp add: handle_tcp_listener_def ret_def)
next
  case (Inr a)
  with run obtain u where "loop_async (listener_step env bias c) 0 t = Some (Fin u t')"
    by (auto simp: handle_tcp_listener_def elim: map_async_FinE)
  then have "case Fin u t' of Fin _ t' \<Rightarrow> spawned_as_logged env log (strm t') | Cut _ \<Rightarrow> True"
    by (rule loop_async_rule [where I = "\<lambda>_ t. spawned_as_logged env log (strm t)"])
      (use inv listener_step_logged [OF _ log] in auto)
  then show ?thesis by simp
qed

subsection \<open>The client\<close>

lemma accept_streams_delivered:
  assumes "delivers env q hs" "cw_conn (strm t) = q" "deadline t = None"
  shows "\<exists>t'. loop_async (accept_streams_step env) () t = Some (Fin () t') \<and>
    cw_tasks (strm t') = cw_tasks (strm t) @ map (\<lambda>h. Forward_task (client_stream env h)) hs \<and>
    cw_metrics (strm t') = cw_metrics (strm t) @ replicate (length hs) (CONNECTIONS_ACCEPTED, 1)"
  using assms
proof (induction arbitrary: t rule: delivers.induct)
  case (closed env q d e q')
  then have "\<exists>t'. accept_streams_step env () t = Some (Fin (Break ()) t') \<and>
      cw_tasks (strm t') = cw_tasks (strm t) \<and> cw_metrics (strm t') = cw_metrics (strm t)"
    by (simp add: accept_streams_step_def bind_async_apply await_free on_quic_def ret_def)
  with loop_async_Break [of "accept_streams_step env"] show ?case by fastforce
next
  case (stream env q d h q' hs)
  define t1 where "t1 = t\<lparr>now := now t + d, strm := client_spawn (Forward_task (client_stream env h))
      (client_count CONNECTIONS_ACCEPTED (strm t\<lparr>cw_conn := q'\<rparr>))\<rparr>"
  have "accept_streams_step env () t = Some (Fin (Continue ()) t1)"
    using stream.hyps(1) stream.prems
    by (cases h) (simp add: accept_streams_step_def bind_async_apply await_free on_quic_def
        ret_def modify_def t1_def client_stream_def)
  note cont = loop_async_Continue [of "accept_streams_step env", OF this]
  have "cw_conn (strm t1) = q'" "deadline t1 = None"
    "cw_tasks (strm t1) = cw_tasks (strm t) @ [Forward_task (client_stream env h)]"
    "cw_metrics (strm t1) = cw_metrics (strm t) @ [(CONNECTIONS_ACCEPTED, 1)]"
    using stream.prems by (simp_all add: t1_def client_spawn_def client_count_def inc_def)
  with stream.IH [of t1] cont show ?case by auto
qed

lemma client_handler_delivered:
  assumes t: "deadline t = None"
    and control: "accept_bi env (cw_conn (strm t)) = (Ready_in d (Inr h), q)"
    and auth: "client_authenticate (client_api env) (client_crypto env)
      (c_connection_auth_psk (client_app_data config))
      \<lparr>now = now t + d, deadline = None, strm = client_stream env h\<rparr> = Some (Fin (Inr ()) u)"
    and streams: "delivers env q hs"
  shows "\<exists>t'. handle_quic_server_connection env config t = Some (Fin (Inr ()) t') \<and>
    cw_tasks (strm t') = cw_tasks (strm t) @ Keepalive_task (strm u) #
      map (\<lambda>h. Forward_task (client_stream env h)) hs \<and>
    cw_metrics (strm t') = cw_metrics (strm t) @ [(CLIENT_CONNECTIONS_OPENED_TOTAL, 1)] @
      replicate (length hs) (CONNECTIONS_ACCEPTED, 1) @
      [(CLIENT_CONNECTIONS_GRACEFULLY_CLOSED_TOTAL, 1)]"
proof -
  obtain send recv where h: "h = (send, recv)" by (cases h)
  let ?t0 = "t\<lparr>strm := client_count CLIENT_CONNECTIONS_OPENED_TOTAL (strm t)\<rparr>"
  have u: "deadline u = None"
    using timely_FinD [OF timely_client_authenticate _ auth] by (simp add: in_time_def)
  let ?t1 = "\<lparr>now = now u, deadline = None,
      strm = (client_count CLIENT_CONNECTIONS_OPENED_TOTAL (strm t))\<lparr>cw_conn := q\<rparr>\<rparr>"
  have a: "handle_quic_auth_client_side env config ?t0 = Some (Fin (Inr (strm u)) ?t1)"
    using t control auth u h unfolding handle_quic_auth_client_side_def
    by (simp add: bind_async_apply await_free on_quic_def with_stream_def ret_def client_count_def
        client_stream_def)
  let ?t2 = "?t1\<lparr>strm := client_spawn (Keepalive_task (strm u)) (strm ?t1)\<rparr>"
  have "cw_conn (strm ?t2) = q" "deadline ?t2 = None" by (simp_all add: client_spawn_def)
  from accept_streams_delivered [OF streams this] obtain t3 where
    "loop_async (accept_streams_step env) () ?t2 = Some (Fin () t3)"
    "cw_tasks (strm t3) = cw_tasks (strm ?t2) @ map (\<lambda>h. Forward_task (client_stream env h)) hs"
    "cw_metrics (strm t3) = cw_metrics (strm ?t2) @ replicate (length hs) (CONNECTIONS_ACCEPTED, 1)"
    by blast
  with a show ?thesis
    by (simp add: handle_quic_server_connection_def bind_async_apply [of "modify _"] modify_def
        try_async_apply map_async_Fin bind_async_apply [of "loop_async _ _"] ret_def client_count_def
        client_spawn_def inc_def)
qed

subsection \<open>A concrete environment\<close>

text \<open>Any network with a log beside its state, and one on which a single connection arrives.\<close>

definition logged ::
  "('q, 'tcp, 'r, 'w) listener_env \<Rightarrow>
   ('q \<times> ('tcp, 'w \<times> 'r) net_event list, 'tcp, 'r, 'w) listener_env" where
  "logged env =
     \<lparr>local_addr = local_addr env,
      tcp_accept = (\<lambda>(q, es). case tcp_accept env q of (p, q') \<Rightarrow>
        (p, (q', es @ (case p of Ready_in d (Inr conn) \<Rightarrow> [Arrived (fst conn)] | _ \<Rightarrow> [])))),
      quic_open_bi = (\<lambda>(q, es). case quic_open_bi env q of (p, q') \<Rightarrow>
        (p, (q', es @ (case p of Ready_in d (Inr h) \<Rightarrow> [Stream_opened h] | _ \<Rightarrow> [])))),
      recv_id = recv_id env,
      tcp_shutdown = (\<lambda>c (q, es). case tcp_shutdown env c q of (p, q') \<Rightarrow> (p, (q', es)))\<rparr>"

lemma logged_keeps_log: "keeps_log (logged env) snd"
  by (auto simp: keeps_log_def logged_def split: prod.splits)

definition one_connection ::
  "((io_error + nat) list \<times> (nat, bytes \<times> bytes list) net_event list, nat, bytes list, bytes)
   listener_world task" where
  "one_connection = \<lparr>now = 0, deadline = None, strm = \<lparr>lw_net = ([Inr 5], []), lw_metrics = [], lw_spawned = []\<rparr>\<rparr>"

lemma one_connection_run:
  "\<exists>t'. handle_tcp_listener (logged listed_env) (\<lambda>_. True) (Some 9) one_connection = Some (Fin (Inr ()) t') \<and>
    snd (lw_net (strm t')) = [Arrived 5, Stream_opened ([], [])]"
proof -
  let ?step = "listener_step (logged listed_env) (\<lambda>_. True) (Some 9)"
  note defs = listener_step_def select_cancelled_def bind_async_apply until_def await_def
    on_net_def ret_def handle_accept_def modify_def listed_env_def logged_def count_def spawn_forward_def
  obtain t1 where t1: "?step 0 one_connection = Some (Fin (Continue 1) t1)" "now t1 = 1" "deadline t1 = None"
    "lw_net (strm t1) = ([], [Arrived 5, Stream_opened ([], [])])"
    by (simp add: defs one_connection_def)
  obtain t2 where t2: "?step 1 t1 = Some (Fin (Break ()) t2)" "lw_net (strm t2) = lw_net (strm t1)"
    using t1(2-4) by (simp add: defs)
  have "loop_async ?step 0 one_connection = Some (Fin () t2)"
    using loop_async_Continue [of ?step, OF t1(1)] loop_async_Break [of ?step, OF t2(1)] by simp
  then show ?thesis
    using t1(4) t2(2) by (simp add: handle_tcp_listener_def map_async_Fin logged_def listed_env_def)
qed

lemma stream_list_delivers: "delivers stream_list_env q (map (Pair []) q)"
proof (induction q)
  case Nil
  show ?case using delivers.closed [of stream_list_env "[]" 0 "''closed''" "[]"]
    by (simp add: stream_list_env_def)
next
  case (Cons cs q)
  then show ?case using delivers.stream [of stream_list_env "cs # q" 0 "([], cs)" q]
    by (simp add: stream_list_env_def)
qed

subsection \<open>Properties\<close>

text \<open>
  C6: every TCP connection that gets a stream is forwarded exactly once on either side, through
  that stream, in order: when the listener has returned, with whatever network and however often
  opening a stream has failed, its forwarding tasks are the TCP connections handed out to it, each
  with the stream that was opened next.  And whenever the connection delivers the first \<open>k\<close> of
  these streams, the handler of the client returns \<open>Ok\<close> and has started, besides the keepalive
  task, one forwarding task for each of them; the connections that the server has counted are
  those whose stream could not be opened, those that the client has counted, and the rest of the
  streams.
\<close>

theorem streams_are_forwarded_once_on_both_ends:
  assumes server: "handle_tcp_listener lenv bias cancelled ts = Some (Fin r ts')" "deadline ts = None"
      "keeps_log lenv log" "log (lw_net (strm ts)) = []"
      "lw_spawned (strm ts) = []" "lw_metrics (strm ts) = []"
    and client: "deadline tc = None" "cw_metrics (strm tc) = []"
      "accept_bi cenv (cw_conn (strm tc)) = (Ready_in d (Inr control), q)"
      "client_authenticate (client_api cenv) (client_crypto cenv)
        (c_connection_auth_psk (client_app_data config))
        \<lparr>now = now tc + d, deadline = None, strm = client_stream cenv control\<rparr> = Some (Fin (Inr ()) u)"
    and quic: "k \<le> length (opened_halves (log (lw_net (strm ts'))))"
      "delivers cenv q (map far (take k (opened_halves (log (lw_net (strm ts'))))))"
  shows "\<exists>tc'. handle_quic_server_connection cenv config tc = Some (Fin (Inr ()) tc') \<and>
    lw_spawned (strm ts') = map (\<lambda>(tcp, h). (tcp, server_stream lenv h)) (pairs (log (lw_net (strm ts')))) \<and>
    cw_tasks (strm tc') = cw_tasks (strm tc) @ Keepalive_task (strm u) #
      map (\<lambda>(tcp, h). Forward_task (client_stream cenv (far h))) (take k (pairs (log (lw_net (strm ts'))))) \<and>
    counted TCP_CONNECTIONS_ACCEPTED (lw_metrics (strm ts')) =
      counted QUIC_DATA_STREAM_OPENING_ERRORS (lw_metrics (strm ts')) +
      counted CONNECTIONS_ACCEPTED (cw_metrics (strm tc')) +
      word_of_nat (length (pairs (log (lw_net (strm ts')))) - k)"
proof -
  let ?log = "log (lw_net (strm ts'))"
  have "spawned_as_logged lenv log (strm ts)"
    using server(4,5) by (simp add: spawned_as_logged_def)
  from listener_logged [OF server(1,3) this]
  have spawned: "lw_spawned (strm ts') = map (\<lambda>(tcp, h). (tcp, server_stream lenv h)) (pairs ?log)"
    and halves: "opened_halves ?log = map snd (pairs ?log)"
    by (simp_all add: spawned_as_logged_def)
  have "in_time ts" "accounted (strm ts)"
    using server(2,5,6) by (simp_all add: in_time_def accounted_def)
  from listener_accounts_for_every_connection [OF this server(1)] spawned
  have acc: "counted TCP_CONNECTIONS_ACCEPTED (lw_metrics (strm ts')) =
      word_of_nat (length (pairs ?log)) + counted QUIC_DATA_STREAM_OPENING_ERRORS (lw_metrics (strm ts'))"
    by (simp add: accounted_def)
  have "k \<le> length (pairs ?log)" using quic(1) halves by simp
  then have "word_of_nat (length (pairs ?log)) = (word_of_nat k + word_of_nat (length (pairs ?log) - k) :: u64)"
    by (metis le_add_diff_inverse of_nat_add)
  moreover from client_handler_delivered [OF client(1,3,4) quic(2)] obtain tc' where
    "handle_quic_server_connection cenv config tc = Some (Fin (Inr ()) tc')"
    "cw_tasks (strm tc') = cw_tasks (strm tc) @ Keepalive_task (strm u) #
      map (\<lambda>h. Forward_task (client_stream cenv h)) (map far (take k (opened_halves ?log)))"
    "cw_metrics (strm tc') = cw_metrics (strm tc) @ [(CLIENT_CONNECTIONS_OPENED_TOTAL, 1)] @
      replicate (length (map far (take k (opened_halves ?log)))) (CONNECTIONS_ACCEPTED, 1) @
      [(CLIENT_CONNECTIONS_GRACEFULLY_CLOSED_TOTAL, 1)]" by blast
  ultimately show ?thesis
    using spawned acc client(2) \<open>k \<le> length (pairs ?log)\<close>
    by (simp add: halves take_map case_prod_unfold o_def counted_replicate)
qed

theorem streams_are_forwarded_once_on_both_ends_witness:
  "\<exists>ts' tc' s. handle_tcp_listener (logged listed_env) (\<lambda>_. True) (Some 9) one_connection =
      Some (Fin (Inr ()) ts') \<and>
    handle_quic_server_connection stream_list_env sample_client_config
      (stream_list_task [[request_text sample_challenge_text, ''HAPPY'' @ [newline]], [''GET /'']]) =
      Some (Fin (Inr ()) tc') \<and>
    map fst (lw_spawned (strm ts')) = [5] \<and>
    cw_tasks (strm tc') = [Keepalive_task s, Forward_task (client_stream stream_list_env ([], [''GET /'']))]"
proof -
  let ?control = "[request_text sample_challenge_text, ''HAPPY'' @ [newline]]"
  let ?tc = "stream_list_task [?control, [''GET /'']]"
  obtain ts' where ts': "handle_tcp_listener (logged listed_env) (\<lambda>_. True) (Some 9) one_connection =
      Some (Fin (Inr ()) ts')" "snd (lw_net (strm ts')) = [Arrived 5, Stream_opened ([], [])]"
    using one_connection_run by blast
  obtain u where u: "client_authenticate (client_api stream_list_env) (client_crypto stream_list_env)
      (c_connection_auth_psk (client_app_data sample_client_config))
      \<lparr>now = now ?tc + 0, deadline = None, strm = client_stream stream_list_env ([], ?control)\<rparr> =
      Some (Fin (Inr ()) u)"
    using sample_client_authenticated [of "\<lparr>now = now ?tc + 0, deadline = None,
        strm = client_stream stream_list_env ([], ?control)\<rparr>" "''0''"]
    unfolding stream_list_api by (auto simp: client_stream_def stream_list_env_def)
  have client: "deadline ?tc = None" "cw_metrics (strm ?tc) = []" "cw_tasks (strm ?tc) = []"
    "accept_bi stream_list_env (cw_conn (strm ?tc)) = (Ready_in 0 (Inr ([], ?control)), [[''GET /'']])"
    by (simp_all add: stream_list_task_def stream_list_env_def)
  have start: "deadline one_connection = None" "snd (lw_net (strm one_connection)) = []"
    "lw_spawned (strm one_connection) = []" "lw_metrics (strm one_connection) = []"
    by (simp_all add: one_connection_def)
  have "delivers stream_list_env [[''GET /'']] (map (\<lambda>_. ([], [''GET /''])) (take 1 (opened_halves (snd (lw_net (strm ts'))))))"
    using stream_list_delivers [of "[[''GET /'']]"] ts'(2) by simp
  moreover have "1 \<le> length (opened_halves (snd (lw_net (strm ts'))))" using ts'(2) by simp
  ultimately obtain tc' where
    "handle_quic_server_connection stream_list_env sample_client_config ?tc = Some (Fin (Inr ()) tc')"
    "lw_spawned (strm ts') = [(5, server_stream (logged listed_env) ([], []))]"
    "cw_tasks (strm tc') = [Keepalive_task (strm u), Forward_task (client_stream stream_list_env ([], [''GET /'']))]"
    using streams_are_forwarded_once_on_both_ends [OF ts'(1) start(1) logged_keeps_log start(2-4)
        client(1,2,4) u, of 1 "\<lambda>_. ([], [''GET /''])"] ts'(2) client(3) by auto
  with ts'(1) show ?thesis by (intro exI [of _ ts'] exI [of _ tc'] exI [of _ "strm u"]) simp
qed

end
