(* ===== verification/Server_Session.thy ===== *)
theory Server_Session
  imports Connection_System
begin

section \<open>A client's session on the server (\<open>src/server/client_handler.rs\<close> with
  \<open>src/server/tcp_listener.rs\<close>)\<close>

text \<open>
  \<open>Server_Handler\<close> leaves the listener task behind the parameter \<open>join_listener\<close>.  Here the
  parameter is the listener of \<open>Server_Listener\<close> itself: the handler binds, spawns
  \<open>handle_tcp_listener\<close>, runs the control loop, and awaits the task whose token that loop has
  cancelled.  The lemmas show that the handler and its listener together are a run of the
  step relations of \<open>Connection_System\<close> from beginning to end, and what becomes of the session
  of a client that falls silent.
\<close>

subsection \<open>Model\<close>

text \<open>A spawned listener: the instant at which it starts, and its world.\<close>

type_synonym ('q, 'tcp, 'r, 'w) spawned_listener = "nat \<times> ('q, 'tcp, 'r, 'w) listener_world"

definition listener_task ::
  "('q, 'tcp, 'r, 'w) spawned_listener \<Rightarrow> ('q, 'tcp, 'r, 'w) listener_world task" where
  "listener_task l = \<lparr>now = fst l, deadline = None, strm = snd l\<rparr>"

text \<open>
  \<open>tcp_handle.await\<close> at the instant \<open>c\<close> at which the token is cancelled: the handler gets the
  result of the task when the task has returned.
\<close>

definition join_task ::
  "('q, 'tcp, 'r, 'w) listener_env \<Rightarrow> (nat \<Rightarrow> bool) \<Rightarrow> ('q, 'tcp, 'r, 'w) spawned_listener \<Rightarrow>
   nat \<Rightarrow> 'c \<Rightarrow> (error + (error + unit)) ready \<times> 'c" where
  "join_task lenv bias l c conn =
     (case handle_tcp_listener lenv bias (Some c) (listener_task l) of
        Some (Fin r u) \<Rightarrow> (Ready_in (now u - c) (Inr r), conn)
      | _ \<Rightarrow> (Never, conn))"

subsection \<open>Serving, in full\<close>

text \<open>Every return of step 4, with the instants and what the handler gets from the listener.\<close>

lemma serve_inv:
  assumes run: "serve_client env bias l s t = Some (Fin r t')" and t: "deadline t = None"
  obtains t1 d joined q where
    "run_control_channel_loop (control_api env) bias None \<lparr>now = now t, deadline = None, strm = s\<rparr> =
       Some (Fin (Inr (), True) t1)"
    "join_listener env l (now t1) (sw_conn (strm t)) = (Ready_in d joined, q)"
    "now t' = now t1 + d"
    "sw_effects (strm t') = sw_effects (strm t) @ [(now t1, Close ''OK normal shutdown'')]"
    "r = (case joined of Inl e \<Rightarrow> Inl e | Inr x \<Rightarrow> x)"
proof -
  let ?t0 = "\<lparr>now = now t, deadline = None, strm = s\<rparr>"
  from run obtain x t2 where x: "with_stream s (run_control_channel_loop (control_api env) bias None) t =
      Some (Fin x t2)"
    and rest: "(case x of ((control_channel_result, _), _) \<Rightarrow>
     at_now (\<lambda>cancelled_at.
     bind_async (emit (Close ''OK normal shutdown'')) (\<lambda>_.
     bind_async (await (on_conn (join_listener env l cancelled_at))) (\<lambda>joined.
     case joined of
       Inl e \<Rightarrow> ret (Inl e)
     | Inr task_result \<Rightarrow>
         (case task_result of Inl e \<Rightarrow> ret (Inl e) | Inr _ \<Rightarrow> ret control_channel_result))))) t2 =
      Some (Fin r t')"
    unfolding serve_client_def by (rule bind_async_FinE)
  from x obtain a t1 where a: "run_control_channel_loop (control_api env) bias None ?t0 = Some (Fin a t1)"
    "x = (a, strm t1)" "t2 = t\<lparr>now := now t1, deadline := deadline t1\<rparr>"
    using t by (auto elim: with_stream_FinE)
  obtain y by_us where y: "a = (y, by_us)" by (cases a)
  have t0: "in_time ?t0" by (simp add: in_time_def)
  from control_channel_cancels_token [OF t0 a(1) [unfolded y]] have yes: "y = Inr ()" "by_us" by auto
  from timely_FinD [OF timely_run_control_channel_loop t0 a(1)] have d1: "deadline t1 = None" by simp
  let ?t3 = "t2\<lparr>strm := (strm t2)\<lparr>sw_effects := sw_effects (strm t2) @
      [(now t1, Close ''OK normal shutdown'')]\<rparr>\<rparr>"
  have join: "bind_async (await (on_conn (join_listener env l (now t1)))) (\<lambda>joined.
     case joined of
       Inl e \<Rightarrow> ret (Inl e)
     | Inr task_result \<Rightarrow>
         (case task_result of Inl e \<Rightarrow> ret (Inl e) | Inr _ \<Rightarrow> ret (Inr ()))) ?t3 = Some (Fin r t')"
    using rest a(2,3) y yes
    by (simp add: at_now_def bind_async_apply [of "emit (Close ''OK normal shutdown'')"] emit_apply)
  from join obtain joined t4 where t4: "await (on_conn (join_listener env l (now t1))) ?t3 =
      Some (Fin joined t4)"
    and r: "r = (case joined of Inl e \<Rightarrow> Inl e | Inr x \<Rightarrow> x)" "t' = t4"
    by (elim bind_async_FinE) (auto simp: ret_def split: sum.splits)
  from t4 obtain d q where "join_listener env l (now t1) (sw_conn (strm t)) = (Ready_in d joined, q)"
    "now t4 = now t1 + d" "strm t4 = (strm ?t3)\<lparr>sw_conn := q\<rparr>"
    using a(3) by (auto elim!: await_FinE simp: on_conn_def split: prod.splits)
  with a y yes r show thesis by (intro that) auto
qed

text \<open>
  When the handler returns \<open>Ok\<close>, its listener has returned: the token was cancelled at the instant
  \<open>c\<close> at which the connection was closed, and the handler returns when the listener has.
\<close>

lemma served_with_listener:
  assumes run: "serve_client env bias l s t = Some (Fin (Inr ()) t')" and t: "deadline t = None"
    and join: "join_listener env = join_task lenv lbias"
  obtains c u where
    "handle_tcp_listener lenv lbias (Some c) (listener_task l) = Some (Fin (Inr ()) u)"
    "c \<le> now u" "now t' = now u"
    "sw_effects (strm t') = sw_effects (strm t) @ [(c, Close ''OK normal shutdown'')]"
proof -
  from run t obtain t1 d joined q where
    "run_control_channel_loop (control_api env) bias None \<lparr>now = now t, deadline = None, strm = s\<rparr> =
       Some (Fin (Inr (), True) t1)"
    and j: "join_listener env l (now t1) (sw_conn (strm t)) = (Ready_in d joined, q)"
    and now: "now t' = now t1 + d"
    and fx: "sw_effects (strm t') = sw_effects (strm t) @ [(now t1, Close ''OK normal shutdown'')]"
    and r: "Inr () = (case joined of Inl e \<Rightarrow> Inl e | Inr x \<Rightarrow> x)" by (rule serve_inv)
  from r have "joined = Inr (Inr ())" by (cases joined) auto
  with j obtain u where u: "handle_tcp_listener lenv lbias (Some (now t1)) (listener_task l) =
      Some (Fin (Inr ()) u)" "d = now u - now t1"
    by (auto simp: join join_task_def split: option.splits outcome.splits)
  have "now t1 \<le> now u"
    using listener_stops_after_cancellation [OF u(1)] by (simp add: listener_task_def in_time_def)
  with that [OF u(1)] u(2) now fx show thesis by simp
qed

text \<open>The handler and its listener as a run of the step relations, up to the end of both.\<close>

lemma session_runs:
  assumes run: "handle_tcp_listener lenv lbias (Some c) t = Some (Fin (Inr ()) u)" and t: "in_time t"
  obtains ess where "connection_run (abs_connection Serving Starting t) ess (abs_connection Finished Stopped u)"
    "lw_metrics (strm u) = lw_metrics (strm t) @ concat ess"
proof -
  let ?s = "abs_connection Serving Starting t" and ?s1 = "abs_connection (handler_at (Some c) (now t)) Starting t"
  let ?c = "\<lambda>h. abs_connection h Stopped u"
  have "handler_at (Some c) (now u) = Token_cancelled"
    using listener_stops_after_cancellation [OF run t] by (simp add: handler_at_def)
  with listener_run_of_task [OF run t] obtain evs where
    evs: "listener_run (Some c) (now t) ?s1 evs (now u) (?c Token_cancelled)"
      "lw_metrics (strm u) = lw_metrics (strm t) @ concat (map snd evs)" by auto
  have "handler ?s1 = handler_at (Some c) (now t)" by (simp add: abs_connection_def)
  from listener_run_connection [OF evs(1) this] obtain ess where
    ess: "connection_run ?s1 ess (?c Token_cancelled)" "concat ess = concat (map snd evs)" by blast
  have "\<exists>ess0. connection_run ?s ess0 ?s1 \<and> concat ess0 = []"
  proof (cases "handler_at (Some c) (now t) = Serving")
    case True
    then show ?thesis by (intro exI [of _ "[]"]) (simp add: connection_run.refl)
  next
    case False
    then have "connection_moves ?s [] ?s1"
      using by_handler [OF handler_moves.control_loop_ends [of ?s]]
      by (auto simp: handler_at_def abs_connection_def split: if_splits)
    from connection_run_single [OF this] show ?thesis by fastforce
  qed
  then obtain ess0 where ess0: "connection_run ?s ess0 ?s1" "concat ess0 = []" by blast
  have "connection_moves (?c Token_cancelled) [] (?c Conn_closed)"
    "connection_moves (?c Conn_closed) [] (?c Finished)"
    using by_handler [OF handler_moves.close [of "?c Token_cancelled"]]
      by_handler [OF handler_moves.join [of "?c Conn_closed"]]
    by (simp_all add: abs_connection_def)
  then have "connection_run (?c Token_cancelled) [[], []] (?c Finished)"
    by (blast intro: connection_run.intros)
  from connection_run_append [OF ess0(1) connection_run_append [OF ess(1) this]] show thesis
    by (rule that) (simp add: ess0(2) ess(2) evs(2))
qed

subsection \<open>A client that falls silent\<close>

lemma silent_session:
  assumes t: "deadline t = None"
    and silent: "io_read (control_api env) 1 s = (Never, s')"
    and join: "join_listener env = join_task lenv lbias"
    and addr: "local_addr lenv = Inr a" and quiet: "tcp_accept lenv (lw_net w) = (Never, q)"
    and start: "n0 \<le> now t + from_secs 60"
  shows "\<exists>t'. serve_client env bias (n0, w) s t = Some (Fin (Inr ()) t') \<and>
    now t' = now t + from_secs 60 \<and>
    sw_effects (strm t') = sw_effects (strm t) @ [(now t + from_secs 60, Close ''OK normal shutdown'')]"
proof -
  let ?t0 = "\<lparr>now = now t, deadline = None, strm = s\<rparr>" and ?c = "now t + from_secs 60"
  from control_channel_silence [of ?t0 "control_api env" s' None bias] silent obtain t1 where
    loop: "run_control_channel_loop (control_api env) bias None ?t0 = Some (Fin (Inr (), True) t1)"
    "now t1 = ?c" by auto
  have "handle_tcp_listener lenv lbias (Some ?c) (listener_task (n0, w)) =
      Some (Fin (Inr ()) ((listener_task (n0, w))\<lparr>now := ?c\<rparr>))"
    using listener_stops_when_cancelled [of "listener_task (n0, w)" lenv a q lbias ?c] addr quiet start
    by (simp add: listener_task_def max_absorb1)
  then have joined: "join_listener env (n0, w) ?c q = (Ready_in 0 (Inr (Inr ())), q)" for q
    by (simp add: join join_task_def)
  with loop(2) have "\<exists>d q'. join_listener env (n0, w) (now t1) q = (Ready_in d (Inr (Inr ())), q')" for q
    by simp
  from serve_result [OF t loop(1) this] obtain t' where
    run: "serve_client env bias (n0, w) s t = Some (Fin (Inr ()) t')" by blast
  from run t obtain t2 d x q' where
    "run_control_channel_loop (control_api env) bias None ?t0 = Some (Fin (Inr (), True) t2)"
    "join_listener env (n0, w) (now t2) (sw_conn (strm t)) = (Ready_in d x, q')" "now t' = now t2 + d"
    "sw_effects (strm t') = sw_effects (strm t) @ [(now t2, Close ''OK normal shutdown'')]"
    "Inr () = (case x of Inl e \<Rightarrow> Inl e | Inr y \<Rightarrow> y)" by (rule serve_inv)
  with loop joined run show ?thesis by auto
qed

subsection \<open>A concrete environment\<close>

text \<open>
  As \<open>pipe_env\<close>, with the listener of \<open>listed_env\<close>, to which \<open>attempts\<close> of connections come.  In
  \<open>silent_env\<close> the peer leaves the control stream open behind what it has sent.
\<close>

definition session_env :: "(io_error + nat) list \<Rightarrow> bytes list \<Rightarrow>
    (unit, bytes list, bytes, ((io_error + nat) list, nat, bytes list, bytes) spawned_listener) server_env" where
  "session_env attempts cs =
     \<lparr>peer_text = ''127.0.0.1:9000'', open_bi = (\<lambda>q. (Ready_in 0 (Inr ([], cs)), q)),
      stream_id = (\<lambda>_. ''server bidirectional stream 0''),
      recv_calls = pipe_reader, send_calls = pipe_writer,
      server_crypto = sample_crypto, system_time = 0,
      tcp_bind = (\<lambda>a q. (Ready_in 0 (Inr (0, strm (listed_task attempts))), q)),
      join_listener = join_task listed_env (\<lambda>_. True)\<rparr>"

definition waiting_reader :: "bytes list reader_api" where
  "waiting_reader = pipe_reader
     \<lparr>rd_read := (\<lambda>n cs. if cs = [] then (Never, cs) else rd_read pipe_reader n cs)\<rparr>"

definition silent_env :: "(io_error + nat) list \<Rightarrow> bytes list \<Rightarrow>
    (unit, bytes list, bytes, ((io_error + nat) list, nat, bytes list, bytes) spawned_listener) server_env" where
  "silent_env attempts cs = (session_env attempts cs)\<lparr>recv_calls := waiting_reader\<rparr>"

lemma session_env_simps [simp]:
  "recv_calls (session_env as cs) = pipe_reader" "send_calls (session_env as cs) = pipe_writer"
  "server_crypto (session_env as cs) = sample_crypto" "system_time (session_env as cs) = 0"
  "open_bi (session_env as cs) q = (Ready_in 0 (Inr ([], cs)), q)"
  "tcp_bind (session_env as cs) addr q = (Ready_in 0 (Inr (0, strm (listed_task as))), q)"
  by (simp_all add: session_env_def)

text \<open>Up to the listener the server only uses \<open>read_exact\<close>, which is the same on both.\<close>

lemma silent_env_prepare: "prepare_client (silent_env as cs) config = prepare_client (session_env as cs) config"
proof -
  have ra: "rd_read_exact waiting_reader = rd_read_exact pipe_reader"
    by (simp add: waiting_reader_def)
  have auth: "server_authenticate (control_api (silent_env as cs)) =
      server_authenticate (control_api (session_env as cs))"
    by (rule server_authenticate_cong) (simp_all add: silent_env_def BiStream_api_def ra)
  have conf: "configure_quic_client (recv_calls (silent_env as cs)) =
      configure_quic_client (recv_calls (session_env as cs))"
  proof -
    have "rd_read_exact (recv_calls (silent_env as cs)) = rd_read_exact (recv_calls (session_env as cs))"
      by (simp add: silent_env_def ra)
    then show ?thesis unfolding configure_quic_client_def by (simp only:)
  qed
  have rest: "open_bi (silent_env as cs) = open_bi (session_env as cs)"
    "stream_id (silent_env as cs) = stream_id (session_env as cs)"
    "server_crypto (silent_env as cs) = server_crypto (session_env as cs)"
    "system_time (silent_env as cs) = system_time (session_env as cs)"
    "peer_text (silent_env as cs) = peer_text (session_env as cs)"
    "tcp_bind (silent_env as cs) = tcp_bind (session_env as cs)"
    by (simp_all add: silent_env_def fun_eq_iff)
  show ?thesis
    unfolding prepare_client_def authenticate_quic_client_def configure_and_bind_def bind_listener_def
      auth conf rest ..
qed

lemma session_prepared:
  "\<exists>s t. prepare_client (silent_env as [sample_answer, listenport_message 8080]) sample_config fresh_task =
      Some (Fin (Inr ((0, strm (listed_task as)), s, 8080)) t) \<and> bi_read s = [] \<and> deadline t = None \<and>
    sw_effects (strm t) = [(now t, Listening ''0.0.0.0:8080'')]"
proof -
  let ?cs = "[sample_answer, listenport_message 8080]" and ?env = "session_env as"
  have ne: "listenport_message 8080 \<noteq> []" by (simp add: listenport_message_def)
  have "AllowedPorts_allows (s_local_bind_ports (app_data sample_config)) 8080"
    by (simp add: AllowedPorts_allows_def)
  moreover have "bi_halves (recv_calls (?env ?cs)) (\<lambda>c. c) (send_calls (?env ?cs)) (\<lambda>w. w)"
    "swift_calls (control_api (?env ?cs)) 0" "crypto_ok (server_crypto (?env ?cs))"
    "getrandom_fill (server_crypto (?env ?cs)) 32 = Inr (replicate 32 (CHR 0x2A))"
    using pipe.bi_halves_axioms pipe_swift_calls sample_crypto_ok
    by (simp_all add: pipe_api_def sample_crypto_def)
  note facts = this
  obtain s t where "prepare_client (session_env as ?cs) sample_config fresh_task =
      Some (Fin (Inr ((0, strm (listed_task as)), s, 8080)) t)" "deadline t = None"
    "[] \<notin> set (bi_read s)" "concat (bi_read s) = []"
    "sw_effects (strm t) = [(now t, Listening ''0.0.0.0:8080'')]"
    using prepare_run [OF facts(1,3,4), of fresh_task 0 "[]" ?cs "()", OF _ HOL.refl HOL.refl,
        of sample_config 8080 "[]" 0 0 "(0, strm (listed_task as))" "()"] ne facts(2) calculation
    by (auto simp: sample_answer_def sample_addr)
  moreover from this(3,4) have "bi_read s = []" by (cases "bi_read s") auto
  ultimately show ?thesis unfolding silent_env_prepare by blast
qed

lemma silent_env_simps [simp]:
  "io_read (control_api (silent_env as cs)) n s = (if bi_read s = [] then (Never, s)
     else on_read (rd_read pipe_reader n) s)"
  "join_listener (silent_env as cs) = join_task listed_env (\<lambda>_. True)"
  by (simp_all add: silent_env_def session_env_def BiStream_api_def waiting_reader_def on_read_def)

lemma handle_prepared:
  "prepare_client env config t = Some (Fin (Inr (l, s, p)) t1) \<Longrightarrow>
     handle_quic_client_connection env config bias t = serve_client env bias l s t1"
  by (simp add: handle_quic_client_connection_def try_async_apply)

lemma prepared_task:
  assumes "prepare_client env config t = Some (Fin x t1)" "deadline t = None"
  shows "deadline t1 = None"
  using timely_FinD [OF timely_prepare _ assms(1)] assms(2) by (simp add: in_time_def)

subsection \<open>Properties\<close>

text \<open>
  C5: handler and listener together implement the system of parallel tasks from beginning to end:
  when the handler of a client returns \<open>Ok\<close>, the token was cancelled and the connection closed at
  one instant \<open>c\<close>, the listener it spawned has returned \<open>Ok\<close> at or after \<open>c\<close>, the handler returns
  at the instant the listener has, and the two are a run of the connection from serving and a
  starting listener to a finished handler and a stopped listener, with the same forwarding tasks and the
  same increments of the counters.
\<close>

theorem session_refines_connection:
  assumes run: "handle_quic_client_connection env config bias t = Some (Fin (Inr ()) t')"
    and t: "deadline t = None" and join: "join_listener env = join_task lenv lbias"
  shows "\<exists>l s p t1 c u ess. prepare_client env config t = Some (Fin (Inr (l, s, p)) t1) \<and>
    sw_effects (strm t') = sw_effects (strm t1) @ [(c, Close ''OK normal shutdown'')] \<and>
    handle_tcp_listener lenv lbias (Some c) (listener_task l) = Some (Fin (Inr ()) u) \<and>
    c \<le> now u \<and> now t' = now u \<and>
    connection_run (abs_connection Serving Starting (listener_task l)) ess
      (abs_connection Finished Stopped u) \<and>
    lw_metrics (strm u) = lw_metrics (strm (listener_task l)) @ concat ess"
proof -
  from run obtain l s p t1 where prep: "prepare_client env config t = Some (Fin (Inr (l, s, p)) t1)"
    and serve: "serve_client env bias l s t1 = Some (Fin (Inr ()) t')"
    unfolding handle_quic_client_connection_def by (elim try_async_FinE) auto
  from served_with_listener [OF serve prepared_task [OF prep t] join] obtain c u where
    cu: "handle_tcp_listener lenv lbias (Some c) (listener_task l) = Some (Fin (Inr ()) u)" "c \<le> now u"
    "now t' = now u" "sw_effects (strm t') = sw_effects (strm t1) @ [(c, Close ''OK normal shutdown'')]"
    by blast
  have "in_time (listener_task l)" by (simp add: listener_task_def in_time_def)
  from session_runs [OF cu(1) this] obtain ess where
    "connection_run (abs_connection Serving Starting (listener_task l)) ess (abs_connection Finished Stopped u)"
    "lw_metrics (strm u) = lw_metrics (strm (listener_task l)) @ concat ess" by blast
  with prep cu show ?thesis by blast
qed

text \<open>
  C18: a client that falls silent is dropped after exactly one minute: with the control stream
  silent and no more TCP connections, the handler closes the connection 60 seconds after it has
  started to serve, its listener is gone at that instant, and it returns \<open>Ok\<close>.
\<close>

theorem silent_client_is_dropped:
  assumes "prepare_client env config t = Some (Fin (Inr ((n0, w), s, p)) t1)" "deadline t = None"
    and "io_read (control_api env) 1 s = (Never, s')"
    and "join_listener env = join_task lenv lbias"
    and "local_addr lenv = Inr a" "tcp_accept lenv (lw_net w) = (Never, q)"
    and "n0 \<le> now t1 + from_secs 60"
  shows "\<exists>t'. handle_quic_client_connection env config bias t = Some (Fin (Inr ()) t') \<and>
    now t' = now t1 + from_secs 60 \<and>
    sw_effects (strm t') = sw_effects (strm t1) @
      [(now t1 + from_secs 60, Close ''OK normal shutdown'')]"
  unfolding handle_prepared [OF assms(1)]
  by (rule silent_session [OF prepared_task [OF assms(1,2)] assms(3-7)])

theorem silent_client_is_dropped_witness:
  "\<exists>t' n. handle_quic_client_connection (silent_env [] [sample_answer, listenport_message 8080])
      sample_config (\<lambda>_. False) fresh_task = Some (Fin (Inr ()) t') \<and>
    sw_effects (strm t') = [(n, Listening ''0.0.0.0:8080''), (n + from_secs 60, Close ''OK normal shutdown'')]"
proof -
  obtain s t where prep: "prepare_client (silent_env [] [sample_answer, listenport_message 8080])
      sample_config fresh_task = Some (Fin (Inr ((0, strm (listed_task [])), s, 8080)) t)"
    and s: "bi_read s = []" and fx: "sw_effects (strm t) = [(now t, Listening ''0.0.0.0:8080'')]"
    using session_prepared by blast
  have "io_read (control_api (silent_env [] [sample_answer, listenport_message 8080])) 1 s = (Never, s)"
    using s by simp
  moreover have "local_addr listed_env = Inr ''0.0.0.0:8080''"
    "tcp_accept listed_env (lw_net (strm (listed_task []))) = (Never, [])"
    by (simp_all add: listed_env_def listed_task_def)
  ultimately show ?thesis
    using silent_client_is_dropped [OF prep fresh_task_simps(1) _ silent_env_simps(2),
        of s "''0.0.0.0:8080''" "[]" "\<lambda>_. False"] fx by auto
qed

text \<open>
  A session on which three attempts to connect arrive before the client falls silent: a
  connection that is forwarded, one for which no stream can be opened, and a failure.
\<close>

lemma sample_session:
  "\<exists>t'. handle_quic_client_connection
      (silent_env [Inr 5, Inr 6, Inl (IoError OtherKind ''e'')] [sample_answer, listenport_message 8080])
      sample_config (\<lambda>_. False) fresh_task = Some (Fin (Inr ()) t')"
proof -
  let ?as = "[Inr 5, Inr 6, Inl (IoError OtherKind ''e'')]"
  let ?env = "silent_env ?as [sample_answer, listenport_message 8080]"
  obtain s t where prep: "prepare_client ?env sample_config fresh_task =
      Some (Fin (Inr ((0, strm (listed_task ?as)), s, 8080)) t)"
    and s: "bi_read s = []" and t: "deadline t = None"
    using session_prepared by blast
  let ?t0 = "\<lparr>now = now t, deadline = None, strm = s\<rparr>"
  obtain t1 where loop: "run_control_channel_loop (control_api ?env) (\<lambda>_. False) None ?t0 =
      Some (Fin (Inr (), True) t1)" "now t1 = now t + from_secs 60"
    using control_channel_silence [of ?t0 "control_api ?env" s None] s by auto
  have "listener_task (0, strm (listed_task ?as)) = listed_task ?as"
    by (simp add: listener_task_def listed_task_def)
  moreover have "9 \<le> now t1" using loop(2) by (simp add: from_secs_def)
  ultimately obtain u where "handle_tcp_listener listed_env (\<lambda>_. True) (Some (now t1))
      (listener_task (0, strm (listed_task ?as))) = Some (Fin (Inr ()) u)"
    using listed_run by fastforce
  then have "\<exists>d q'. join_listener ?env (0, strm (listed_task ?as)) (now t1) q = (Ready_in d (Inr (Inr ())), q')" for q
    by (simp add: join_task_def)
  from serve_result [OF t loop(1) this] handle_prepared [OF prep] show ?thesis by simp
qed

theorem session_refines_connection_witness:
  "\<exists>u ess. connection_run new_connection ess (abs_connection Finished Stopped u) \<and>
    lw_metrics (strm u) = concat ess \<and>
    (\<exists>c. handle_tcp_listener listed_env (\<lambda>_. True) (Some c)
      (listed_task [Inr 5, Inr 6, Inl (IoError OtherKind ''e'')]) = Some (Fin (Inr ()) u))"
proof -
  let ?as = "[Inr 5, Inr 6, Inl (IoError OtherKind ''e'')]"
  let ?env = "silent_env ?as [sample_answer, listenport_message 8080]"
  obtain t' where run: "handle_quic_client_connection ?env sample_config (\<lambda>_. False) fresh_task =
      Some (Fin (Inr ()) t')"
    using sample_session by blast
  from session_refines_connection [OF run fresh_task_simps(1) silent_env_simps(2)] obtain l s p t1 c u ess where
    l: "prepare_client ?env sample_config fresh_task = Some (Fin (Inr (l, s, p)) t1)"
    and u: "handle_tcp_listener listed_env (\<lambda>_. True) (Some c) (listener_task l) = Some (Fin (Inr ()) u)"
    "connection_run (abs_connection Serving Starting (listener_task l)) ess (abs_connection Finished Stopped u)"
    "lw_metrics (strm u) = lw_metrics (strm (listener_task l)) @ concat ess"
    by (elim exE conjE) (rule that)
  have "listener_task l = listed_task ?as"
    using session_prepared [of ?as] l by (auto simp: listener_task_def listed_task_def)
  moreover have "abs_connection Serving Starting (listed_task ?as) = new_connection"
    "lw_metrics (strm (listed_task ?as)) = []"
    by (simp_all add: abs_connection_def listed_task_def new_connection_def)
  ultimately show ?thesis using u by auto
qed

end
