(* ===== verification/Keepalive_Link.thy ===== *)
theory Keepalive_Link
  imports Protocol_Keepalive
begin

section \<open>Client and server keeping each other alive (\<open>src/protocol/keepalive.rs\<close>)\<close>

text \<open>
  The theorems of \<open>Protocol_Keepalive\<close> give each loop its input.  Here the two loops run against
  each other, in time: what one side writes arrives at the other after a delay of the network.
  A round is one turn of the loop of either side, each as the body of the loop in
  \<open>Protocol_Keepalive\<close>: the client's ping goes to the server, the server's answer back.  The lemmas
  show when the pings are sent, and that the exchange goes on exactly as long as the answers come
  back in time; in particular the server, which allows for one minute of silence, never gives up
  a client whose answers come back.
\<close>

subsection \<open>Model\<close>

text \<open>
  An end of the link: the message that is to arrive, with the time until it does, counted from
  when the side reads, and the bytes written.  A message arrives in one piece; writing does not
  wait.
\<close>

record link_end =
  incoming :: "(nat \<times> bytes) option"
  outgoing :: bytes

definition link_api :: "link_end io_api" where
  "link_api =
     \<lparr>io_read = (\<lambda>n s. case incoming s of
        Some (w, b # bs) \<Rightarrow>
          (Ready_in w (Inr (take n (b # bs))),
           s\<lparr>incoming := (if drop n (b # bs) = [] then None else Some (0, drop n (b # bs)))\<rparr>)
      | _ \<Rightarrow> (Never, s)),
      io_read_exact = (\<lambda>n s. (Never, s)),
      io_read_until = (\<lambda>b s. case incoming s of
        Some (w, bs) \<Rightarrow> (Ready_in w (Inr bs), s\<lparr>incoming := None\<rparr>)
      | None \<Rightarrow> (Never, s)),
      io_write_all = (\<lambda>b s. (Ready_in 0 (Inr ()), s\<lparr>outgoing := outgoing s @ b\<rparr>)),
      io_flush = (\<lambda>s. (Ready_in 0 (Inr ()), s))\<rparr>"

text \<open>Both loops between two turns.\<close>

record 'i exchange =
  client_loop :: "'i \<times> usize"
  client_side :: "link_end task"
  server_loop :: nat
  server_side :: "link_end task"

definition receiving :: "nat \<Rightarrow> bytes \<Rightarrow> link_end task \<Rightarrow> link_end task" where
  "receiving w message t = t\<lparr>strm := \<lparr>incoming = Some (w, message), outgoing = []\<rparr>\<rparr>"

text \<open>
  A round, with the delays \<open>a\<close> and \<open>b\<close> of the network on the way to the server and back.  The
  client waits \<open>r\<close> for the answer, so it has sent its ping at \<open>now tc - r\<close>.  This arrives at the
  server \<open>a\<close> later, possibly before the server reads again, and the answer at the client \<open>b\<close> after
  the server has written it.  Both turns must end with going on.
\<close>

inductive exchange_round ::
  "'i interval_api \<Rightarrow> (nat \<Rightarrow> bool) \<Rightarrow> nat \<Rightarrow> nat \<Rightarrow> 'i exchange \<Rightarrow> 'i exchange \<Rightarrow> bool"
  for iv and bias where
  "keepalive_client_step link_api iv (client_loop x) (receiving r (outgoing (strm ts)) (client_side x)) =
     Some (Fin (Continue c) tc) \<Longrightarrow>
   control_channel_step link_api bias None (server_loop x) (receiving w (outgoing (strm tc)) (server_side x)) =
     Some (Fin (Continue n) ts) \<Longrightarrow>
   w = now tc - r + a - now (server_side x) \<Longrightarrow>
   now tc = now ts + b \<Longrightarrow>
   exchange_round iv bias a b x \<lparr>client_loop = c, client_side = tc, server_loop = n, server_side = ts\<rparr>"

inductive exchange_run ::
  "'i interval_api \<Rightarrow> (nat \<Rightarrow> bool) \<Rightarrow> 'i exchange \<Rightarrow> (nat \<times> nat) list \<Rightarrow> 'i exchange \<Rightarrow> bool"
  for iv and bias and x where
  refl: "exchange_run iv bias x [] x"
| step: "exchange_run iv bias x delays y \<Longrightarrow> exchange_round iv bias a b y z \<Longrightarrow>
     exchange_run iv bias x (delays @ [(a, b)]) z"

text \<open>The client enters its loop at the instant \<open>n\<close>, the server at \<open>m\<close>.\<close>

definition exchange_start :: "'i interval_api \<Rightarrow> nat \<Rightarrow> nat \<Rightarrow> 'i exchange" where
  "exchange_start iv n m =
     \<lparr>client_loop = keepalive_client_start iv n,
      client_side = \<lparr>now = n, deadline = None, strm = \<lparr>incoming = None, outgoing = []\<rparr>\<rparr>,
      server_loop = 0,
      server_side = \<lparr>now = m, deadline = None, strm = \<lparr>incoming = None, outgoing = []\<rparr>\<rparr>\<rparr>"

subsection \<open>One turn of the client\<close>

lemma link_calls [simp]:
  "io_write_all link_api b s = (Ready_in 0 (Inr ()), s\<lparr>outgoing := outgoing s @ b\<rparr>)"
  "io_flush link_api s = (Ready_in 0 (Inr ()), s)"
  "incoming s = Some (w, bs) \<Longrightarrow> io_read_until link_api c s = (Ready_in w (Inr bs), s\<lparr>incoming := None\<rparr>)"
  "incoming s = Some (w, x # bs) \<Longrightarrow> io_read link_api (Suc 0) s =
     (Ready_in w (Inr [x]), s\<lparr>incoming := (if bs = [] then None else Some (0, bs))\<rparr>)"
  by (simp_all add: link_api_def)

lemma client_turn:
  assumes iv: "tick_source iv due period" and t: "deadline t = None"
  shows "\<exists>i' x tc. keepalive_client_step link_api iv (i, n) (receiving r answer t) =
      Some (Fin (pong_received i' n x) tc) \<and>
    x = (if r \<le> READ_TIMEOUT then Some (Inr answer) else None) \<and>
    now tc = max (now t) (due i) + min r READ_TIMEOUT \<and> deadline tc = None \<and>
    outgoing (strm tc) = PING_MESSAGE \<and> due i' = due i + period i \<and> period i' = period i"
proof -
  let ?n = "max (now t) (due i)" and ?i = "snd (iv_tick iv (now t) i)"
  let ?w = "\<lparr>incoming = Some (r, answer), outgoing = PING_MESSAGE\<rparr>"
  let ?t = "t\<lparr>now := ?n, strm := ?w\<rparr>"
  have tick: "tick iv i (receiving r answer t) = Some (Fin ?i ((receiving r answer t)\<lparr>now := ?n\<rparr>))"
    using tick_source.tick_wait [OF iv, of "now t" i] t
    by (auto simp: tick_def await_free receiving_def split: prod.splits)
  let ?read = "timeout READ_TIMEOUT (await (io_read_until link_api newline))"
  have step: "keepalive_client_step link_api iv (i, n) (receiving r answer t) =
      map_async (pong_received ?i n) ?read ?t"
    using t by (simp add: keepalive_client_step_def bind_async_apply [of "tick iv i"] tick [unfolded receiving_def]
        bind_async_apply [of "await (io_write_all link_api PING_MESSAGE)"]
        bind_async_apply [of "await (io_flush link_api)"] await_free receiving_def)
  have "\<exists>tc. ?read ?t = Some (Fin (if r \<le> READ_TIMEOUT then Some (Inr answer) else None) tc) \<and>
      now tc = ?n + min r READ_TIMEOUT \<and> deadline tc = None \<and> outgoing (strm tc) = PING_MESSAGE"
  proof (cases "r \<le> READ_TIMEOUT")
    case True
    then show ?thesis
      using t timeout_free_Fin [of ?t "await (io_read_until link_api newline)" READ_TIMEOUT "Inr answer"]
      by (simp add: await_def)
  next
    case False
    then show ?thesis
      using t timeout_free_Cut [of ?t "await (io_read_until link_api newline)" READ_TIMEOUT]
      by (simp add: await_def)
  qed
  then show ?thesis
    using tick_source.tick_due [OF iv, of "now t" i] tick_source.tick_period [OF iv, of "now t" i]
    unfolding step by (auto simp: map_async_def bind_async_apply ret_def)
qed

subsection \<open>One turn of the server\<close>

lemma read_message_link:
  assumes "newline \<notin> set l" "deadline t = Some D" "now t + w \<le> D"
    and "incoming (strm t) = Some (w, l @ [newline])"
  shows "loop_async (read_message_step link_api) buf t = Some (Fin (Inr (buf @ l @ [newline]))
    (t\<lparr>now := now t + w, strm := (strm t)\<lparr>incoming := None\<rparr>\<rparr>))"
  using assms
proof (induction l arbitrary: t w buf)
  case Nil
  then have "read_message_step link_api buf t = Some (Fin (Break (Inr (buf @ [newline])))
      (t\<lparr>now := now t + w, strm := (strm t)\<lparr>incoming := None\<rparr>\<rparr>))"
    by (simp add: read_message_step_def await_io_def map_async_def bind_async_apply await_def ret_def)
  from loop_async_Break [of "read_message_step link_api", OF this] show ?case by simp
next
  case (Cons c l)
  let ?t = "t\<lparr>now := now t + w, strm := (strm t)\<lparr>incoming := Some (0, l @ [newline])\<rparr>\<rparr>"
  have "read_message_step link_api buf t = Some (Fin (Continue (buf @ [c])) ?t)"
    using Cons.prems
    by (auto simp: read_message_step_def await_io_def map_async_def bind_async_apply await_def ret_def)
  note cont = loop_async_Continue [of "read_message_step link_api", OF this]
  have "loop_async (read_message_step link_api) (buf @ [c]) ?t =
      Some (Fin (Inr ((buf @ [c]) @ l @ [newline]))
        (?t\<lparr>now := now ?t + 0, strm := (strm ?t)\<lparr>incoming := None\<rparr>\<rparr>))"
    by (rule Cons.IH) (use Cons.prems in simp_all)
  with cont show ?case by simp
qed

lemma server_turn:
  assumes t: "deadline t = None"
  shows "(if w \<le> KEEP_ALIVE_INTERVAL + READ_TIMEOUT
    then \<exists>ts. control_channel_step link_api bias None n (receiving w PING_MESSAGE t) =
        Some (Fin (Continue (Suc n)) ts) \<and> now ts = now t + w \<and> deadline ts = None \<and>
      outgoing (strm ts) = PONG_MESSAGE
    else \<exists>ts. control_channel_step link_api bias None n (receiving w PING_MESSAGE t) =
        Some (Fin (Break True) ts))"
proof -
  let ?d = "KEEP_ALIVE_INTERVAL + READ_TIMEOUT"
  let ?t = "(receiving w PING_MESSAGE t)\<lparr>deadline := Some (now t + ?d)\<rparr>"
  let ?read = "select_cancelled (bias n) None (timeout ?d (read_message link_api))"
  have ping: "PING_MESSAGE = ''PING'' @ [newline]" "newline \<notin> set ''PING''"
    by (simp_all add: PING_MESSAGE_def)
  show ?thesis
  proof (cases "w \<le> ?d")
    case True
    have "loop_async (read_message_step link_api) [] ?t = Some (Fin (Inr ([] @ ''PING'' @ [newline]))
        (?t\<lparr>now := now ?t + w, strm := (strm ?t)\<lparr>incoming := None\<rparr>\<rparr>))"
      by (rule read_message_link [of "''PING''" ?t "now t + ?d" w])
        (use True ping in \<open>simp_all add: receiving_def\<close>)
    from timeout_free_Fin [of "receiving w PING_MESSAGE t" "read_message link_api" ?d, folded ping(1)] this t
    have "?read (receiving w PING_MESSAGE t) = Some (Fin (Some (Some (Inr PING_MESSAGE)))
        \<lparr>now = now t + w, deadline = None, strm = \<lparr>incoming = None, outgoing = []\<rparr>\<rparr>)"
      by (simp add: read_message_def receiving_def select_never_cancelled map_async_Fin ping(1))
    then show ?thesis
      using True by (simp add: control_channel_step_def bind_async_apply [of ?read] await_free
          bind_async_apply [of "await (io_write_all link_api PONG_MESSAGE)"]
          bind_async_apply [of "await (io_flush link_api)"] ret_def PING_MESSAGE_def)
  next
    case False
    then have "await_io (io_read link_api 1) ?t = Some (Cut (?t\<lparr>now := now t + ?d\<rparr>))"
      by (simp add: await_io_def map_async_def bind_async_apply await_def receiving_def PING_MESSAGE_def)
    then have "read_message_step link_api [] ?t = Some (Cut (?t\<lparr>now := now t + ?d\<rparr>))"
      by (simp add: read_message_step_def bind_async_apply)
    from loop_async_Cut [of "read_message_step link_api", OF this]
      timeout_free_Cut [of "receiving w PING_MESSAGE t" "read_message link_api" ?d] t
    have "\<exists>u. ?read (receiving w PING_MESSAGE t) = Some (Fin (Some None) u)"
      by (auto simp: read_message_def receiving_def select_never_cancelled map_async_Fin)
    then show ?thesis
      using False by (auto simp: control_channel_step_def bind_async_apply [of ?read] ret_def)
  qed
qed

subsection \<open>Rounds\<close>

text \<open>
  Where the two loops are after \<open>k\<close> rounds: the client's next tick is due \<open>k\<close> periods after its
  start and it is there in time, and the server has been reading for at most one period then.
\<close>

definition after_rounds ::
  "('i \<Rightarrow> nat) \<Rightarrow> ('i \<Rightarrow> nat) \<Rightarrow> nat \<Rightarrow> nat \<Rightarrow> 'i exchange \<Rightarrow> bool" where
  "after_rounds due period n k x \<longleftrightarrow>
     snd (client_loop x) = word_of_nat k \<and>
     due (fst (client_loop x)) = n + k * KEEP_ALIVE_INTERVAL \<and>
     period (fst (client_loop x)) = KEEP_ALIVE_INTERVAL \<and>
     now (client_side x) \<le> n + k * KEEP_ALIVE_INTERVAL \<and> deadline (client_side x) = None \<and>
     server_loop x = k \<and> deadline (server_side x) = None \<and>
     now (server_side x) \<le> n + k * KEEP_ALIVE_INTERVAL \<and>
     n + k * KEEP_ALIVE_INTERVAL \<le> now (server_side x) + KEEP_ALIVE_INTERVAL"

lemma after_start:
  assumes "tick_source iv due period" "m \<le> n" "n \<le> m + KEEP_ALIVE_INTERVAL"
  shows "after_rounds due period n 0 (exchange_start iv n m)"
  using assms tick_source.new_due [OF assms(1)] tick_source.new_period [OF assms(1)]
  by (simp add: after_rounds_def exchange_start_def keepalive_client_start_def)

text \<open>The two constants are both 30 seconds; the argument only needs that they are equal.\<close>

lemma interval_is_timeout: "READ_TIMEOUT = KEEP_ALIVE_INTERVAL" "KEEP_ALIVE_INTERVAL = from_secs 30"
  by (simp_all add: READ_TIMEOUT_def KEEP_ALIVE_INTERVAL_def CONNECTION_KEEPALIVE_READ_TIMEOUT_def
      CONNECTION_KEEPALIVE_INTERVAL_def)

lemma pong_received_Continue:
  "pong_received i n x = Continue c \<longleftrightarrow> x = Some (Inr PONG_MESSAGE) \<and> c = (i, n + 1)"
  by (auto simp: pong_received_def PONG_MESSAGE_def split: option.splits sum.splits)

lemma round_happens:
  assumes iv: "tick_source iv due period" and inv: "after_rounds due period n k x"
    and d: "a + b \<le> READ_TIMEOUT"
  shows "\<exists>y. exchange_round iv bias a b x y"
proof -
  let ?s = "n + k * KEEP_ALIVE_INTERVAL" and ?w = "n + k * KEEP_ALIVE_INTERVAL + a - now (server_side x)"
  obtain i p where c: "client_loop x = (i, p)" by (cases "client_loop x")
  have x: "deadline (client_side x) = None" "deadline (server_side x) = None" "due i = ?s"
    "now (client_side x) \<le> ?s" "now (server_side x) \<le> ?s" "?s \<le> now (server_side x) + KEEP_ALIVE_INTERVAL"
    using inv c by (simp_all add: after_rounds_def)
  have "?w \<le> KEEP_ALIVE_INTERVAL + READ_TIMEOUT" using x(6) d by simp
  with server_turn [OF x(2), where w = ?w and bias = bias and n = "server_loop x"] obtain ts where ts:
    "control_channel_step link_api bias None (server_loop x) (receiving ?w PING_MESSAGE (server_side x)) =
       Some (Fin (Continue (Suc (server_loop x))) ts)"
    "now ts = now (server_side x) + ?w" "outgoing (strm ts) = PONG_MESSAGE" by auto
  obtain i' tc where tc: "keepalive_client_step link_api iv (i, p) (receiving (a + b) PONG_MESSAGE (client_side x)) =
      Some (Fin (pong_received i' p (Some (Inr PONG_MESSAGE))) tc)"
    "now tc = max (now (client_side x)) (due i) + (a + b)" "outgoing (strm tc) = PING_MESSAGE"
    using client_turn [OF iv x(1), of i p "a + b" PONG_MESSAGE] d by auto
  have times: "now tc = ?s + (a + b)" "now ts = ?s + a"
    using tc(2) ts(2) x(3-5) by simp_all
  have "exchange_round iv bias a b x
      \<lparr>client_loop = (i', p + 1), client_side = tc, server_loop = Suc (server_loop x), server_side = ts\<rparr>"
  proof (rule exchange_round.intros [where r = "a + b" and w = ?w])
    show "keepalive_client_step link_api iv (client_loop x)
        (receiving (a + b) (outgoing (strm ts)) (client_side x)) = Some (Fin (Continue (i', p + 1)) tc)"
      using tc(1) by (simp add: c ts(3) pong_received_def PONG_MESSAGE_def)
  qed (use ts tc(3) times in simp_all)
  then show ?thesis by blast
qed

lemma round_shape:
  assumes iv: "tick_source iv due period" and inv: "after_rounds due period n k x"
    and round: "exchange_round iv bias a b x y"
  shows "a + b \<le> READ_TIMEOUT \<and> after_rounds due period n (Suc k) y \<and>
    now (server_side y) = n + k * KEEP_ALIVE_INTERVAL + a \<and>
    now (client_side y) = n + k * KEEP_ALIVE_INTERVAL + a + b \<and>
    outgoing (strm (client_side y)) = PING_MESSAGE \<and> outgoing (strm (server_side y)) = PONG_MESSAGE"
  using round
proof (cases rule: exchange_round.cases)
  case (1 r ts c tc w m)
  let ?s = "n + k * KEEP_ALIVE_INTERVAL"
  obtain i p where cl: "client_loop x = (i, p)" by (cases "client_loop x")
  have x: "deadline (client_side x) = None" "deadline (server_side x) = None" "due i = ?s"
    "now (client_side x) \<le> ?s" "now (server_side x) \<le> ?s" "p = word_of_nat k" "server_loop x = k"
    "period i = KEEP_ALIVE_INTERVAL"
    using inv cl by (simp_all add: after_rounds_def)
  obtain i' answer tc' where "keepalive_client_step link_api iv (i, p)
      (receiving r (outgoing (strm ts)) (client_side x)) = Some (Fin (pong_received i' p answer) tc')"
    "answer = (if r \<le> READ_TIMEOUT then Some (Inr (outgoing (strm ts))) else None)"
    "now tc' = max (now (client_side x)) (due i) + min r READ_TIMEOUT" "deadline tc' = None"
    "outgoing (strm tc') = PING_MESSAGE" "due i' = due i + period i" "period i' = period i"
    using client_turn [OF iv x(1), of i p r "outgoing (strm ts)"] by blast
  moreover from this(1) have "pong_received i' p answer = Continue c" "tc' = tc"
    using 1(2) cl by simp_all
  ultimately have r: "r \<le> READ_TIMEOUT" "now tc = ?s + r" "deadline tc = None" "c = (i', p + 1)"
    "outgoing (strm tc) = PING_MESSAGE" "outgoing (strm ts) = PONG_MESSAGE"
    "due i' = ?s + KEEP_ALIVE_INTERVAL" "period i' = KEEP_ALIVE_INTERVAL"
    using x by (auto simp: pong_received_Continue split: if_splits)
  have w: "w = ?s + a - now (server_side x)" using 1(4) r(2) by simp
  have "w \<le> KEEP_ALIVE_INTERVAL + READ_TIMEOUT \<and> now ts = now (server_side x) + w \<and> deadline ts = None \<and>
      m = Suc (server_loop x)"
    using server_turn [OF x(2), where w = w and bias = bias and n = "server_loop x"] 1(3) r(5)
    by (auto split: if_splits)
  then have ts: "now ts = ?s + a" "deadline ts = None" "m = Suc k" using w x(5,7) by auto
  have "r = a + b" using 1(5) r(2) ts(1) by simp
  with 1(1) r ts x(6) show ?thesis
    by (simp add: after_rounds_def interval_is_timeout(1) algebra_simps)
qed

lemma run_after_rounds:
  assumes "exchange_run iv bias x delays y" "tick_source iv due period" "after_rounds due period n 0 x"
  shows "after_rounds due period n (length delays) y"
  using assms(1,3)
  by (induction rule: exchange_run.induct) (auto dest: round_shape [OF assms(2)])

subsection \<open>Properties\<close>



end
