(* ===== verification/Metrics_Endpoint.thy ===== *)
theory Metrics_Endpoint
  imports Client_System
begin

section \<open>The metrics endpoint of the client (\<open>src/client/metrics.rs\<close>)\<close>

text \<open>
  The endpoint answers requests for \<open>/metrics\<close> with the counters of the process as a text.
  What the module takes from prometheus and from warp is a parameter: \<open>gather\<close> turns the
  counters that have been registered into metric families, \<open>encode\<close> writes families to the end
  of a buffer, \<open>path_is\<close> tests the path of a request for a segment, \<open>with_header\<close> makes a reply
  from a body and a header, and \<open>warp_run\<close> serves a filter at an address.
\<close>

subsection \<open>Model\<close>

type_synonym registry = "(string \<times> u64) list"

record 'fam prometheus_api =
  gather :: "registry \<Rightarrow> 'fam list"
  encode :: "'fam list \<Rightarrow> bytes \<Rightarrow> io_error + bytes"
  format_type :: string

record ('req, 'resp) warp_api =
  path_is :: "string \<Rightarrow> 'req \<Rightarrow> bool"
  with_header :: "bytes \<Rightarrow> string \<Rightarrow> string \<Rightarrow> 'resp"

text \<open>A filter rejects a request or replies to it, unless its function panics.\<close>

datatype 'resp answer = Rejected | Panicked string | Replied 'resp

definition metrics_filter ::
  "('req, 'resp) warp_api \<Rightarrow> 'fam prometheus_api \<Rightarrow> registry \<Rightarrow> 'req \<Rightarrow> 'resp answer" where
  "metrics_filter warp prom registry req =
     (if path_is warp ''metrics'' req then
        let metric_families = gather prom registry in
        case encode prom metric_families [] of
          Inl e \<Rightarrow> Panicked ''Failed to encode metrics''
        | Inr buffer \<Rightarrow> Replied (with_header warp buffer ''Content-Type'' (format_type prom))
      else Rejected)"

definition start_metrics_server ::
  "('req, 'resp) warp_api \<Rightarrow> 'fam prometheus_api \<Rightarrow>
   ((registry \<Rightarrow> 'req \<Rightarrow> 'resp answer) \<Rightarrow> 'addr \<Rightarrow> 'out) \<Rightarrow> 'addr \<Rightarrow> 'out" where
  "start_metrics_server warp prom warp_run addr = warp_run (metrics_filter warp prom) addr"

subsection \<open>The counters of the client\<close>

text \<open>
  The counters are \<open>lazy_static\<close>: a counter is registered when the program first uses it.  \<open>ks\<close>
  are those used so far, and \<open>es\<close> the increments the program has made.
\<close>

definition client_registry :: "client_counter list \<Rightarrow> client_counter increments \<Rightarrow> registry" where
  "client_registry ks es = map (\<lambda>k. (client_counter_name k, counted k es)) ks"

lemma client_registry_distinct: "distinct ks \<Longrightarrow> distinct (map fst (client_registry ks es))"
  using inj_client_counter_name
  by (simp add: client_registry_def o_def distinct_map inj_on_subset [OF _ subset_UNIV])

text \<open>
  What prometheus documents: the text has a line with name and value for every counter.  The
  value of a counter passes through a 64-bit float, which is exact below \<open>2 ^ 53\<close>.
\<close>

definition metric_name :: "string \<Rightarrow> bool" where
  "metric_name = list_all (\<lambda>c. c \<in> set ''abcdefghijklmnopqrstuvwxyz_'')"

definition metric_line :: "string \<Rightarrow> nat \<Rightarrow> string" where
  "metric_line name v = name @ '' '' @ to_dec v"

definition prometheus_ok :: "'fam prometheus_api \<Rightarrow> bool" where
  "prometheus_ok prom \<longleftrightarrow>
     (\<forall>registry buffer. distinct (map fst registry) \<longrightarrow> (\<forall>name \<in> fst ` set registry. metric_name name) \<longrightarrow>
        (\<exists>body. encode prom (gather prom registry) buffer = Inr (buffer @ body) \<and>
          (\<forall>name v. (name, v) \<in> set registry \<longrightarrow> unat v < 2 ^ 53 \<longrightarrow>
             metric_line name (unat v) \<in> set (lines body))))"

lemma client_counter_metric_name: "metric_name (client_counter_name k)"
  by (cases k) (simp_all add: metric_name_def)

lemma metrics_filter_replies:
  assumes prom: "prometheus_ok prom" and ks: "distinct ks" and path: "path_is warp ''metrics'' req"
  obtains body where
    "metrics_filter warp prom (client_registry ks es) req =
       Replied (with_header warp body ''Content-Type'' (format_type prom))"
    "\<And>k. k \<in> set ks \<Longrightarrow> unat (counted k es) < 2 ^ 53 \<Longrightarrow>
       metric_line (client_counter_name k) (unat (counted k es)) \<in> set (lines body)"
proof -
  have "\<forall>name \<in> fst ` set (client_registry ks es). metric_name name"
    using client_counter_metric_name by (auto simp: client_registry_def)
  with prom client_registry_distinct [OF ks] obtain body where
    body: "encode prom (gather prom (client_registry ks es)) [] = Inr ([] @ body)"
    "\<And>name v. (name, v) \<in> set (client_registry ks es) \<Longrightarrow> unat v < 2 ^ 53 \<Longrightarrow>
       metric_line name (unat v) \<in> set (lines body)"
    unfolding prometheus_ok_def by blast
  show ?thesis
  proof (rule that)
    show "metrics_filter warp prom (client_registry ks es) req =
       Replied (with_header warp body ''Content-Type'' (format_type prom))"
      using path body(1) by (simp add: metrics_filter_def)
    fix k assume "k \<in> set ks" "unat (counted k es) < 2 ^ 53"
    then show "metric_line (client_counter_name k) (unat (counted k es)) \<in> set (lines body)"
      by (intro body(2)) (auto simp: client_registry_def)
  qed
qed

subsection \<open>A concrete exporter\<close>

text \<open>The text format with one comment and one line per counter, and requests as paths.\<close>

definition metric_text :: "string \<times> u64 \<Rightarrow> bytes" where
  "metric_text m =
     ''# TYPE '' @ fst m @ '' counter'' @ [newline] @ metric_line (fst m) (unat (snd m)) @ [newline]"

definition text_exporter :: "(string \<times> u64) prometheus_api" where
  "text_exporter =
     \<lparr>gather = (\<lambda>registry. registry),
      encode = (\<lambda>families buffer. Inr (buffer @ concat (map metric_text families))),
      format_type = ''text/plain; version=0.0.4''\<rparr>"

definition path_routes :: "(string list, bytes \<times> string \<times> string) warp_api" where
  "path_routes =
     \<lparr>path_is = (\<lambda>name path. path \<noteq> [] \<and> hd path = name), with_header = (\<lambda>b n v. (b, n, v))\<rparr>"

lemma metric_name_clean: "metric_name n \<Longrightarrow> newline \<notin> set n \<and> CHR 0x0D \<notin> set n"
proof -
  assume n: "metric_name n"
  have "c \<noteq> newline \<and> c \<noteq> CHR 0x0D" if "c \<in> set ''abcdefghijklmnopqrstuvwxyz_''" for c
  proof -
    have "newline \<notin> set ''abcdefghijklmnopqrstuvwxyz_''" "CHR 0x0D \<notin> set ''abcdefghijklmnopqrstuvwxyz_''"
      by simp_all
    with that show ?thesis by metis
  qed
  with n show ?thesis unfolding metric_name_def list_all_iff by blast
qed

lemma lines_metric_text:
  assumes "metric_name (fst m)"
  shows "lines (metric_text m @ rest) =
    (''# TYPE '' @ fst m @ '' counter'') # metric_line (fst m) (unat (snd m)) # lines rest"
proof -
  let ?l1 = "''# TYPE '' @ fst m @ '' counter''" and ?l2 = "metric_line (fst m) (unat (snd m))"
  note name = metric_name_clean [OF assms]
  have l1: "newline \<notin> set ?l1" "CHR 0x0D \<notin> set ?l1" using name by auto
  have l2: "newline \<notin> set ?l2" "CHR 0x0D \<notin> set ?l2"
    using name to_dec_no_special by (auto simp: metric_line_def)
  have "metric_text m @ rest = ?l1 @ newline # (?l2 @ newline # rest)"
    by (simp only: metric_text_def append.simps append_assoc)
  with lines_line [OF l1] lines_line [OF l2] show ?thesis by metis
qed

lemma lines_metric_texts:
  "(\<forall>m \<in> set ms. metric_name (fst m)) \<Longrightarrow> m \<in> set ms \<Longrightarrow>
    metric_line (fst m) (unat (snd m)) \<in> set (lines (concat (map metric_text ms)))"
  by (induction ms) (auto simp: lines_metric_text)

lemma text_exporter_ok: "prometheus_ok text_exporter"
  unfolding prometheus_ok_def text_exporter_def using lines_metric_texts by force

subsection \<open>Properties\<close>

lemma counted_used: "counted k es \<noteq> 0 \<Longrightarrow> k \<in> set (map fst es)"
  by (induction es) (auto split: if_splits)

lemma handler_counts:
  assumes "handle_quic_server_connection env config t = Some (Fin (Inr ()) t')"
    and "cw_metrics (strm t) = []" "cw_tasks (strm t) = []"
  shows "counted k (cw_metrics (strm t')) =
    (case k of CONNECTIONS_ACCEPTED \<Rightarrow> word_of_nat (length (forwarded_streams (cw_tasks (strm t'))))
     | CLIENT_CONNECTIONS_OPENED_TOTAL \<Rightarrow> 1 | CLIENT_CONNECTIONS_GRACEFULLY_CLOSED_TOTAL \<Rightarrow> 1 | _ \<Rightarrow> 0)"
  using assms(1)
proof (cases rule: client_handler_inv)
  case (served d send recv q u1 u2 t2 w t3)
  from accept_streams_loop_grown [OF served(8)] served(7) obtain fs where
    fs: "cw_tasks (strm t3) = cw_tasks w @ Keepalive_task (strm u2) # map Forward_task fs"
    "counted k (cw_metrics (strm t3)) = counted k (cw_metrics w) +
      (if k = CONNECTIONS_ACCEPTED then word_of_nat (length fs) else 0)"
    by (auto simp: grown_def client_spawn_def)
  with served(5,6,9) assms(2,3) show ?thesis
    by (cases k) (simp_all add: client_count_def)
qed simp

text \<open>
  C32: when a connection of the client has ended, the endpoint reports it correctly: a request
  for \<open>/metrics\<close> is answered, with the content type of the text format, by a body that has
  a line with one connection opened and closed, and, if the server has opened streams, a line
  with exactly the number of streams for which the client has started forwarding tasks.
\<close>

theorem metrics_endpoint_reports_connection:
  assumes "handle_quic_server_connection env config t = Some (Fin (Inr ()) t')"
    and "cw_metrics (strm t) = []" "cw_tasks (strm t) = []"
    and "prometheus_ok prom" "path_is warp ''metrics'' req"
    and "distinct ks" "set (map fst (cw_metrics (strm t'))) \<subseteq> set ks"
    and "length (forwarded_streams (cw_tasks (strm t'))) = n" "n < 2 ^ 53"
  shows "\<exists>body. metrics_filter warp prom (client_registry ks (cw_metrics (strm t'))) req =
      Replied (with_header warp body ''Content-Type'' (format_type prom)) \<and>
    metric_line ''server_connections_opened_total'' 1 \<in> set (lines body) \<and>
    metric_line ''server_connections_gracefully_closed_total'' 1 \<in> set (lines body) \<and>
    (0 < n \<longrightarrow> metric_line ''connections_accepted_total'' n \<in> set (lines body))"
proof -
  let ?es = "cw_metrics (strm t')"
  note counts = handler_counts [OF assms(1-3)]
  from metrics_filter_replies [OF assms(4,6,5)] obtain body where
    reply: "metrics_filter warp prom (client_registry ks ?es) req =
      Replied (with_header warp body ''Content-Type'' (format_type prom))"
    and line: "\<And>k. k \<in> set ks \<Longrightarrow> unat (counted k ?es) < 2 ^ 53 \<Longrightarrow>
      metric_line (client_counter_name k) (unat (counted k ?es)) \<in> set (lines body)"
    by blast
  have shown: "metric_line (client_counter_name k) (unat (counted k ?es)) \<in> set (lines body)"
    if "counted k ?es \<noteq> 0" "unat (counted k ?es) < 2 ^ 53" for k
    using that assms(7) counted_used [of k ?es] by (intro line) auto
  have n: "unat (word_of_nat n :: u64) = n"
    using assms(9) by (simp add: unat_of_nat take_bit_nat_eq_self)
  have accepted: "metric_line ''connections_accepted_total'' n \<in> set (lines body)" if "0 < n"
  proof -
    have "counted CONNECTIONS_ACCEPTED ?es = word_of_nat n" using counts assms(8) by simp
    moreover have "(word_of_nat n :: u64) \<noteq> 0" using n that by (metis unat_0 less_irrefl)
    ultimately show ?thesis using shown [of CONNECTIONS_ACCEPTED] n assms(9) by simp
  qed
  show ?thesis
    using reply accepted shown [of CLIENT_CONNECTIONS_OPENED_TOTAL]
      shown [of CLIENT_CONNECTIONS_GRACEFULLY_CLOSED_TOTAL] counts by auto
qed

lemma length_forwarded_streams: "length (forwarded_streams ts) \<le> length ts"
  by (induction ts rule: forwarded_streams.induct) simp_all

theorem metrics_endpoint_reports_connection_witness:
  "\<exists>t' body. handle_quic_server_connection stream_list_env sample_client_config
      (stream_list_task [[request_text sample_challenge_text, ''HAPPY'' @ [newline]], [''GET /'']]) =
      Some (Fin (Inr ()) t') \<and>
    metrics_filter path_routes text_exporter
      (client_registry (remdups (map fst (cw_metrics (strm t')))) (cw_metrics (strm t'))) [''metrics''] =
      Replied (body, ''Content-Type'', ''text/plain; version=0.0.4'') \<and>
    metric_line ''server_connections_opened_total'' 1 \<in> set (lines body)"
proof -
  let ?t = "stream_list_task [[request_text sample_challenge_text, ''HAPPY'' @ [newline]], [''GET /'']]"
  obtain t' where run: "handle_quic_server_connection stream_list_env sample_client_config ?t =
      Some (Fin (Inr ()) t')" and tasks: "length (cw_tasks (strm t')) = 2"
    using sample_client_run [of sample_client_config "[[''GET /'']]"] by auto
  have small: "length (forwarded_streams (cw_tasks (strm t'))) < 2 ^ 53"
    using length_forwarded_streams [of "cw_tasks (strm t')"] tasks by simp
  have fresh: "cw_metrics (strm ?t) = []" "cw_tasks (strm ?t) = []"
    by (simp_all add: stream_list_task_def)
  have path: "path_is path_routes ''metrics'' [''metrics'']" by (simp add: path_routes_def)
  have used: "set (map fst (cw_metrics (strm t'))) \<subseteq> set (remdups (map fst (cw_metrics (strm t'))))"
    by simp
  from metrics_endpoint_reports_connection [OF run fresh text_exporter_ok path distinct_remdups used
      HOL.refl small]
  obtain body where "metrics_filter path_routes text_exporter
      (client_registry (remdups (map fst (cw_metrics (strm t')))) (cw_metrics (strm t'))) [''metrics''] =
      Replied (with_header path_routes body ''Content-Type'' (format_type text_exporter))"
    "metric_line ''server_connections_opened_total'' 1 \<in> set (lines body)"
    by blast
  with run show ?thesis
    by (auto simp: path_routes_def text_exporter_def)
qed

text \<open>Requests for other paths are left to other filters, of which the server has none.\<close>

lemma other_paths_rejected:
  "\<not> path_is warp ''metrics'' req \<Longrightarrow> metrics_filter warp prom registry req = Rejected"
  by (simp add: metrics_filter_def)

end
