(* ===== verification/Auth_Duplex.thy ===== *)
theory Auth_Duplex
  imports Protocol_Auth
begin

section \<open>Both sides of the handshake on one duplex stream (\<open>src/protocol/auth.rs\<close>)\<close>

text \<open>
  The theorems of \<open>Protocol_Auth\<close> give each side its input.  Here the two sides run against each
  other: what one writes is what the other reads.  An end of the duplex stream is the list of the
  chunks that have arrived and the bytes written; reading waits when nothing has arrived.  The
  two functions are deterministic, so a run is found in rounds: in each, both sides are run on
  what has arrived so far, until they return or wait, and what they have newly written arrives,
  in one piece, at the other end.  The sides never write more than the 1024 bytes of the buffer
  of the tests' stream, so writing does not wait.
\<close>

subsection \<open>Model\<close>

definition duplex_api :: "pipe_end io_api" where
  "duplex_api = pipe_api
     \<lparr>io_read := (\<lambda>n s. case bi_read s of
        [] \<Rightarrow> (Never, s)
      | c # cs \<Rightarrow> (Ready_in 0 (Inr (take n c)), s\<lparr>bi_read := drop_chunks (min n (length c)) (c # cs)\<rparr>)),
      io_read_exact := (\<lambda>n s.
        if length (concat (bi_read s)) < n then (Never, s)
        else (Ready_in 0 (Inr (take n (concat (bi_read s)))), s\<lparr>bi_read := drop_chunks n (bi_read s)\<rparr>))\<rparr>"

text \<open>An instant at which whatever does not go on at once is cut off.\<close>

definition at_once :: "pipe_end \<Rightarrow> pipe_end task" where
  "at_once s = \<lparr>now = 0, deadline = Some 0, strm = s\<rparr>"

text \<open>One side on what has arrived: its result, unless it waits, and what it has written.\<close>

definition duplex_side :: "(pipe_end, 'a) async \<Rightarrow> bytes list \<Rightarrow> 'a option \<times> bytes" where
  "duplex_side m received =
     (case m (at_once (BiStream_new received [] ''duplex'')) of
        Some (Fin r t) \<Rightarrow> (Some r, bi_write (strm t))
      | Some (Cut t) \<Rightarrow> (None, bi_write (strm t))
      | None \<Rightarrow> (None, []))"

definition hand_over :: "bytes list \<Rightarrow> bytes \<Rightarrow> bytes list" where
  "hand_over received written =
     (let new = drop (length (concat received)) written
      in if new = [] then received else received @ [new])"

fun duplex_rounds ::
  "nat \<Rightarrow> (pipe_end, 'a) async \<Rightarrow> (pipe_end, 'b) async \<Rightarrow> bytes list \<times> bytes list" where
  "duplex_rounds 0 a b = ([], [])"
| "duplex_rounds (Suc k) a b =
     (case duplex_rounds k a b of (ra, rb) \<Rightarrow>
        (hand_over ra (snd (duplex_side b rb)), hand_over rb (snd (duplex_side a ra))))"

definition duplex_results ::
  "nat \<Rightarrow> (pipe_end, 'a) async \<Rightarrow> (pipe_end, 'b) async \<Rightarrow> 'a option \<times> 'b option" where
  "duplex_results k a b =
     (case duplex_rounds k a b of (ra, rb) \<Rightarrow> (fst (duplex_side a ra), fst (duplex_side b rb)))"

subsection \<open>Running one side\<close>

lemma strm_at_once [simp]: "strm (at_once s) = s"
  by (simp add: at_once_def)

lemma await_at_once:
  "op s = (Ready_in 0 a, s') \<Longrightarrow> await op (at_once s) = Some (Fin a (at_once s'))"
  "op s = (Never, s') \<Longrightarrow> await op (at_once s) = Some (Cut (at_once s))"
  by (simp_all add: await_def at_once_def)

lemma await_io_at_once:
  "op s = (Ready_in 0 (Inr a), s') \<Longrightarrow> await_io op (at_once s) = Some (Fin (Inr a) (at_once s'))"
  "op s = (Never, s') \<Longrightarrow> await_io op (at_once s) = Some (Cut (at_once s))"
  by (simp_all add: await_io_def map_async_def bind_async_apply await_at_once ret_def)

lemma duplex_calls:
  "io_write_all duplex_api b s = (Ready_in 0 (Inr ()), s\<lparr>bi_write := bi_write s @ b\<rparr>)"
  "io_flush duplex_api s = (Ready_in 0 (Inr ()), s)"
  "bi_read s = [] \<Longrightarrow> io_read duplex_api n s = (Never, s)"
  "bi_read s = c # cs \<Longrightarrow> length c \<le> n \<Longrightarrow> c \<noteq> [] \<Longrightarrow>
     io_read duplex_api n s = (Ready_in 0 (Inr c), s\<lparr>bi_read := cs\<rparr>)"
  "length (concat (bi_read s)) < n \<Longrightarrow> io_read_exact duplex_api n s = (Never, s)"
  "n \<le> length (concat (bi_read s)) \<Longrightarrow> io_read_exact duplex_api n s =
     (Ready_in 0 (Inr (take n (concat (bi_read s)))), s\<lparr>bi_read := drop_chunks n (bi_read s)\<rparr>)"
  by (simp_all add: duplex_api_def pipe_api_def BiStream_api_def on_write_def pipe_writer_def min_def)

lemma duplex_write:
  "try_async (await_io (io_write_all duplex_api b)) (\<lambda>_. try_async (await_io (io_flush duplex_api)) (\<lambda>_. m))
     (at_once s) = m (at_once (s\<lparr>bi_write := bi_write s @ b\<rparr>))"
  by (simp add: try_async_apply await_io_at_once duplex_calls)

lemma try_await_waits:
  "op s = (Never, s') \<Longrightarrow> try_async (await_io op) f (at_once s) = Some (Cut (at_once s))"
  by (simp add: try_async_def bind_async_def await_io_at_once)

lemma try_await_ready:
  "op s = (Ready_in 0 (Inr a), s') \<Longrightarrow> try_async (await_io op) f (at_once s) = f a (at_once s')"
  by (simp add: try_async_apply await_io_at_once)

subsection \<open>The two sides of the handshake\<close>

abbreviation verdict_text :: "bool \<Rightarrow> bytes" where
  "verdict_text ok \<equiv> (if ok then ''HAPPY'' else ''BAD'') @ [newline]"

lemma server_waits:
  assumes "crypto_ok cr" "getrandom_fill cr 32 = Inr rnd"
  shows "duplex_side (server_authenticate duplex_api cr psk tp) [] =
    (None, request_text (server_challenge cr rnd tp))"
  by (simp add: duplex_side_def server_authenticate_unfold [OF assms] duplex_write server_verify_def
      try_await_waits duplex_calls BiStream_new_def)

lemma server_decides:
  assumes cr: "crypto_ok cr" "getrandom_fill cr 32 = Inr rnd"
    and ch: "ch = server_challenge cr rnd tp"
  shows "duplex_side (server_authenticate duplex_api cr psk tp) [auth_response cr ch psk' @ [newline]] =
    (Some (if auth_response cr ch psk' = auth_response cr ch psk then Inr ()
       else Inl (Msg ''Authentication failed: response mismatch'')),
     request_text ch @ verdict_text (auth_response cr ch psk' = auth_response cr ch psk))"
proof -
  let ?r = "auth_response cr ch psk' @ [newline]"
  have len: "length ?r = 129" using auth_response_text(1) [OF cr(1)] by simp
  have utf8: "from_utf8 ?r = Some ?r"
    using hex_text(1) [OF auth_response_text(2) [OF cr(1)]] by (intro from_utf8_ascii) simp
  have full: "io_read_exact duplex_api 129 s = (Ready_in 0 (Inr ?r), s\<lparr>bi_read := []\<rparr>)"
    if "bi_read s = [?r]" for s
    using len that duplex_calls(6) [of 129 s] by simp
  have verify: "server_verify duplex_api cr ch psk (at_once s) =
      Some (Fin (if auth_response cr ch psk' = auth_response cr ch psk then Inr ()
         else Inl (Msg ''Authentication failed: response mismatch''))
       (at_once (s\<lparr>bi_read := [], bi_write := bi_write s @
          verdict_text (auth_response cr ch psk' = auth_response cr ch psk)\<rparr>)))"
    if "bi_read s = [?r]" for s
    unfolding server_verify_def Let_def
    using utf8 trim_end_response [OF cr(1), of ch psk']
    by (simp add: try_await_ready [where op = "io_read_exact duplex_api 129", OF full [OF that]]
        duplex_write ret_def)
  show ?thesis
    using verify [of "BiStream_new [?r] [] ''duplex''\<lparr>bi_write := request_text ch\<rparr>"]
    by (simp add: duplex_side_def server_authenticate_unfold [OF cr] duplex_write BiStream_new_def flip: ch)
qed

lemma client_waits:
  "duplex_side (client_authenticate duplex_api cr psk) [] = (None, [])"
  by (simp add: duplex_side_def client_authenticate_def try_await_waits duplex_calls BiStream_new_def)

lemma client_answers:
  assumes ch: "ascii ch" "newline \<notin> set ch" "CHR 0x0D \<notin> set ch"
    and len: "length (request_text ch) \<le> 256"
    and cs: "bi_read s = request_text ch # cs"
  shows "client_authenticate duplex_api cr psk (at_once s) =
    client_verdict duplex_api (at_once
      (s\<lparr>bi_read := cs, bi_write := bi_write s @ auth_response cr ch psk @ [newline]\<rparr>))"
proof -
  have ne: "request_text ch \<noteq> []" by (simp add: request_text_def)
  have read: "io_read duplex_api CHALLENGE_REQUEST_BUFFER_LENGTH s =
      (Ready_in 0 (Inr (request_text ch)), s\<lparr>bi_read := cs\<rparr>)"
    using duplex_calls(4) [OF cs _ ne] len by (simp add: CHALLENGE_REQUEST_BUFFER_LENGTH_def)
  show ?thesis
    unfolding client_authenticate_def
    by (simp add: try_await_ready [where op = "io_read duplex_api CHALLENGE_REQUEST_BUFFER_LENGTH", OF read]
        from_utf8_ascii ascii_request ch lines_request duplex_write)
qed

lemma client_waits_for_verdict:
  assumes "ascii ch" "newline \<notin> set ch" "CHR 0x0D \<notin> set ch" "length (request_text ch) \<le> 256"
  shows "duplex_side (client_authenticate duplex_api cr psk) [request_text ch] =
    (None, auth_response cr ch psk @ [newline])"
  using client_answers [OF assms, of "BiStream_new [request_text ch] [] ''duplex''" "[]"]
  by (simp add: duplex_side_def client_verdict_def try_await_waits duplex_calls BiStream_new_def)

lemma client_concludes:
  assumes "ascii ch" "newline \<notin> set ch" "CHR 0x0D \<notin> set ch" "length (request_text ch) \<le> 256"
  shows "duplex_side (client_authenticate duplex_api cr psk) [request_text ch, verdict_text ok] =
    (Some (if ok then Inr () else Inl (Msg ''Server rejected authentication: BAD'')),
     auth_response cr ch psk @ [newline])"
proof -
  have bad: "trim (''BAD'' @ [newline]) = ''BAD''"
    by (simp add: trim_def trim_start_plain plain_byte_def trim_end_newline
        [of "''BAD''", simplified])
  have utf8: "from_utf8 (verdict_text ok) = Some (verdict_text ok)"
    by (rule from_utf8_ascii) simp
  have "client_verdict duplex_api (at_once s) =
      Some (Fin (if ok then Inr () else Inl (Msg ''Server rejected authentication: BAD''))
        (at_once (s\<lparr>bi_read := []\<rparr>)))" if "bi_read s = [verdict_text ok]" for s
  proof -
    have "io_read duplex_api 16 s = (Ready_in 0 (Inr (verdict_text ok)), s\<lparr>bi_read := []\<rparr>)"
      using duplex_calls(4) [OF that] by simp
    then show ?thesis
      unfolding client_verdict_def using utf8 bad
      by (cases ok) (simp_all add: try_await_ready [where op = "io_read duplex_api 16"] ret_def)
  qed
  then show ?thesis
    using client_answers [OF assms, of "BiStream_new [request_text ch, verdict_text ok] [] ''duplex''"
        "[verdict_text ok]"]
    by (simp add: duplex_side_def BiStream_new_def)
qed

subsection \<open>The run\<close>

lemma hand_over_simps [simp]:
  "hand_over [] w = (if w = [] then [] else [w])"
  "hand_over received (concat received @ w) = (if w = [] then received else received @ [w])"
  by (simp_all add: hand_over_def)

lemma hand_over_done: "written = concat received \<Longrightarrow> hand_over received written = received"
  by (simp add: hand_over_def)

lemma handshake_rounds:
  assumes cr: "crypto_ok cr" "getrandom_fill cr 32 = Inr rnd"
    and ch: "ch = server_challenge cr rnd tp"
    and ok: "ok \<longleftrightarrow> auth_response cr ch psk_c = auth_response cr ch psk_s"
  shows "duplex_rounds (3 + k) (server_authenticate duplex_api cr psk_s tp)
      (client_authenticate duplex_api cr psk_c) =
    ([auth_response cr ch psk_c @ [newline]], [request_text ch, verdict_text ok])"
proof (induction k)
  case 0
  let ?S = "server_authenticate duplex_api cr psk_s tp" and ?C = "client_authenticate duplex_api cr psk_c"
  note clean = server_challenge_clean [OF cr, of tp, folded ch]
  have len: "length (request_text ch) \<le> 256" using clean(1) by simp
  have ne: "request_text ch \<noteq> []" by (simp add: request_text_def)
  have 1: "duplex_rounds 1 ?S ?C = ([], [request_text ch])"
    using server_waits [OF cr, of psk_s tp, folded ch] client_waits [of cr psk_c] ne by simp
  have 2: "duplex_rounds 2 ?S ?C = ([auth_response cr ch psk_c @ [newline]], [request_text ch])"
    using 1 server_waits [OF cr, of psk_s tp, folded ch]
      client_waits_for_verdict [OF clean(2-4) len, of cr psk_c]
    by (simp add: numeral_2_eq_2 hand_over_done)
  show ?case
    using 2 server_decides [OF cr ch, of psk_s psk_c]
      client_waits_for_verdict [OF clean(2-4) len, of cr psk_c] ok
      hand_over_simps(2) [of "[request_text ch]" "verdict_text ok"]
    by (simp add: numeral_3_eq_3 numeral_2_eq_2 hand_over_done)
next
  case (Suc k)
  note clean = server_challenge_clean [OF cr, of tp, folded ch]
  have "length (request_text ch) \<le> 256" using clean(1) by simp
  then show ?case
    using server_decides [OF cr ch, of psk_s psk_c] client_concludes [OF clean(2-4), of cr psk_c ok] ok
    unfolding add_Suc_right duplex_rounds.simps Suc by (simp add: hand_over_done)
qed

lemma duplex_handshake:
  assumes "crypto_ok cr" "getrandom_fill cr 32 = Inr rnd" "3 \<le> n"
  shows "duplex_results n (server_authenticate duplex_api cr psk_s tp)
      (client_authenticate duplex_api cr psk_c) =
    (if auth_response cr (server_challenge cr rnd tp) psk_c =
        auth_response cr (server_challenge cr rnd tp) psk_s
     then (Some (Inr ()), Some (Inr ()))
     else (Some (Inl (Msg ''Authentication failed: response mismatch'')),
       Some (Inl (Msg ''Server rejected authentication: BAD''))))"
proof -
  define ch where "ch = server_challenge cr rnd tp"
  note clean = server_challenge_clean [OF assms(1,2), of tp, folded ch_def]
  have "length (request_text ch) \<le> 256" using clean(1) by simp
  moreover from assms(3) obtain k where "n = 3 + k" using le_iff_add by blast
  ultimately show ?thesis
    using handshake_rounds [OF assms(1,2) ch_def refl, of k psk_s psk_c]
      server_decides [OF assms(1,2) ch_def, of psk_s psk_c]
      client_concludes [OF clean(2-4), of cr psk_c
        "auth_response cr ch psk_c = auth_response cr ch psk_s"]
    unfolding duplex_results_def ch_def [symmetric] by (simp only: prod.case fst_conv split: if_split) auto
qed

subsection \<open>Properties\<close>

text \<open>
  C3: the two programs authenticate each other's keys when they run against each other: on one
  duplex stream both return, after three exchanges and for good; both return \<open>Ok\<close> exactly when
  the two keys give the same response to the challenge of this run, and otherwise the server
  returns the mismatch and the client the rejection.
\<close>

theorem authentication_on_duplex:
  assumes "crypto_ok cr" "getrandom_fill cr 32 = Inr rnd" "3 \<le> n"
  shows "duplex_results n (server_authenticate duplex_api cr psk_s tp)
      (client_authenticate duplex_api cr psk_c) =
    (if auth_response cr (server_challenge cr rnd tp) psk_c =
        auth_response cr (server_challenge cr rnd tp) psk_s
     then (Some (Inr ()), Some (Inr ()))
     else (Some (Inl (Msg ''Authentication failed: response mismatch'')),
       Some (Inl (Msg ''Server rejected authentication: BAD''))))"
  using assms by (rule duplex_handshake)

lemma sample_responses_differ:
  "auth_response sample_crypto (server_challenge sample_crypto rnd tp) ''another-test-secret'' \<noteq>
   auth_response sample_crypto (server_challenge sample_crypto rnd tp) ''test-secret''"
  by (simp add: auth_response_def server_challenge_def challenge_text_def sample_crypto_def
      padded_digest_def hex_lower_def hex_char_def)

theorem authentication_on_duplex_witness:
  "duplex_results 3 (server_authenticate duplex_api sample_crypto ''test-secret'' (\<lambda>_. 0))
      (client_authenticate duplex_api sample_crypto ''test-secret'') = (Some (Inr ()), Some (Inr ()))"
  using authentication_on_duplex [OF sample_crypto_ok, of "replicate 32 (CHR 0x2A)" 3 "''test-secret''"
      "\<lambda>_. 0" "''test-secret''"]
  by (simp add: sample_crypto_def)

end
