(* ===== verification/Doc_Examples.thy ===== *)
theory Doc_Examples
  imports Quic_Cert Port_Spec
begin

section \<open>The examples of the documentation (\<open>src/quic/server.rs\<close>, \<open>src/server/mod.rs\<close>)\<close>

text \<open>
  The examples in the documentation comments are programs that \<open>cargo test\<close> runs; here they are
  Booleans over the model, \<open>True\<close> when every assertion holds.  The temporary directory is a
  directory without the two files; \<open>fresh_dir\<close> says that they can be written and read.  The
  lemmas show that the examples hold with every generator of certificates that succeeds.
\<close>

subsection \<open>Model\<close>

definition test_cert_path :: "string \<Rightarrow> string" where
  "test_cert_path dir = path_push dir ''test_cert.der''"

definition test_key_path :: "string \<Rightarrow> string" where
  "test_key_path dir = path_push dir ''test_key.der''"

definition example_load_or_generate :: "cert_tools \<Rightarrow> string \<Rightarrow> file_system \<Rightarrow> bool" where
  "example_load_or_generate ct dir fs =
     (let cert_path = test_cert_path dir; key_path = test_key_path dir in
      case load_or_generate_quic_cert ct ''localhost'' key_path cert_path fs of
        (Some result, fs') \<Rightarrow> is_ok result \<and> fs_exists fs' cert_path \<and> fs_exists fs' key_path
      | (None, fs') \<Rightarrow> False)"

definition example_load :: "cert_tools \<Rightarrow> string \<Rightarrow> file_system \<Rightarrow> bool" where
  "example_load ct dir fs =
     (let cert_path = test_cert_path dir; key_path = test_key_path dir;
          result = load_quic_cert ct key_path cert_path fs
      in \<not> is_ok result)"

definition example_generate :: "cert_tools \<Rightarrow> string \<Rightarrow> file_system \<Rightarrow> bool" where
  "example_generate ct dir fs =
     (let cert_path = test_cert_path dir; key_path = test_key_path dir in
      case generate_quic_cert ct ''localhost'' key_path cert_path fs of
        (Some (Inr (cert_chain, private_key)), fs') \<Rightarrow>
          fs_exists fs' cert_path \<and> fs_exists fs' key_path \<and>
          (case (fs_read fs' cert_path, fs_read fs' key_path) of
             (Inr loaded_cert, Inr loaded_key) \<Rightarrow>
               cert_chain \<noteq> [] \<and> loaded_cert = cert_chain ! 0 \<and> loaded_key = secret_der private_key
           | _ \<Rightarrow> False)
      | _ \<Rightarrow> False)"

definition example_allowed_ports :: bool where
  "example_allowed_ports =
     (let port = 12345; allowed_ports = [Single 80, Range 8000 9000, Single 12345]
      in AllowedPorts_allows allowed_ports port)"

subsection \<open>Lemmas\<close>

definition fresh_dir :: "string \<Rightarrow> file_system \<Rightarrow> bool" where
  "fresh_dir dir fs \<longleftrightarrow>
     list_all (\<lambda>p. files fs p = None \<and> unreadable fs p = None \<and> unwritable fs p = None)
       [test_cert_path dir, test_key_path dir]"

lemma test_paths_differ: "test_key_path dir \<noteq> test_cert_path dir"
proof -
  have "file_name (test_key_path dir) = Some ''test_key.der''"
    "file_name (test_cert_path dir) = Some ''test_cert.der''"
    by (simp_all add: test_key_path_def test_cert_path_def file_name_push)
  then show ?thesis by force
qed

lemma fresh_generate:
  assumes "fresh_dir dir fs" "generate_simple_self_signed ct [name] = Inr (c, k)"
  shows "generate_quic_cert ct name (test_key_path dir) (test_cert_path dir) fs =
    (Some (Inr ([c], Pkcs8 k)), fs\<lparr>files := (files fs)(test_cert_path dir \<mapsto> c, test_key_path dir \<mapsto> k)\<rparr>)"
  using assms by (simp add: generate_quic_cert_def fs_write_def fresh_dir_def)

lemma certificate_examples_hold:
  assumes "fresh_dir dir fs" "generate_simple_self_signed ct [''localhost''] = Inr (c, k)"
  shows "example_load_or_generate ct dir fs" "example_load ct dir fs" "example_generate ct dir fs"
proof -
  note gen = fresh_generate [OF assms]
  show "example_load_or_generate ct dir fs"
    using assms(1) by (simp add: example_load_or_generate_def load_or_generate_quic_cert_def gen
        fs_exists_def fresh_dir_def)
  show "example_load ct dir fs"
    using assms(1) by (simp add: example_load_def load_quic_cert_def fs_read_def fresh_dir_def)
  show "example_generate ct dir fs"
    using assms(1) test_paths_differ [of dir]
    by (simp add: example_generate_def gen fs_exists_def fs_read_def fresh_dir_def)
qed

lemma allowed_ports_example_holds: "example_allowed_ports"
  by (simp add: example_allowed_ports_def AllowedPorts_allows_def)

end
