(* ===== verification/Unit_Tests.thy ===== *)
theory Unit_Tests
  imports Protocol_Keepalive Forward Metrics_Endpoint Auth_Duplex Doc_Examples
begin

section \<open>The unit tests of the crate\<close>

text \<open>
  The test functions of \<open>src/protocol/keepalive.rs\<close>, \<open>src/forward.rs\<close>, \<open>src/bi_stream.rs\<close> and
  \<open>src/client/metrics.rs\<close> as Booleans over the model: \<open>True\<close> when every assertion holds and
  nothing panics.  They run on the streams the tests define; a scripted stream of tokio-test is
  a pipe end that delivers what the script reads, together with a check, at the end, that all of
  it was read and that exactly the scripted bytes were written.  The tests of
  \<open>src/protocol/auth.rs\<close> run both sides on the duplex stream of \<open>Auth_Duplex\<close>.
\<close>

subsection \<open>The keepalive loop of the tests\<close>

text \<open>
  The tests of \<open>keepalive.rs\<close> do not call the loops of the program, but a loop of their own with
  shorter times, which ends after the first answer.
\<close>

definition TEST_KEEP_ALIVE_INTERVAL :: nat where
  "TEST_KEEP_ALIVE_INTERVAL = 100 * 1000000"

definition TEST_READ_TIMEOUT :: nat where
  "TEST_READ_TIMEOUT = 200 * 1000000"

definition test_loop_step ::
  "'s io_api \<Rightarrow> 'i interval_api \<Rightarrow> 'i \<times> usize \<Rightarrow> ('s, ('i \<times> usize, unit) ctl) async" where
  "test_loop_step api iv st =
     (case st of (tick_interval, pong_count) \<Rightarrow>
        bind_async (tick iv tick_interval) (\<lambda>tick_interval.
        bind_async (await (io_write_all api PING_MESSAGE)) (\<lambda>r.
        case r of Inl e \<Rightarrow> ret (Break ()) | Inr _ \<Rightarrow>
        bind_async (await (io_flush api)) (\<lambda>r.
        case r of Inl e \<Rightarrow> ret (Break ()) | Inr _ \<Rightarrow>
        bind_async (timeout TEST_READ_TIMEOUT (await (io_read_until api newline))) (\<lambda>response.
        case response of
          Some (Inr response_buf) \<Rightarrow>
            (if response_buf = [] then ret (Break ())
             else if response_buf = PONG_MESSAGE then
               (if 1 \<le> pong_count + 1 then ret (Break ()) else ret (Continue (tick_interval, pong_count + 1)))
             else ret (Break ()))
        | _ \<Rightarrow> ret (Break ()))))))"

definition run_loop_with_test_interval ::
  "'s io_api \<Rightarrow> 'i interval_api \<Rightarrow> ('s, error + unit) async" where
  "run_loop_with_test_interval api iv t =
     map_async Inr
       (loop_async (test_loop_step api iv) (iv_new iv TEST_KEEP_ALIVE_INTERVAL (now t), 0)) t"

text \<open>The scripted streams, and a stream on which writing fails.\<close>

definition build_good_keepalive :: pipe_end where
  "build_good_keepalive = BiStream_new [''PONG'' @ [newline]] [] ''good''"

definition build_wrong_response :: pipe_end where
  "build_wrong_response = BiStream_new [''WRONG'' @ [newline]] [] ''wrong''"

definition build_write_error :: "pipe_end io_api" where
  "build_write_error =
     pipe_api\<lparr>io_write_all := (\<lambda>b s. (Ready_in 0 (Inl (IoError OtherKind ''write error'')), s))\<rparr>"

definition start_test :: "'s \<Rightarrow> 's task" where
  "start_test s = \<lparr>now = 0, deadline = None, strm = s\<rparr>"

definition passes :: "('s, error + unit) outcome option \<Rightarrow> ('s \<Rightarrow> bool) \<Rightarrow> bool" where
  "passes result script_done =
     (case result of Some (Fin r t) \<Rightarrow> is_ok r \<and> script_done (strm t) | _ \<Rightarrow> False)"

definition test_keepalive_client_good :: bool where
  "test_keepalive_client_good =
     passes (run_loop_with_test_interval pipe_api burst_interval (start_test build_good_keepalive))
       (\<lambda>s. bi_read s = [] \<and> bi_write s = PING_MESSAGE)"

definition test_keepalive_client_wrong_response :: bool where
  "test_keepalive_client_wrong_response =
     passes (run_loop_with_test_interval pipe_api burst_interval (start_test build_wrong_response))
       (\<lambda>s. bi_read s = [] \<and> bi_write s = PING_MESSAGE)"

definition test_keepalive_client_write_error :: bool where
  "test_keepalive_client_write_error =
     passes (run_loop_with_test_interval build_write_error burst_interval
       (start_test (BiStream_new [] [] ''error''))) (\<lambda>s. bi_write s = [])"

definition test_keepalive_client_timeout :: bool where
  "test_keepalive_client_timeout =
     passes (run_loop_with_test_interval NeverRead_api burst_interval (start_test ())) (\<lambda>_. True)"

text \<open>Among all streams: the tests' loop never needs a second round, and never fails.\<close>

lemma test_loop_step_breaks:
  assumes "test_loop_step api iv (i, 0) t = Some (Fin c t')"
  shows "c = Break ()"
  using assms unfolding test_loop_step_def
  by (auto simp: bind_async_apply ret_def split: option.splits outcome.splits sum.splits if_splits)

lemma test_loop_step_returns:
  fixes api :: "'s io_api" and iv :: "'i interval_api"
  assumes t: "deadline t = None"
    and wr: "\<And>s. \<exists>d r s'. io_write_all api PING_MESSAGE s = (Ready_in d r, s')"
    and fl: "\<And>s. \<exists>d r s'. io_flush api s = (Ready_in d r, s')"
  shows "\<exists>t'. test_loop_step api iv (i, 0) t = Some (Fin (Break ()) t')"
proof -
  obtain i' t1 where t1: "tick iv i t = Some (Fin i' t1)" "deadline t1 = None"
    using t by (cases "iv_tick iv (now t) i") (simp add: tick_def await_free)
  obtain d r s where w: "io_write_all api PING_MESSAGE (strm t1) = (Ready_in d r, s)"
    using wr by blast
  let ?t2 = "t1\<lparr>now := now t1 + d, strm := s\<rparr>"
  obtain d' r' s' where f: "io_flush api (strm ?t2) = (Ready_in d' r', s')" using fl by blast
  let ?t3 = "?t2\<lparr>now := now ?t2 + d', strm := s'\<rparr>"
  have "deadline ?t3 = None" using t1(2) by simp
  from timeout_free_returns [OF timely_await prompt_await this] obtain x t4 where
    "timeout TEST_READ_TIMEOUT (await (io_read_until api newline)) ?t3 = Some (Fin x t4)" by blast
  then have read: "bind_async (timeout TEST_READ_TIMEOUT (await (io_read_until api newline))) g ?t3 = g x t4"
    for g :: "_ \<Rightarrow> ('s, ('i \<times> usize, unit) ctl) async"
    by (rule bind_async_Fin)
  have written: "await (io_write_all api PING_MESSAGE) t1 = Some (Fin r ?t2)"
    using t1(2) w by (simp add: await_free)
  have flush: "await (io_flush api) ?t2 = Some (Fin r' ?t3)"
    using t1(2) f by (simp add: await_free)
  have "\<exists>c t'. test_loop_step api iv (i, 0) t = Some (Fin c t')"
    unfolding test_loop_step_def prod.case bind_async_Fin [where m = "tick iv i", OF t1(1)]
      bind_async_Fin [where m = "await (io_write_all api PING_MESSAGE)", OF written]
    by (cases r) (auto simp: ret_def bind_async_Fin [where m = "await (io_flush api)", OF flush] read [simplified] split: sum.split option.split)
  then show ?thesis using test_loop_step_breaks by metis
qed

lemma test_loop_returns:
  assumes "deadline t = None"
    and "\<And>s. \<exists>d r s'. io_write_all api PING_MESSAGE s = (Ready_in d r, s')"
    and "\<And>s. \<exists>d r s'. io_flush api s = (Ready_in d r, s')"
  shows "\<exists>t'. run_loop_with_test_interval api iv t = Some (Fin (Inr ()) t')"
proof -
  from test_loop_step_returns [OF assms, where iv = iv and
      i = "iv_new iv TEST_KEEP_ALIVE_INTERVAL (now t)"] obtain t' where
    "test_loop_step api iv (iv_new iv TEST_KEEP_ALIVE_INTERVAL (now t), 0) t = Some (Fin (Break ()) t')"
    by blast
  from loop_async_Break [of "test_loop_step api iv", OF this] show ?thesis
    by (simp add: run_loop_with_test_interval_def map_async_Fin)
qed

text \<open>On the scripted streams.\<close>

lemma pipe_calls:
  "io_write_all pipe_api b s = (Ready_in 0 (Inr ()), s\<lparr>bi_write := bi_write s @ b\<rparr>)"
  "io_flush pipe_api s = (Ready_in 0 (Inr ()), s)"
  by (simp_all add: pipe_api_def BiStream_api_def on_write_def pipe_writer_def)

lemma pipe_read_line:
  assumes "newline \<notin> set l" "length l < buf_reader_capacity" "bi_read s = [l @ [newline]]"
  shows "io_read_until pipe_api newline s = (Ready_in 0 (Inr (l @ [newline])), s\<lparr>bi_read := []\<rparr>)"
  using assms takeWhile_no_split [of newline l "[]"]
  by (simp add: pipe_api_def BiStream_api_def on_read_def pipe_reader_def ready_reader_def)

lemma test_loop_pipe:
  assumes l: "newline \<notin> set l" "length l < buf_reader_capacity"
  shows "run_loop_with_test_interval pipe_api burst_interval
      (start_test (BiStream_new [l @ [newline]] [] n)) =
    Some (Fin (Inr ()) (start_test (BiStream_new [] PING_MESSAGE n)))"
proof -
  let ?t = "start_test (BiStream_new [l @ [newline]] [] n)"
  let ?t1 = "start_test (BiStream_new [l @ [newline]] PING_MESSAGE n)"
  let ?t2 = "start_test (BiStream_new [] PING_MESSAGE n)"
  have "test_loop_step pipe_api burst_interval (iv_new burst_interval TEST_KEEP_ALIVE_INTERVAL (now ?t), 0) ?t =
      Some (Fin (Break ()) ?t2)"
  proof -
    have "timeout TEST_READ_TIMEOUT (await (io_read_until pipe_api newline)) ?t1 =
        Some (Fin (Some (Inr (l @ [newline]))) ?t2)"
      using timeout_free_Fin [of ?t1 "await (io_read_until pipe_api newline)" TEST_READ_TIMEOUT
          "Inr (l @ [newline])" "?t2\<lparr>deadline := Some TEST_READ_TIMEOUT\<rparr>"]
      by (simp add: start_test_def await_def pipe_read_line [OF l] BiStream_new_def)
    then show ?thesis
      by (simp add: test_loop_step_def bind_async_apply tick_def burst_interval_def await_free
          pipe_calls start_test_def BiStream_new_def ret_def)
  qed
  from loop_async_Break [of "test_loop_step pipe_api burst_interval", OF this] show ?thesis
    unfolding run_loop_with_test_interval_def by (rule map_async_Fin)
qed

lemma keepalive_tests_pass:
  "test_keepalive_client_good" "test_keepalive_client_wrong_response"
  "test_keepalive_client_write_error" "test_keepalive_client_timeout"
proof -
  have "run_loop_with_test_interval pipe_api burst_interval (start_test build_good_keepalive) =
      Some (Fin (Inr ()) (start_test (BiStream_new [] PING_MESSAGE ''good'')))"
    using test_loop_pipe [of "''PONG''" "''good''"]
    by (simp add: build_good_keepalive_def buf_reader_capacity_def)
  then show test_keepalive_client_good
    by (simp add: test_keepalive_client_good_def passes_def start_test_def BiStream_new_def)
  have "run_loop_with_test_interval pipe_api burst_interval (start_test build_wrong_response) =
      Some (Fin (Inr ()) (start_test (BiStream_new [] PING_MESSAGE ''wrong'')))"
    using test_loop_pipe [of "''WRONG''" "''wrong''"]
    by (simp add: build_wrong_response_def buf_reader_capacity_def)
  then show test_keepalive_client_wrong_response
    by (simp add: test_keepalive_client_wrong_response_def passes_def start_test_def BiStream_new_def)
  show test_keepalive_client_timeout
    using test_loop_returns [of "start_test ()" NeverRead_api burst_interval]
    by (auto simp: test_keepalive_client_timeout_def passes_def start_test_def)
  let ?t = "start_test (BiStream_new [] [] ''error'' :: pipe_end)"
  have "test_loop_step build_write_error burst_interval
      (iv_new burst_interval TEST_KEEP_ALIVE_INTERVAL (now ?t), 0) ?t = Some (Fin (Break ()) ?t)"
    by (simp add: test_loop_step_def bind_async_apply tick_def burst_interval_def await_free
        build_write_error_def start_test_def ret_def)
  from loop_async_Break [of "test_loop_step build_write_error burst_interval", OF this]
  have "run_loop_with_test_interval build_write_error burst_interval ?t = Some (Fin (Inr ()) ?t)"
    unfolding run_loop_with_test_interval_def by (rule map_async_Fin)
  then show test_keepalive_client_write_error
    by (simp add: test_keepalive_client_write_error_def passes_def start_test_def BiStream_new_def)
qed

text \<open>The tests of the server's side run the same loop on the same streams.\<close>

definition test_keepalive_server_good :: bool where
  "test_keepalive_server_good =
     passes (run_loop_with_test_interval pipe_api burst_interval (start_test build_good_keepalive))
       (\<lambda>s. bi_read s = [] \<and> bi_write s = PING_MESSAGE)"

definition test_keepalive_server_wrong_response :: bool where
  "test_keepalive_server_wrong_response =
     passes (run_loop_with_test_interval pipe_api burst_interval (start_test build_wrong_response))
       (\<lambda>s. bi_read s = [] \<and> bi_write s = PING_MESSAGE)"

definition test_keepalive_server_write_error :: bool where
  "test_keepalive_server_write_error =
     passes (run_loop_with_test_interval build_write_error burst_interval
       (start_test (BiStream_new [] [] ''error''))) (\<lambda>s. bi_write s = [])"

definition test_keepalive_server_timeout :: bool where
  "test_keepalive_server_timeout =
     passes (run_loop_with_test_interval NeverRead_api burst_interval (start_test ())) (\<lambda>_. True)"

lemma keepalive_server_tests_pass:
  "test_keepalive_server_good" "test_keepalive_server_wrong_response"
  "test_keepalive_server_write_error" "test_keepalive_server_timeout"
  using keepalive_tests_pass
  unfolding test_keepalive_client_good_def test_keepalive_server_good_def
    test_keepalive_client_wrong_response_def test_keepalive_server_wrong_response_def
    test_keepalive_client_write_error_def test_keepalive_server_write_error_def
    test_keepalive_client_timeout_def test_keepalive_server_timeout_def
  by blast+

subsection \<open>Forwarding\<close>

text \<open>A copy between any two streams, first from \<open>a\<close> to \<open>b\<close>; the fuel is the number of polls.\<close>

definition stream_copy ::
  "nat \<Rightarrow> (nat \<Rightarrow> 'a \<Rightarrow> (io_error + bytes) poll \<times> 'a) \<Rightarrow> (bytes \<Rightarrow> 'a \<Rightarrow> (io_error + nat) poll \<times> 'a) \<Rightarrow>
   (nat \<Rightarrow> 'b \<Rightarrow> (io_error + bytes) poll \<times> 'b) \<Rightarrow> (bytes \<Rightarrow> 'b \<Rightarrow> (io_error + nat) poll \<times> 'b) \<Rightarrow>
   ('a \<times> 'b) copy_fun" where
  "stream_copy k ra wa rb wb n m s =
     (case s of (a, b) \<Rightarrow>
        (case drain k n ra wb a b of
           (Inl e, a', b') \<Rightarrow> (Ready_in 0 (Inl e), (a', b'))
         | (Inr x, a', b') \<Rightarrow>
             (case drain k m rb wa b' a' of
                (Inl e, b'', a'') \<Rightarrow> (Ready_in 0 (Inl e), (a'', b''))
              | (Inr y, b'', a'') \<Rightarrow>
                  (Ready_in 0 (Inr (word_of_nat x, word_of_nat y)), (a'', b'')))))"

type_synonym test_counters = "DummyCounter \<times> DummyCounter"

definition forward_test ::
  "('a \<times> 'b) copy_fun \<Rightarrow> 'a \<Rightarrow> 'b \<Rightarrow> ((('a \<times> 'b) \<times> test_counters), error + unit) outcome option" where
  "forward_test copy stream_a stream_b =
     forward_bidirectional copy (\<lambda>n. apfst (DummyCounter_inc_by n)) (\<lambda>n. apsnd (DummyCounter_inc_by n))
       (start_test ((stream_a, stream_b), (DummyCounter_new, DummyCounter_new)))"

definition test_forward_bidirectional_success :: bool where
  "test_forward_bidirectional_success =
     passes (forward_test (stream_copy 10 (TestStream_poll_read ()) (TestStream_poll_write ())
           (TestStream_poll_read ()) (TestStream_poll_write ()))
         (TestStream_new ''hello'') (TestStream_new ''world''))
       (\<lambda>s. write_data (fst (fst s)) = ''world'' \<and> write_data (snd (fst s)) = ''hello'')"

text \<open>The texts of an \<open>anyhow\<close> error, as its debug output lists them.\<close>

fun error_chain :: "error \<Rightarrow> string list" where
  "error_chain (Context c e) = c # error_chain e"
| "error_chain (Msg m) = [m]"
| "error_chain (FromIo e) = [io_text e]"
| "error_chain FromUtf8 = []"

definition test_forward_bidirectional_failure :: bool where
  "test_forward_bidirectional_failure =
     (case forward_test (stream_copy 10 (FailingStream_poll_read ()) (FailingStream_poll_write ())
             (TestStream_poll_read ()) (TestStream_poll_write ()))
           () (TestStream_new ''data'') of
        Some (Fin (Inl e) t) \<Rightarrow> list_ex (\<lambda>m. contains m ''Bidirectional copy failed'') (error_chain e)
      | _ \<Rightarrow> False)"

definition test_forward_bidirectional_graceful_shutdown :: bool where
  "test_forward_bidirectional_graceful_shutdown =
     passes (forward_test (stream_copy 10 (TestStream_poll_read ()) (TestStream_poll_write ())
           (GracefulStream_poll_read ()) (GracefulStream_poll_write ()))
         (TestStream_new ''normal'') ()) (\<lambda>_. True)"

lemmas forward_test_simps =
  forward_test_def start_test_def forward_bidirectional_def Let_def bind_async_apply await_free
  on_fst_def modify_def ret_def stream_copy_def passes_def TestStream_new_def
  QUIC_STREAM_READ_BUFFER_SIZE_def

lemma forward_tests_pass:
  "test_forward_bidirectional_success" "test_forward_bidirectional_failure"
  "test_forward_bidirectional_graceful_shutdown"
proof -
  note drain1 = drain_TestStream [of _ "\<lparr>read_data = _, write_data = _, pos = 0\<rparr>" 10, simplified]
  show test_forward_bidirectional_success
    by (simp add: test_forward_bidirectional_success_def forward_test_simps drain1 del: drain.simps)
  have "drain 10 n (FailingStream_poll_read ()) (TestStream_poll_write ()) () b =
      (Inl (IoError OtherKind ''read failure''), (), b)" for n b
    by (simp add: numeral_eq_Suc FailingStream_poll_read_def)
  then show test_forward_bidirectional_failure
    by (simp add: test_forward_bidirectional_failure_def forward_test_simps del: drain.simps)
  have "drain 10 n (TestStream_poll_read ()) (GracefulStream_poll_write ()) (TestStream_new ''normal'') () =
      (Inl (IoError OtherKind ''sending stopped by peer: error 0''),
       (TestStream_new ''normal'')\<lparr>pos := min 6 n\<rparr>, ())" if "0 < n" for n
    using that by (cases n) (simp_all add: numeral_eq_Suc TestStream_new_def TestStream_poll_read_def
        GracefulStream_poll_write_def Let_def)
  then show test_forward_bidirectional_graceful_shutdown
    by (simp add: test_forward_bidirectional_graceful_shutdown_def forward_test_simps del: drain.simps)
qed

subsection \<open>The bidirectional stream\<close>

definition test_bistream_read :: bool where
  "test_bistream_read =
     (let data = ''hello world'';
          bistream = BiStream_new (MemoryStream_new data) (MemoryStream_new []) ''test_read''
      in case rd_read_exact memory_reader (length data) (bi_read bistream) of
           (Ready_in d (Inr buffer), _) \<Rightarrow> buffer = data
         | _ \<Rightarrow> False)"

definition test_bistream_write :: bool where
  "test_bistream_write =
     (let bistream = BiStream_new (MemoryStream_new []) (MemoryStream_new []) ''test_write'';
          data = ''test data''
      in case MemoryStream_poll_write () data (bi_write bistream) of
           (Ready (Inr bytes_written), _) \<Rightarrow> bytes_written = length data
         | _ \<Rightarrow> False)"

definition test_display :: bool where
  "test_display =
     (BiStream_fmt (BiStream_new (MemoryStream_new []) (MemoryStream_new []) ''DisplayTest'') =
        ''BiStream{DisplayTest}'')"

lemma bi_stream_tests_pass: "test_bistream_read" "test_bistream_write" "test_display"
proof -
  show test_bistream_read
    by (simp add: test_bistream_read_def BiStream_new_def MemoryStream_new_def memory_reader_def
        ready_reader_def MemoryStream_poll_read_def poll_bytes_def Let_def)
  show test_bistream_write
    by (simp add: test_bistream_write_def MemoryStream_poll_write_def)
  show test_display
    by (simp add: test_display_def BiStream_fmt_def BiStream_new_def)
qed

subsection \<open>The metrics endpoint\<close>

text \<open>
  The test registers one counter, increments it and asks for \<open>/metrics\<close>; the text format of
  \<open>Metrics_Endpoint\<close> stands for prometheus.
\<close>

definition test_metrics_endpoint :: bool where
  "test_metrics_endpoint =
     (let counter = counted () (inc () []);
          response = metrics_filter path_routes text_exporter
            [(''connections_accepted_total'', counter)] [''metrics'']
      in case response of
           Replied (body, header, content_type) \<Rightarrow>
             header = ''Content-Type'' \<and> content_type = format_type text_exporter \<and>
             valid_utf8 body \<and> contains body ''connections_accepted_total''
         | _ \<Rightarrow> False)"

lemma metrics_test_passes: "test_metrics_endpoint"
proof -
  let ?name = "''connections_accepted_total''"
  let ?body = "''# TYPE '' @ ?name @ '' counter'' @ [newline] @ ?name @ '' '' @ to_dec 1 @ [newline]"
  have "metrics_filter path_routes text_exporter [(?name, counted () (inc () []))] [''metrics''] =
      Replied (?body, ''Content-Type'', format_type text_exporter)"
    by (simp add: metrics_filter_def path_routes_def text_exporter_def metric_text_def metric_line_def)
  moreover have "contains ?body ?name"
    unfolding contains_iff by blast
  moreover have "valid_utf8 ?body"
    by (rule valid_utf8_ascii) simp
  ultimately show ?thesis
    unfolding test_metrics_endpoint_def Let_def by (simp only: answer.case prod.case simp_thms)
qed

subsection \<open>Authentication\<close>

text \<open>
  The two tests run both sides on one duplex stream; three rounds are enough for both to return.
  The message of an error is the outermost of its texts.
\<close>

definition auth_on_duplex ::
  "crypto \<Rightarrow> SystemTime \<Rightarrow> string \<Rightarrow> string \<Rightarrow> (error + unit) option \<times> (error + unit) option" where
  "auth_on_duplex cr system_now test_psk1 test_psk2 =
     duplex_results 3
       (server_authenticate duplex_api cr test_psk1 (SystemTimeProvider_now system_now))
       (client_authenticate duplex_api cr test_psk2)"

definition test_authentication_protocol_good :: "crypto \<Rightarrow> SystemTime \<Rightarrow> bool" where
  "test_authentication_protocol_good cr system_now =
     (let test_psk = ''test-secret'' in
      case auth_on_duplex cr system_now test_psk test_psk of
        (Some server, Some client) \<Rightarrow> is_ok server \<and> is_ok client
      | _ \<Rightarrow> False)"

definition test_authentication_protocol_bad_psk :: "crypto \<Rightarrow> SystemTime \<Rightarrow> bool" where
  "test_authentication_protocol_bad_psk cr system_now =
     (let test_psk1 = ''test-secret''; test_psk2 = ''another-test-secret'' in
      case auth_on_duplex cr system_now test_psk1 test_psk2 of
        (Some server_res, Some client_res) \<Rightarrow>
          (case (if is_ok server_res then client_res else server_res) of
             Inr _ \<Rightarrow> False
           | Inl err \<Rightarrow>
               (case error_chain err of
                  [] \<Rightarrow> False
                | m # _ \<Rightarrow> contains m ''Authentication failed: response mismatch''))
      | _ \<Rightarrow> False)"

lemma authentication_tests_pass:
  assumes "crypto_ok cr" "getrandom_fill cr 32 = Inr rnd"
    and "ch = server_challenge cr rnd (SystemTimeProvider_now system_now)"
    and "auth_response cr ch ''another-test-secret'' \<noteq> auth_response cr ch ''test-secret''"
  shows "test_authentication_protocol_good cr system_now"
    "test_authentication_protocol_bad_psk cr system_now"
  using duplex_handshake [OF assms(1,2), of 3 "''test-secret''" "SystemTimeProvider_now system_now"]
    assms(3,4)
  by (simp_all add: test_authentication_protocol_good_def test_authentication_protocol_bad_psk_def
      auth_on_duplex_def)

subsection \<open>All of them\<close>

text \<open>
  A check of the model against the program's own tests: every assertion of the tests, and of the
  examples in the documentation, holds in it, and every one of these programs returns.  The tests
  run on fixed inputs, and those of the keepalive only exercise the loop of the test module; what
  is shown of the program itself are the theorems of the other theories.
\<close>

lemma model_passes_unit_tests:
  "test_keepalive_client_good \<and> test_keepalive_client_wrong_response \<and>
   test_keepalive_client_write_error \<and> test_keepalive_client_timeout \<and>
   test_keepalive_server_good \<and> test_keepalive_server_wrong_response \<and>
   test_keepalive_server_write_error \<and> test_keepalive_server_timeout \<and>
   test_forward_bidirectional_success \<and> test_forward_bidirectional_failure \<and>
   test_forward_bidirectional_graceful_shutdown \<and>
   test_bistream_read \<and> test_bistream_write \<and> test_display \<and> test_metrics_endpoint \<and>
   test_authentication_protocol_good sample_crypto 0 \<and>
   test_authentication_protocol_bad_psk sample_crypto 0 \<and>
   example_load_or_generate sample_tools ''/tmp/t'' empty_disk \<and>
   example_load sample_tools ''/tmp/t'' empty_disk \<and>
   example_generate sample_tools ''/tmp/t'' empty_disk \<and> example_allowed_ports"
proof -
  have rnd: "getrandom_fill sample_crypto 32 = Inr (replicate 32 (CHR 0x2A))"
    by (simp add: sample_crypto_def)
  note auth = authentication_tests_pass [OF sample_crypto_ok rnd HOL.refl sample_responses_differ]
  have "fresh_dir ''/tmp/t'' empty_disk" by (simp add: fresh_dir_def empty_disk_def)
  moreover have "generate_simple_self_signed sample_tools [''localhost''] =
      Inr (''cert for localhost'', ''new key'')"
    by (simp add: sample_tools_def)
  ultimately show ?thesis
    using keepalive_tests_pass keepalive_server_tests_pass forward_tests_pass bi_stream_tests_pass
      metrics_test_passes auth certificate_examples_hold allowed_ports_example_holds by blast
qed

end
