(* ===== verification/Spec2Isabelle.thy ===== *)
theory Spec2Isabelle
  imports Mains Tunnel_System Tunnel_Streams Server_Session Keepalive_Link Unit_Tests
begin

text \<open>
  \<^bold>\<open>PortRedirect: a verification development\<close>

  PortRedirect forwards TCP connections through a QUIC tunnel.  The server program
  (\<open>src/server/main.rs\<close>) accepts QUIC connections; a client (\<open>src/client/main.rs\<close>) proves on a
  control stream that it knows the pre-shared key, asks for a TCP port, and keeps the control
  stream alive with pings.  The server then listens on that port and opens one QUIC stream per TCP
  connection, which the client connects to its destination.  When the control channel ends, the
  token is cancelled, the listener stops and the connection is closed.  Paths below are relative
  to \<open>src/\<close> of the crate.

  \<^bold>\<open>The theories\<close>

  \<^item> \<open>PR_Prelude\<close>: errors (\<open>anyhow\<close> errors with their contexts), results as sums, machine integers
    as words, the collections of introduction rules.
  \<^item> \<open>Rust_Std\<close>: what the sources use of the standard library: decimal texts and \<open>parse\<close>, \<open>trim\<close>,
    \<open>lines\<close>, \<open>split_once\<close>, UTF-8, big-endian bytes, paths.
  \<^item> \<open>Async_Model\<close>: asynchronous functions.  A computation is a function from a task (the time, the
    deadline of the enclosing \<open>timeout\<close>, the state) to the outcome: finished, cut off at the
    deadline, or \<open>None\<close> when it never returns.  \<open>await\<close>, \<open>timeout\<close>, \<open>select!\<close> with a cancellation
    token, and loops (\<open>loop_async\<close>, a \<open>partial_function\<close>), with calculi for deadlines kept
    (\<open>timely\<close>), for returning (\<open>prompt\<close>), for durations (\<open>within\<close>) and for independence of
    deadlines that are not reached (\<open>patient\<close>).
  \<^item> \<open>Stream_Api\<close> and \<open>Bi_Stream\<close> (\<open>bi_stream.rs\<close>): readers and writers as records of their calls,
    contracts of streams as locales (\<open>chunk_reader\<close>, \<open>byte_writer\<close>, \<open>chunk_stream\<close>, \<open>swift_stream\<close>),
    the pair \<open>BiStream\<close>, and interpretations for the memory stream of the tests and for pipes.
  \<^item> \<open>Protocol_Base\<close> (\<open>lib.rs\<close>, \<open>protocol/utils.rs\<close>): constants, configuration directory, time.
  \<^item> \<open>Protocol_Auth\<close> (\<open>protocol/auth.rs\<close>), \<open>Protocol_Control\<close> (\<open>protocol/control.rs\<close>) and
    \<open>Protocol_Keepalive\<close> (\<open>protocol/keepalive.rs\<close>): the three protocols on the control stream.
  \<^item> \<open>Auth_Duplex\<close>: both sides of the handshake on one duplex stream, run against each other in
    rounds that hand over what each side has written.
  \<^item> \<open>Keepalive_Link\<close>: the bodies of the two keepalive loops run against each other, in time, over
    a network with delays.
  \<^item> \<open>Port_Spec\<close> (\<open>server/mod.rs\<close>), \<open>App_Data\<close> (\<open>app_data.rs\<close>), \<open>Metrics\<close> (\<open>metrics_helper.rs\<close>,
    \<open>client/metrics.rs\<close>, the two \<open>metrics_counters.rs\<close>), \<open>Forward\<close> (\<open>forward.rs\<close>).
  \<^item> \<open>Quic_Cert\<close> (certificates of \<open>quic/server.rs\<close>, \<open>quic/mod.rs\<close>) and \<open>Quic_Endpoints\<close>
    (\<open>run_quic_server\<close>, \<open>run_quic_client\<close>).
  \<^item> \<open>Server_Handler\<close> (\<open>server/auth.rs\<close>, \<open>server/client_handler.rs\<close>) and \<open>Server_Listener\<close>
    (\<open>server/tcp_listener.rs\<close>, \<open>server/tcp_forwarder.rs\<close>): each task as a sequential computation.
  \<^item> \<open>Connection_System\<close>: the tasks of all clients of a server in parallel, as step relations over
    shared counters.
  \<^item> \<open>Server_Session\<close>: the handler of a client with the listener it spawns in place of the
    parameter that stands for the task in \<open>Server_Handler\<close>.
  \<^item> \<open>Client_Handler\<close> (\<open>client/auth.rs\<close>, \<open>client/server_handler.rs\<close>, \<open>client/tcp_forwarder.rs\<close>) and
    \<open>Client_System\<close>, the tasks of the client in parallel, as a step relation.
  \<^item> \<open>Tunnel_System\<close>: both ends in parallel, joined by the QUIC streams between the listener of the
    server and the accept loop of the client, as a step relation; \<open>Tunnel_Streams\<close>: the functions
    \<open>handle_tcp_listener\<close> and \<open>handle_quic_server_connection\<close> joined by a QUIC connection.
  \<^item> \<open>Metrics_Endpoint\<close> (\<open>client/metrics.rs\<close>): the HTTP endpoint for the counters.
  \<^item> \<open>Mains\<close> (\<open>server/main.rs\<close>, \<open>client/main.rs\<close>, \<open>client/run_client.rs\<close>,
    \<open>server/metrics_printer.rs\<close>): the two programs.
  \<^item> \<open>Doc_Examples\<close>: the examples in the documentation comments of \<open>quic/server.rs\<close> and
    \<open>server/mod.rs\<close>, and \<open>Unit_Tests\<close>: the test functions of \<open>protocol/auth.rs\<close>,
    \<open>protocol/keepalive.rs\<close>, \<open>forward.rs\<close>, \<open>bi_stream.rs\<close> and \<open>client/metrics.rs\<close>, as Booleans over
    the model.
  \<^item> This theory: properties that span components.

  \<^bold>\<open>What is shown\<close>

  \<^item> Authentication: the handshake of two sides with the same key succeeds, with different responses
    both sides fail; on any stream the server accepts only the hash of its own challenge and key;
    malformed responses are errors; the request always fits the buffer of the client; a challenge
    never expires.  Run against
    each other on one duplex stream, both sides return, and they agree on whether the keys match:
    three rounds are enough, and the results are the same for any larger number.
  \<^item> Configuration: the complete result for every byte sequence in every splitting, and the round
    trip for every port.  Port lists: the parser accepts exactly the documented texts, and a list
    allows exactly the union of its ports.
  \<^item> Keepalive: the control loop answers exactly the leading pings, always cancels its token, gives a
    silent peer up after a minute; the client pings every 30 seconds and gives up after 30 seconds of
    silence.  Run against each other from their starts, the two loops go on exactly as long as the
    network brings each ping over and its answer back within 30 seconds.
  \<^item> Server: a peer can neither delay the preparation beyond its bounds nor make the handler close
    the connection twice or not at all; the life of a well-behaved client in full; a client that
    falls silent is dropped, with its listener, after exactly one minute; from the command
    line to the socket, the server listens only as it was told and only for a peer with the key.
  \<^item> Parallel tasks: in all reachable states the counters account for every TCP connection; a
    handler returns only after its listener has stopped; runs can always come to their end; the
    sequential listener, as a timed run in which the token is cancelled at its instant, the handler
    of a client together with its listener, and the forwarding tasks refine the step relations.
  \<^item> Both ends: whatever the interleaving, the counters of the two programs agree up to what is on
    its way, and every run can be ended cleanly; every stream the listener opens is forwarded by
    exactly one task on either side, in order, for the TCP connection it was opened for.
  \<^item> Forwarding, certificates, endpoints and programs: outcomes, counters, restart with the same
    identity, admission of connections, trust of the client, when the endpoint of the server opens,
    printed lines, well-formed port lists, the text of the metrics endpoint; the unit tests hold in
    the model.
  \<^item> Flaws: the shipped client never sends the configuration message; the prompt must arrive in one
    piece; a challenge never expires; a failed write of the key leaves a mismatched certificate; an
    option and two statistics have no effect; the metrics printer prints at its first tick although
    nothing has changed; forwarding tasks outlive their connection.

  \<^bold>\<open>Choices\<close>

  Time is a natural number of nanoseconds; a library call answers with a result after a delay, or
  never.  All results that speak of returning are proved as such: loops that may run forever are
  \<open>partial_function\<close>s with value \<open>None\<close>, and no fuel is used for code of the program; the fuel of
  \<open>drain\<close>, the copy between the test streams, exceeds the bytes to copy.  Tokio's scheduler is
  represented twice: one task at a time in the sequential theories, with the other tasks behind the
  environment's calls, and all interleavings in \<open>Connection_System\<close>, \<open>Client_System\<close> and
  \<open>Tunnel_System\<close>.  There a task makes one step per \<open>await\<close>, the keepalive loops of both ends
  included; \<open>copy_bidirectional\<close> is a single \<open>await\<close>, and the client's \<open>connect\<close> before it, which
  changes nothing visible, belongs to the same step.  The steps leave open when a message, an error
  or a timeout occurs; of quinn they use that \<open>open_bi\<close> fails on a closed connection, that
  \<open>accept_bi\<close> delivers each stream at most once and fails only on a connection that is closed or
  lost.  tokio, quinn, rustls, rcgen, sha2, hex, getrandom, dirs, clap, warp and
  prometheus are parameters; what is assumed of them are the locale assumptions and \<open>crypto_ok\<close>,
  \<open>retry_contract\<close>, \<open>prometheus_ok\<close>, each with an interpretation or a witness.

  \<^bold>\<open>Not modelled\<close>

  Log output and the set-up of tracing; parsing of the command line (clap); what happens inside
  TLS, QUIC, HTTP and the text format of prometheus.
\<close>

section \<open>Properties that span components\<close>

text \<open>
  What the shipped client sends on the control channel after the handshake is a sequence of
  pings, and the server's configuration step rejects every such sequence.
\<close>

lemma pings_do_not_configure:
  assumes "configured_as (concat (replicate k PING_MESSAGE)) r"
  shows "\<not> is_ok r"
proof -
  consider "k = 0" | "k = 1" | m where "k = Suc (Suc m)"
    by (metis One_nat_def not0_implies_Suc)
  then have "length (concat (replicate k PING_MESSAGE)) < 10 \<or>
      take 10 (concat (replicate k PING_MESSAGE)) = ''PING'' @ [newline] @ ''PING'' @ [newline]"
    by cases (simp_all add: PING_MESSAGE_def)
  with assms show ?thesis
    by (auto simp: configured_as_def split: if_splits)
qed

text \<open>
  C1: the server program, from the command line to the socket: with whatever client, a
  connection handler of the running server starts to listen only on the host given with
  \<open>--local-host\<close> and a port that is on the list \<open>--allowed-client-ports\<close> or is
  \<open>--local-port\<close>, and only for a peer that has answered the challenge of this connection with
  the hash that the key given with \<open>--quic-psk\<close> yields, and has then asked for the port.
\<close>

theorem server_program_listens_only_as_told:
  assumes "server_main host args fs = (r, run, fs')" "sr_config run = Some config"
    and "prepare_client env config t = Some (Fin x t')" "deadline t = None"
    and "sw_effects (strm t) = []" "(n, Listening addr) \<in> set (sw_effects (strm t'))"
  shows "\<exists>p rnd buf d s1 s2.
    ((\<exists>ps. allowed_client_ports args = Some ps \<and> p \<in> (\<Union>spec \<in> set ps. port_set spec)) \<or>
      local_port args = Some p) \<and>
    addr = local_host args @ '':'' @ to_dec (unat p) \<and>
    getrandom_fill (server_crypto env) 32 = Inr rnd \<and>
    io_read_exact (control_api env) 129 s1 = (Ready_in d (Inr buf), s2) \<and>
    trim_end buf = auth_response (server_crypto env)
      (server_challenge (server_crypto env) rnd (SystemTimeProvider_now (system_time env)))
      (quic_psk args)"
proof -
  from server_main_serving [OF assms(1,2)] obtain dir quic_addr where
    config: "config = ServerConfig_create_default_config dir (quic_cert_hostname args) quic_addr None
      (ServerAppData_new (quic_psk args) (local_host args) (collect_client_ports args))"
    by blast
  have app: "s_local_bind_ports (app_data config) = collect_client_ports args"
    "s_connection_auth_psk (app_data config) = quic_psk args"
    "listen_addr (app_data config) p = local_host args @ '':'' @ to_dec (unat p)" for p
    by (simp_all add: config ServerConfig_create_default_config_def ServerAppData_new_def listen_addr_def)
  from listens_only_for_authenticated_and_allowed [OF assms(3-6)] show ?thesis
    unfolding app collect_client_ports_allows by blast
qed

definition sample_server_host :: "(unit, string, rustls_ServerConfig) server_host" where
  "sample_server_host =
     \<lparr>sh_install_default = Inr (), sh_platform_dir = None, sh_create_dir_all = (\<lambda>_ fs. (Inr (), fs)),
      sh_to_socket_addrs = (\<lambda>_. Inr [()]), sh_tools = sample_tools,
      sh_quic = \<lparr>with_single_cert = (\<lambda>c k. Inr \<lparr>tls_chain = c, tls_key = k, alpn_protocols = []\<rparr>),
        server_try_from = Inr,
        default_transport = default_transport sample_server_env,
        endpoint_server = (\<lambda>q tc a. Inr [])\<rparr>\<rparr>"

definition sample_server_args :: server_Args where
  "sample_server_args =
     \<lparr>config_dir = Some ''/etc/pr'', local_host = ''0.0.0.0'', local_port = None,
      allowed_client_ports = Some [Range 8000 9000], quic_server_host = ''127.0.0.1'',
      quic_server_port = 4433, quic_cert_hostname = ''localhost'', quic_psk = ''key'',
      print_metrics = False\<rparr>"

lemma sample_server_config:
  "\<exists>r run fs'. server_main sample_server_host sample_server_args empty_disk = (r, run, fs') \<and>
     sr_config run = Some sample_config"
proof -
  have p: "prepared sample_server_host sample_server_args empty_disk sample_config empty_disk"
    by (simp add: prepared_def sample_server_args_def get_config_dir_def collect_client_ports_def
        sample_config_def sample_server_host_def)
  have "\<exists>fs'. open_endpoint (sh_tools sample_server_host) (sh_quic sample_server_host) sample_config empty_disk =
      (Some (Inr []), fs')"
    using der_paths(3) [of "''/etc/pr''"]
    by (simp add: open_endpoint_def load_or_generate_quic_cert_def generate_quic_cert_def fs_exists_def
        fs_write_def sample_tools_def empty_disk_def sample_server_host_def sample_config_def
        ServerConfig_create_default_config_def)
  with server_main_prepared [OF p] show ?thesis by (auto split: prod.splits)
qed

theorem server_program_listens_only_as_told_witness:
  "\<exists>p. p \<in> port_set (Range 8000 9000) \<and> ''0.0.0.0:8080'' = ''0.0.0.0:'' @ to_dec (unat p)"
proof -
  obtain r run fs' where main: "server_main sample_server_host sample_server_args empty_disk = (r, run, fs')"
    "sr_config run = Some sample_config"
    using sample_server_config by blast
  obtain s t' where "prepare_client (pipe_env [sample_answer, listenport_message 8080, ''BYE'' @ [newline]])
      sample_config fresh_task = Some (Fin (Inr ((), s, 8080)) t')"
    "sw_effects (strm t') = [(now t', Listening ''0.0.0.0:8080'')]"
    using sample_prepared by blast
  from server_program_listens_only_as_told [OF main this(1), of "now t'" "''0.0.0.0:8080''"] this(2)
  show ?thesis by (auto simp: sample_server_args_def)
qed

text \<open>
  C29: only well-formed port specifications get into the running server: when the texts of
  \<open>--allowed-client-ports\<close> have all been read by the parser, a server that runs has a list of
  ports without inverted ranges, and one that allows at least one port.
\<close>

theorem running_server_has_wellformed_ports:
  assumes "server_main host args fs = (r, run, fs')" "sr_config run = Some config"
    and "\<And>ps spec. allowed_client_ports args = Some ps \<Longrightarrow> spec \<in> set ps \<Longrightarrow>
      \<exists>s. PortSpec_from_str s = Inr spec"
  shows "list_all PortSpec_wf (s_local_bind_ports (app_data config)) \<and>
    (\<exists>port. AllowedPorts_allows (s_local_bind_ports (app_data config)) port)"
proof -
  from server_main_serving [OF assms(1,2)] have ne: "collect_client_ports args \<noteq> []"
    and ports: "s_local_bind_ports (app_data config) = collect_client_ports args"
    by (auto simp: ServerConfig_create_default_config_def ServerAppData_new_def)
  have wf: "PortSpec_wf spec" if "spec \<in> set (collect_client_ports args)" for spec
    using that assms(3) from_str_wf
    by (auto simp: collect_client_ports_def split: option.splits)
  from ne obtain spec where spec: "spec \<in> set (collect_client_ports args)"
    by (cases "collect_client_ports args") auto
  have "\<exists>port. port \<in> port_set spec"
    using wf [OF spec] by (cases spec) auto
  with spec wf show ?thesis
    unfolding ports list_all_iff AllowedPorts_allows_iff by blast
qed

theorem running_server_has_wellformed_ports_witness:
  "\<exists>config port. list_all PortSpec_wf (s_local_bind_ports (app_data (config :: (unit, ServerAppData) ServerConfig))) \<and>
    s_local_bind_ports (app_data config) = [Range 8000 9000] \<and>
    AllowedPorts_allows (s_local_bind_ports (app_data config)) port"
proof -
  obtain r run fs' where main: "server_main sample_server_host sample_server_args empty_disk = (r, run, fs')"
    "sr_config run = Some sample_config"
    using sample_server_config by blast
  have "PortSpec_from_str (PortSpec_text (Range 8000 9000)) = Inr (Range 8000 9000)"
    by (rule from_str_text) simp
  then have "\<exists>s. PortSpec_from_str s = Inr spec"
    if "allowed_client_ports sample_server_args = Some ps" "spec \<in> set ps" for ps spec
    using that by (auto simp: sample_server_args_def)
  from running_server_has_wellformed_ports [OF main this] show ?thesis
    by (intro exI [of _ sample_config]) (auto simp: sample_config_def
        ServerConfig_create_default_config_def ServerAppData_new_def)
qed

text \<open>
  C33: the shipped programs do not get past the configuration: whatever the answers it gets, what
  the client's keepalive loop writes after the handshake makes the server's configuration step
  fail, in every splitting into chunks.
\<close>

theorem shipped_client_is_never_configured:
  fixes wa :: "'w writer_api" and ts :: "('r, 'w) BiStream task"
  assumes "swift_stream api rx tx lag" "lag \<le> READ_TIMEOUT" "tick_source iv due period"
    and "deadline tc = None" "rx (strm tc) = replicate k PONG_MESSAGE @ tail" "no_pong tail"
    and "run_keepalive_client_loop api iv tc = Some (Fin (Inr ()) tc')"
    and "bi_halves ra chunks wa written" "deadline ts = None" "[] \<notin> set (chunks (bi_read (strm ts)))"
    and "tx (strm tc') = tx (strm tc) @ concat (chunks (bi_read (strm ts)))"
  shows "\<exists>e ts'. configure_quic_client ra ts = Some (Fin (Inl e) ts') \<and>
    concat (chunks (bi_read (strm ts))) = concat (replicate (Suc k) PING_MESSAGE)"
proof -
  from client_pings_run [OF assms(1-6)] assms(7,11)
  have sent: "concat (chunks (bi_read (strm ts))) = concat (replicate (Suc k) PING_MESSAGE)" by simp
  from bi_halves.configure_run [OF assms(8-10)] obtain ts' r where
    r: "configure_quic_client ra ts = Some (Fin r ts')" "configured_as (concat (chunks (bi_read (strm ts)))) r"
    by blast
  from pings_do_not_configure [of "Suc k" r] r(2) sent have "\<not> is_ok r" by metis
  then obtain e where "r = Inl e" by (cases r) auto
  with r(1) sent show ?thesis by blast
qed

theorem shipped_client_is_never_configured_witness:
  "\<exists>e ts'. configure_quic_client pipe_reader (pipe_task [PING_MESSAGE, PING_MESSAGE]) =
     Some (Fin (Inl e) ts')"
proof -
  let ?t = "pipe_task [PONG_MESSAGE]"
  have rx: "pipe_rx (strm ?t) = replicate 1 PONG_MESSAGE @ []" by simp
  from client_pings_run [OF pipe_swift_stream _ burst.tick_source_axioms pipe_task_simps(2) rx]
  obtain t' where t': "run_keepalive_client_loop pipe_api burst_interval ?t = Some (Fin (Inr ()) t')"
    "pipe_tx (strm t') = concat (replicate 2 PING_MESSAGE)"
    by (auto simp: numeral_2_eq_2)
  have "bi_read (strm (pipe_task [PING_MESSAGE, PING_MESSAGE])) = [PING_MESSAGE, PING_MESSAGE]"
    by (simp add: pipe_task_def BiStream_new_def)
  then show ?thesis
    using shipped_client_is_never_configured [OF pipe_swift_stream _ burst.tick_source_axioms
        pipe_task_simps(2) rx _ t'(1) pipe.bi_halves_axioms, of "pipe_task [PING_MESSAGE, PING_MESSAGE]"] t'(2)
    by (auto simp: numeral_2_eq_2 PING_MESSAGE_def)
qed

end
